(* ===== verification/GoBase.thy ===== *)
theory GoBase
  imports Main "HOL-Library.Word"
begin

text \<open>
  Prelude of the development: what the source takes from the Go language and its standard
  library, with the lemmas every component shares.

  A Go \<open>byte\<close> is an \<open>8 word\<close>, \<open>[]byte\<close> a list of them (\<open>nil\<close> and the empty slice are both
  \<open>[]\<close>; no modelled function tells them apart), \<open>uint16\<close>/\<open>uint32\<close> are words of that width and
  the 64-bit \<open>int\<close> of a length or an offset is a \<open>nat\<close>.  A Go string is a byte sequence, and
  so is an Isabelle \<open>string\<close> (a \<open>char\<close> is eight bits).  Case mapping and trimming are those of
  the ASCII range; on other bytes, where Go consults the Unicode tables, they are the identity.

  A function that returns \<open>(T, error)\<close> returns \<open>go_error + T\<close>.  A run-time panic is the
  error value \<open>GoPanic\<close>.
\<close>

unbundle bit_operations_syntax

named_theorems go_defs \<open>definitions of the modelled standard library\<close>
named_theorems wire_simps \<open>lengths and decodings of encoded values\<close>

type_synonym byte = "8 word"
type_synonym bytes = "byte list"
type_synonym u16 = "16 word"
type_synonym u32 = "32 word"
type_synonym u64 = "64 word"

section \<open>Errors\<close>

text \<open>The kinds of \<open>adcore.Kind\<close> that the source names.\<close>

datatype kind =
    KindUnknown
  | KindNotFound
  | KindAlreadyExists
  | KindDenied
  | KindConstraint
  | KindInvalidAttribute
  | KindTooManyResults
  | KindReferral
  | KindPassword
  | KindReplication
  | KindTransient
  | KindTransport

text \<open>
  Go errors.  \<open>ErrMsg m\<close> is \<open>errors.New(m)\<close>, and \<open>fmt.Errorf\<close> without \<open>%w\<close>; \<open>ErrWrap m e\<close> is
  \<open>fmt.Errorf("m: %w", e)\<close> and \<open>ErrWrapEnd e m\<close> is \<open>fmt.Errorf("%w: m", e)\<close>; \<open>ErrRaw\<close> is
  \<open>*conn.RawError\<close>; \<open>ErrLdap\<close> is \<open>*ldap.Error\<close> with what its \<open>Error\<close> returns; \<open>ErrRejected\<close> is \<open>conn.rejected\<close>; \<open>ErrAd\<close> is \<open>*adcore.Error\<close>, whose
  fields are the ones the source sets and reads.
\<close>

datatype go_error =
    ErrMsg string
  | ErrWrap string go_error
  | ErrWrapEnd go_error string
  | ErrCanceled
  | ErrDeadlineExceeded
  | ErrPoolClosed
  | ErrRejected go_error
  | ErrRaw (rawResultCode: u16) (rawDiagnosticMessage: string) (rawErr: "go_error option")
  | ErrLdap (ldapResultCode: u16) (ldapText: string) (ldapErr: "go_error option")
  | ErrAd ad_error
  | GoPanic string
and ad_error =
  AdError (Kind: kind) (Op: string) (Identity: string) (Target: string) (Code: int)
    (ServerMessage: string) (Tombstoned: bool) (Err: "go_error option")

type_synonym 'a res = "go_error + 'a"

text \<open>Sequencing of fallible steps: the error returns at once.\<close>

definition bind_res :: "'a res \<Rightarrow> ('a \<Rightarrow> 'b res) \<Rightarrow> 'b res" where
  "bind_res r f = (case r of Inl e \<Rightarrow> Inl e | Inr x \<Rightarrow> f x)"

lemma bind_res_simps [simp]:
  "bind_res (Inl e) f = Inl e"
  "bind_res (Inr x) f = f x"
  by (simp_all add: bind_res_def)

lemma bind_res_eq_Inr [simp]:
  "bind_res r f = Inr y \<longleftrightarrow> (\<exists>x. r = Inr x \<and> f x = Inr y)"
  by (cases r) simp_all

lemma bind_res_eq_Inl:
  "bind_res r f = Inl e \<longleftrightarrow> r = Inl e \<or> (\<exists>x. r = Inr x \<and> f x = Inl e)"
  by (cases r) simp_all

lemma bind_res_neq_Inl:
  "r \<noteq> Inl e \<Longrightarrow> (\<And>x. r = Inr x \<Longrightarrow> f x \<noteq> Inl e) \<Longrightarrow> bind_res r f \<noteq> Inl e"
  by (cases r) auto

lemma bind_res_assoc: "bind_res (bind_res r f) g = bind_res r (\<lambda>x. bind_res (f x) g)"
  by (cases r) simp_all

lemma bind_res_cong [fundef_cong]:
  "r = r' \<Longrightarrow> (\<And>x. r' = Inr x \<Longrightarrow> f x = f' x) \<Longrightarrow> bind_res r f = bind_res r' f'"
  by (cases r') simp_all

text \<open>A loop that appends one result per element and stops at the first error.\<close>

fun map_res :: "('a \<Rightarrow> 'b res) \<Rightarrow> 'a list \<Rightarrow> 'b list res" where
  "map_res f [] = Inr []"
| "map_res f (x # xs) = bind_res (f x) (\<lambda>y. bind_res (map_res f xs) (\<lambda>ys. Inr (y # ys)))"

lemma map_res_Inr_map:
  "(\<And>x. x \<in> set xs \<Longrightarrow> f x = Inr (g x)) \<Longrightarrow> map_res f xs = Inr (map g xs)"
  by (induction xs) simp_all

lemma map_res_Inr_length: "map_res f xs = Inr ys \<Longrightarrow> length ys = length xs"
  by (induction xs arbitrary: ys) auto

text \<open>
  \<open>errors.Unwrap\<close>, and the chain it walks.  \<open>errors.Is\<close> and \<open>errors.As\<close> search that chain from
  the front: \<open>as_raw\<close> and \<open>as_ad\<close> are \<open>errors.As\<close> at \<open>*conn.RawError\<close> and \<open>*adcore.Error\<close>.
\<close>

fun error_chain :: "go_error \<Rightarrow> go_error list" where
  "error_chain (ErrWrap m e) = ErrWrap m e # error_chain e"
| "error_chain (ErrWrapEnd e m) = ErrWrapEnd e m # error_chain e"
| "error_chain (ErrRejected e) = ErrRejected e # error_chain e"
| "error_chain (ErrRaw c d (Some e)) = ErrRaw c d (Some e) # error_chain e"
| "error_chain (ErrLdap c t (Some e)) = ErrLdap c t (Some e) # error_chain e"
| "error_chain (ErrAd (AdError k op i t c m b (Some e))) =
     ErrAd (AdError k op i t c m b (Some e)) # error_chain e"
| "error_chain e = [e]"

definition is_raw :: "go_error \<Rightarrow> bool" where
  "is_raw e = (case e of ErrRaw _ _ _ \<Rightarrow> True | _ \<Rightarrow> False)"

definition is_ad :: "go_error \<Rightarrow> bool" where
  "is_ad e = (case e of ErrAd _ \<Rightarrow> True | _ \<Rightarrow> False)"

definition is_rejected :: "go_error \<Rightarrow> bool" where
  "is_rejected e = (case e of ErrRejected _ \<Rightarrow> True | _ \<Rightarrow> False)"

definition errors_Is :: "go_error \<Rightarrow> go_error \<Rightarrow> bool" where
  "errors_Is e target \<longleftrightarrow> target \<in> set (error_chain e)"

definition as_raw :: "go_error \<Rightarrow> go_error option" where
  "as_raw e = find is_raw (error_chain e)"

definition as_ad :: "go_error \<Rightarrow> ad_error option" where
  "as_ad e = (case find is_ad (error_chain e) of Some (ErrAd a) \<Rightarrow> Some a | _ \<Rightarrow> None)"

lemma as_ad_ErrAd [simp]: "as_ad (ErrAd a) = Some a"
proof -
  obtain k op i t c m b x where a: "a = AdError k op i t c m b x" by (cases a)
  then show ?thesis by (cases x) (simp_all add: as_ad_def is_ad_def)
qed

section \<open>Slices\<close>

text \<open>The Go slice expression \<open>b[i:j]\<close>, for bounds the code has checked.\<close>

definition slice :: "nat \<Rightarrow> nat \<Rightarrow> 'a list \<Rightarrow> 'a list" where
  [go_defs]: "slice i j b = take (j - i) (drop i b)"

lemma slice_length: "j \<le> length b \<Longrightarrow> length (slice i j b) = j - i"
  by (simp add: slice_def)

lemma slice_append_left: "j \<le> length a \<Longrightarrow> slice i j (a @ b) = slice i j a"
  by (cases "i \<le> length a") (simp_all add: slice_def)

lemma slice_append_right:
  "length a \<le> i \<Longrightarrow> slice i j (a @ b) = slice (i - length a) (j - length a) b"
  by (simp add: slice_def)

lemma slice_full: "slice 0 (length b) b = b"
  by (simp add: slice_def)

text \<open>Overwriting the bytes from an offset on: what \<open>copy(b[at:], v)\<close> and \<open>PutUint\<close> do.\<close>

definition put_at :: "nat \<Rightarrow> 'a list \<Rightarrow> 'a list \<Rightarrow> 'a list" where
  [go_defs]: "put_at at v b = take at b @ v @ drop (at + length v) b"

lemma put_at_length [wire_simps]:
  "at + length v \<le> length b \<Longrightarrow> length (put_at at v b) = length b"
  by (simp add: put_at_def)

lemma put_at_append:
  "at + length v \<le> length b \<Longrightarrow> put_at at v (b @ c) = put_at at v b @ c"
  by (simp add: put_at_def)

section \<open>Package encoding/binary\<close>

definition le16 :: "u16 \<Rightarrow> bytes" where
  [go_defs]: "le16 w = [ucast w, ucast (drop_bit 8 w)]"

definition le32 :: "u32 \<Rightarrow> bytes" where
  [go_defs]: "le32 w = [ucast w, ucast (drop_bit 8 w), ucast (drop_bit 16 w), ucast (drop_bit 24 w)]"

definition be16 :: "u16 \<Rightarrow> bytes" where
  [go_defs]: "be16 w = [ucast (drop_bit 8 w), ucast w]"

definition be32 :: "u32 \<Rightarrow> bytes" where
  [go_defs]: "be32 w = [ucast (drop_bit 24 w), ucast (drop_bit 16 w), ucast (drop_bit 8 w), ucast w]"

fun un_le16 :: "bytes \<Rightarrow> u16" where
  "un_le16 (a # b # _) = ucast a OR push_bit 8 (ucast b)"
| "un_le16 _ = 0"

fun un_le32 :: "bytes \<Rightarrow> u32" where
  "un_le32 (a # b # c # d # _) =
     ucast a OR push_bit 8 (ucast b) OR push_bit 16 (ucast c) OR push_bit 24 (ucast d)"
| "un_le32 _ = 0"

fun un_be16 :: "bytes \<Rightarrow> u16" where
  "un_be16 (a # b # _) = push_bit 8 (ucast a) OR ucast b"
| "un_be16 _ = 0"

fun un_be32 :: "bytes \<Rightarrow> u32" where
  "un_be32 (a # b # c # d # _) =
     push_bit 24 (ucast a) OR push_bit 16 (ucast b) OR push_bit 8 (ucast c) OR ucast d"
| "un_be32 _ = 0"

fun un_be64 :: "bytes \<Rightarrow> u64" where
  "un_be64 (a # b # c # d # e # f # g # h # _) =
     push_bit 56 (ucast a) OR push_bit 48 (ucast b) OR push_bit 40 (ucast c) OR
     push_bit 32 (ucast d) OR push_bit 24 (ucast e) OR push_bit 16 (ucast f) OR
     push_bit 8 (ucast g) OR ucast h"
| "un_be64 _ = 0"

lemma enc_length [simp, wire_simps]:
  "length (le16 w) = 2" "length (le32 v) = 4" "length (be16 w) = 2" "length (be32 v) = 4"
  by (simp_all add: go_defs)

text \<open>Where a slice of at least the width is read, the four bytes have names.\<close>

lemma list_cases_ge4:
  assumes "4 \<le> length b"
  obtains w x y z r where "b = w # x # y # z # r"
  using assms by (auto simp: Suc_le_length_iff numeral_eq_Suc)

lemma list_eq4:
  assumes "length b = 4"
  obtains w x y z where "b = [w, x, y, z]"
  using assms by (auto simp: length_Suc_conv numeral_eq_Suc)

lemma list_eq2:
  assumes "length b = 2"
  obtains w x where "b = [w, x]"
  using assms by (auto simp: length_Suc_conv numeral_eq_Suc)

lemma un_le16_le16 [simp, wire_simps]: "un_le16 (le16 w @ r) = w"
  by (rule bit_word_eqI) (auto simp: go_defs bit_simps)

lemma un_le16_le16' [simp, wire_simps]: "un_le16 (le16 w) = w"
  using un_le16_le16 [of w "[]"] by simp

lemma un_le32_le32 [simp, wire_simps]: "un_le32 (le32 w @ r) = w"
proof (rule bit_word_eqI)
  fix n :: nat
  assume "n < LENGTH(32)"
  then have n: "n < 32" by simp
  show "bit (un_le32 (le32 w @ r)) n = bit w n"
    using n by (cases "n < 8"; cases "n < 16"; cases "n < 24") (auto simp: go_defs bit_simps)
qed

lemma un_le32_le32' [simp, wire_simps]: "un_le32 (le32 w) = w"
  using un_le32_le32 [of w "[]"] by simp

lemma byte_bit_high: "8 \<le> n \<Longrightarrow> \<not> bit (b :: byte) n"
  using bit_imp_le_length [of b n] by auto

lemma le16_un_le16 [simp, wire_simps]: "le16 (un_le16 [a, b]) = [a, b]"
  by (auto simp: go_defs bit_simps byte_bit_high intro!: bit_word_eqI)

lemma le32_un_le32 [simp, wire_simps]: "le32 (un_le32 [a, b, c, d]) = [a, b, c, d]"
  by (auto simp: go_defs bit_simps byte_bit_high intro!: bit_word_eqI)

lemma be16_un_be16 [simp, wire_simps]: "be16 (un_be16 [a, b]) = [a, b]"
  by (auto simp: go_defs bit_simps byte_bit_high intro!: bit_word_eqI)

lemma be32_un_be32 [simp, wire_simps]: "be32 (un_be32 [a, b, c, d]) = [a, b, c, d]"
  by (auto simp: go_defs bit_simps byte_bit_high intro!: bit_word_eqI)

text \<open>The same value read in one byte order and written in the other is the reversed slice.\<close>

lemma rev_le16: "rev (le16 w) = be16 w"
  by (simp add: go_defs)

lemma rev_le32: "rev (le32 w) = be32 w"
  by (simp add: go_defs)

section \<open>Strings and bytes\<close>

definition bytes_of :: "string \<Rightarrow> bytes" where
  [go_defs]: "bytes_of s = map (\<lambda>c. word_of_nat (of_char c)) s"

definition str_of :: "bytes \<Rightarrow> string" where
  [go_defs]: "str_of b = map (\<lambda>x. char_of (unat x)) b"

lemma str_of_bytes_of [simp]: "str_of (bytes_of s) = s"
proof -
  have "unat (word_of_nat (of_char c) :: byte) = of_char c" for c :: char
    by (simp add: unat_of_nat)
  then show ?thesis by (simp add: go_defs comp_def)
qed

lemma bytes_of_str_of [simp]: "bytes_of (str_of b) = b"
proof -
  have "unat x mod 256 = unat x" for x :: byte
    using unsigned_less [of x, where ?'a = nat] by simp
  then have "word_of_nat (of_char (char_of (unat x))) = x" for x :: byte
    by (simp add: of_char_of)
  then show ?thesis by (simp add: go_defs comp_def)
qed

lemma length_bytes_of [simp]: "length (bytes_of s) = length s"
  by (simp add: bytes_of_def)

lemma length_str_of [simp]: "length (str_of b) = length b"
  by (simp add: str_of_def)

lemma bytes_of_append [simp]: "bytes_of (s @ t) = bytes_of s @ bytes_of t"
  by (simp add: bytes_of_def)

lemma bytes_of_inj: "bytes_of s = bytes_of t \<Longrightarrow> s = t"
  by (metis str_of_bytes_of)

subsection \<open>Package strings\<close>

definition is_upper :: "char \<Rightarrow> bool" where
  [go_defs]: "is_upper c \<longleftrightarrow> 65 \<le> (of_char c :: nat) \<and> (of_char c :: nat) \<le> 90"

definition is_lower :: "char \<Rightarrow> bool" where
  [go_defs]: "is_lower c \<longleftrightarrow> 97 \<le> (of_char c :: nat) \<and> (of_char c :: nat) \<le> 122"

definition is_space :: "char \<Rightarrow> bool" where
  [go_defs]: "is_space c \<longleftrightarrow> (of_char c :: nat) = 32 \<or>
     9 \<le> (of_char c :: nat) \<and> (of_char c :: nat) \<le> 13"

definition lower_char :: "char \<Rightarrow> char" where
  [go_defs]: "lower_char c = (if is_upper c then char_of (of_char c + 32 :: nat) else c)"

definition upper_char :: "char \<Rightarrow> char" where
  [go_defs]: "upper_char c = (if is_lower c then char_of (of_char c - 32 :: nat) else c)"

definition ToLower :: "string \<Rightarrow> string" where
  [go_defs]: "ToLower s = map lower_char s"

definition ToUpper :: "string \<Rightarrow> string" where
  [go_defs]: "ToUpper s = map upper_char s"

definition EqualFold :: "string \<Rightarrow> string \<Rightarrow> bool" where
  [go_defs]: "EqualFold s t \<longleftrightarrow> ToLower s = ToLower t"

definition TrimSpace :: "string \<Rightarrow> string" where
  [go_defs]: "TrimSpace s = rev (dropWhile is_space (rev (dropWhile is_space s)))"

definition HasPrefix :: "string \<Rightarrow> string \<Rightarrow> bool" where
  [go_defs]: "HasPrefix s p \<longleftrightarrow> take (length p) s = p"

definition HasSuffix :: "string \<Rightarrow> string \<Rightarrow> bool" where
  [go_defs]: "HasSuffix s p \<longleftrightarrow> length p \<le> length s \<and> drop (length s - length p) s = p"

definition TrimSuffix :: "string \<Rightarrow> string \<Rightarrow> string" where
  [go_defs]: "TrimSuffix s p = (if HasSuffix s p then take (length s - length p) s else s)"

text \<open>\<open>strings.Index\<close>: the first position of the substring, \<open>None\<close> for \<open>-1\<close>.\<close>

fun Index :: "string \<Rightarrow> string \<Rightarrow> nat option" where
  "Index [] p = (if p = [] then Some 0 else None)"
| "Index (c # s) p =
     (if HasPrefix (c # s) p then Some 0 else map_option Suc (Index s p))"

definition Contains :: "string \<Rightarrow> string \<Rightarrow> bool" where
  [go_defs]: "Contains s p \<longleftrightarrow> Index s p \<noteq> None"

text \<open>\<open>strings.Split\<close> on a separator of one character; \<open>strings.Join\<close>.\<close>

fun Split :: "char \<Rightarrow> string \<Rightarrow> string list" where
  "Split d [] = [[]]"
| "Split d (c # s) =
     (if c = d then [] # Split d s
      else (case Split d s of [] \<Rightarrow> [[c]] | p # ps \<Rightarrow> (c # p) # ps))"

fun Join :: "string \<Rightarrow> string list \<Rightarrow> string" where
  "Join d [] = []"
| "Join d [p] = p"
| "Join d (p # q # ps) = p @ d @ Join d (q # ps)"

definition remove_char :: "char \<Rightarrow> string \<Rightarrow> string" where
  [go_defs]: "remove_char d s = filter (\<lambda>c. c \<noteq> d) s"

text \<open>
  The verb \<open>%q\<close>: the string in double quotes.  Quote, backslash and the control characters are
  escaped; bytes above the ASCII range are kept, as they are where they spell printable text.
\<close>

definition hex_digit :: "nat \<Rightarrow> char" where
  [go_defs]: "hex_digit d = char_of (if d < 10 then 48 + d else 87 + d)"

definition quote_char :: "char \<Rightarrow> string" where
  [go_defs]: "quote_char c =
     (let n = of_char c :: nat; bs = char_of (92 :: nat) in
      if n = 34 \<or> n = 92 then [bs, c]
      else if n = 7 then [bs, CHR ''a''] else if n = 8 then [bs, CHR ''b'']
      else if n = 9 then [bs, CHR ''t''] else if n = 10 then [bs, CHR ''n'']
      else if n = 11 then [bs, CHR ''v''] else if n = 12 then [bs, CHR ''f'']
      else if n = 13 then [bs, CHR ''r'']
      else if n < 32 \<or> n = 127 then [bs, CHR ''x'', hex_digit (n div 16), hex_digit (n mod 16)]
      else [c])"

definition quote :: "string \<Rightarrow> string" where
  [go_defs]: "quote s = char_of (34 :: nat) # concat (map quote_char s) @ [char_of (34 :: nat)]"

lemma find_SomeD: "find P l = Some x \<Longrightarrow> x \<in> set l \<and> P x"
  unfolding find_Some_iff by (metis nth_mem)

lemma find_unique:
  assumes "x \<in> set l" "P x" "\<And>y. y \<in> set l \<Longrightarrow> P y \<Longrightarrow> y = x"
  shows "find P l = Some x"
proof (cases "find P l")
  case None
  with assms(1,2) show ?thesis by (simp add: find_None_iff)
next
  case (Some y)
  then have "y \<in> set l" "P y" unfolding find_Some_iff by (metis nth_mem)+
  with assms(3) Some show ?thesis by metis
qed

lemma EqualFold_refl [simp]: "EqualFold s s" by (simp add: EqualFold_def)
lemma EqualFold_trans: "EqualFold a b \<Longrightarrow> EqualFold c b \<longleftrightarrow> EqualFold c a" by (auto simp: EqualFold_def)

lemma find_map_distinct:
  "distinct (map f xs) \<Longrightarrow> x \<in> set xs \<Longrightarrow> find (\<lambda>y. f y = f x) xs = Some x"
  by (induction xs) auto

lemma lower_char_idem [simp]: "lower_char (lower_char c) = lower_char c"
  by (auto simp: lower_char_def is_upper_def)

lemma ToLower_idem [simp]: "ToLower (ToLower s) = ToLower s"
  by (simp add: ToLower_def)

lemma Split_not_Nil [simp]: "Split d s \<noteq> []"
  by (induction s) (auto split: list.splits)

lemma Split_no_sep: "d \<notin> set s \<Longrightarrow> Split d s = [s]"
  by (induction s) auto

lemma Split_append_sep: "d \<notin> set s \<Longrightarrow> Split d (s @ d # t) = s # Split d t"
  by (induction s) (auto split: list.splits)

lemma Split_Join:
  "ps \<noteq> [] \<Longrightarrow> \<forall>p \<in> set ps. d \<notin> set p \<Longrightarrow> Split d (Join [d] ps) = ps"
  by (induction "[d]" ps rule: Join.induct) (auto simp: Split_no_sep Split_append_sep)

lemma Join_Cons_head: "Join d ((c # p) # ps) = c # Join d (p # ps)"
  by (cases ps) simp_all

lemma Join_Split: "Join [d] (Split d s) = s"
proof (induction s)
  case (Cons c s)
  then show ?case by (cases "Split d s") (auto simp: Join_Cons_head)
qed simp

lemma TrimSpace_id:
  "s = [] \<or> \<not> is_space (hd s) \<and> \<not> is_space (last s) \<Longrightarrow> TrimSpace s = s"
proof -
  assume h: "s = [] \<or> \<not> is_space (hd s) \<and> \<not> is_space (last s)"
  then have "dropWhile is_space s = s" by (auto simp: dropWhile_eq_self_iff)
  moreover from h have "dropWhile is_space (rev s) = rev s"
    by (auto simp: dropWhile_eq_self_iff hd_rev)
  ultimately show "TrimSpace s = s" by (simp add: TrimSpace_def)
qed

lemma HasPrefix_append [simp]: "HasPrefix (p @ s) p"
  by (simp add: HasPrefix_def)

lemma HasPrefix_iff: "HasPrefix s p \<longleftrightarrow> (\<exists>t. s = p @ t)"
  by (metis HasPrefix_append HasPrefix_def append_take_drop_id)

lemma HasSuffix_iff: "HasSuffix s p \<longleftrightarrow> (\<exists>t. s = t @ p)"
proof
  assume "HasSuffix s p"
  then have "s = take (length s - length p) s @ p"
    by (metis HasSuffix_def append_take_drop_id)
  then show "\<exists>t. s = t @ p" ..
qed (auto simp: HasSuffix_def)

lemma TrimSuffix_append [simp]: "TrimSuffix (s @ p) p = s"
  by (simp add: TrimSuffix_def HasSuffix_def)

lemma Index_Some:
  "Index s p = Some i \<Longrightarrow> i + length p \<le> length s \<and> slice i (i + length p) s = p"
proof (induction s arbitrary: i)
  case (Cons c s)
  show ?case
  proof (cases "HasPrefix (c # s) p")
    case True
    with Cons.prems have i: "i = 0" and "length p \<le> length (c # s)"
      by (auto simp: HasPrefix_def dest: arg_cong [where f = length])
    with True show ?thesis by (simp add: slice_def HasPrefix_def)
  next
    case False
    with Cons.prems obtain j where "Index s p = Some j" "i = Suc j" by auto
    with Cons.IH show ?thesis by (simp add: slice_def)
  qed
qed (auto split: if_splits simp: slice_def)

lemma Contains_iff: "Contains s p \<longleftrightarrow> (\<exists>a b. s = a @ p @ b)"
proof
  assume "Contains s p"
  then obtain i where "Index s p = Some i" by (auto simp: Contains_def)
  then have "p = take (length p) (drop i s)"
    using Index_Some by (force simp: slice_def)
  then have "s = take i s @ p @ drop (length p) (drop i s)"
    by (metis append_take_drop_id)
  then show "\<exists>a b. s = a @ p @ b" by blast
next
  assume "\<exists>a b. s = a @ p @ b"
  then obtain a b where "s = a @ p @ b" by blast
  moreover have "Contains (a @ p @ b) p"
  proof (induction a)
    case Nil
    have "HasPrefix (p @ b) p" by simp
    then show ?case by (cases "p @ b") (auto simp: Contains_def simp del: HasPrefix_append)
  qed (auto simp: Contains_def)
  ultimately show "Contains s p" by simp
qed

subsection \<open>Package strconv\<close>

definition digit_char :: "nat \<Rightarrow> char" where
  [go_defs]: "digit_char d = char_of (if d < 10 then 48 + d else 87 + d)"

definition digit_val :: "char \<Rightarrow> nat option" where
  "digit_val c =
     (let n = of_char c :: nat in
      if 48 \<le> n \<and> n \<le> 57 then Some (n - 48)
      else if 97 \<le> n \<and> n \<le> 122 then Some (n - 87)
      else if 65 \<le> n \<and> n \<le> 90 then Some (n - 55)
      else None)"

fun fmt_nat :: "nat \<Rightarrow> nat \<Rightarrow> string" where
  "fmt_nat b n =
     (if b < 2 \<or> n < b then [digit_char n] else fmt_nat b (n div b) @ [digit_char (n mod b)])"

declare fmt_nat.simps [simp del]

definition FormatInt :: "int \<Rightarrow> string" where
  [go_defs]: "FormatInt i = (if i < 0 then CHR ''-'' # fmt_nat 10 (nat (- i)) else fmt_nat 10 (nat i))"

text \<open>The accumulator loop of \<open>strconv.ParseUint\<close>; a digit outside the base is a syntax error.\<close>

fun parse_digits :: "nat \<Rightarrow> nat \<Rightarrow> string \<Rightarrow> nat option" where
  "parse_digits b acc [] = Some acc"
| "parse_digits b acc (c # s) =
     (case digit_val c of
        None \<Rightarrow> None
      | Some d \<Rightarrow> if d < b then parse_digits b (acc * b + d) s else None)"

text \<open>The same loop with the range check of the bit size, which ends it at the first overflow.\<close>

fun scan_digits :: "nat \<Rightarrow> nat \<Rightarrow> nat \<Rightarrow> string \<Rightarrow> string + nat" where
  "scan_digits b bits acc [] = Inr acc"
| "scan_digits b bits acc (c # s) =
     (case digit_val c of
        None \<Rightarrow> Inl ''invalid syntax''
      | Some d \<Rightarrow>
          if d < b
          then (if acc * b + d < 2 ^ bits then scan_digits b bits (acc * b + d) s
                else Inl ''value out of range'')
          else Inl ''invalid syntax'')"

definition parse_uint :: "string \<Rightarrow> nat \<Rightarrow> nat \<Rightarrow> string + nat" where
  "parse_uint s b bits = (if s = [] then Inl ''invalid syntax'' else scan_digits b bits 0 s)"

definition num_error :: "string \<Rightarrow> string \<Rightarrow> string \<Rightarrow> go_error" where
  "num_error f s msg = ErrWrap (''strconv.'' @ f @ '': parsing '' @ quote s) (ErrMsg msg)"

definition ParseUint :: "string \<Rightarrow> nat \<Rightarrow> nat \<Rightarrow> nat res" where
  "ParseUint s b bits =
     (case parse_uint s b bits of
        Inl msg \<Rightarrow> Inl (num_error ''ParseUint'' s msg)
      | Inr n \<Rightarrow> Inr n)"

definition ParseInt :: "string \<Rightarrow> nat \<Rightarrow> nat \<Rightarrow> int res" where
  "ParseInt s b bits =
     (let neg = (s \<noteq> [] \<and> hd s = CHR ''-'');
          body = (if s \<noteq> [] \<and> (hd s = CHR ''-'' \<or> hd s = CHR ''+'') then tl s else s)
      in case parse_uint body b bits of
           Inl msg \<Rightarrow> Inl (num_error ''ParseInt'' s msg)
         | Inr n \<Rightarrow>
             if neg \<and> n \<le> 2 ^ (bits - 1) then Inr (- int n)
             else if \<not> neg \<and> n < 2 ^ (bits - 1) then Inr (int n)
             else Inl (num_error ''ParseInt'' s ''value out of range''))"

lemma digit_val_digit_char [simp]: "d < 36 \<Longrightarrow> digit_val (digit_char d) = Some d"
  by (simp add: digit_val_def digit_char_def)

lemma parse_digits_append:
  "parse_digits b acc (s @ t) =
     (case parse_digits b acc s of None \<Rightarrow> None | Some a \<Rightarrow> parse_digits b a t)"
  by (induction s arbitrary: acc) (auto split: option.splits)

lemma parse_digits_mono: "1 \<le> b \<Longrightarrow> parse_digits b acc s = Some n \<Longrightarrow> acc \<le> n"
proof (induction s arbitrary: acc)
  case (Cons c s)
  then obtain d where "parse_digits b (acc * b + d) s = Some n"
    by (auto split: option.splits if_splits)
  with Cons have "acc * b + d \<le> n" by blast
  moreover have "acc * 1 \<le> acc * b" using Cons.prems(1) by (rule mult_le_mono2)
  ultimately show ?case by linarith
qed simp

lemma scan_digits_Some:
  "1 \<le> b \<Longrightarrow> parse_digits b acc s = Some n \<Longrightarrow> n < 2 ^ bits \<Longrightarrow> scan_digits b bits acc s = Inr n"
proof (induction s arbitrary: acc)
  case (Cons c s)
  then obtain d where d: "digit_val c = Some d" "d < b" "parse_digits b (acc * b + d) s = Some n"
    by (auto split: option.splits if_splits)
  then have "acc * b + d \<le> n" using parse_digits_mono Cons.prems(1) by blast
  with d Cons show ?case by simp
qed simp

lemma scan_digits_less: "acc < 2 ^ bits \<Longrightarrow> scan_digits b bits acc s = Inr n \<Longrightarrow> n < 2 ^ bits"
  by (induction s arbitrary: acc) (auto split: option.splits if_splits)

lemma parse_uint_digits:
  "1 \<le> b \<Longrightarrow> s \<noteq> [] \<Longrightarrow> parse_digits b 0 s = Some n \<Longrightarrow> n < 2 ^ bits \<Longrightarrow> parse_uint s b bits = Inr n"
  by (simp add: parse_uint_def scan_digits_Some)

lemma ParseUint_digits:
  "1 \<le> b \<Longrightarrow> s \<noteq> [] \<Longrightarrow> parse_digits b 0 s = Some n \<Longrightarrow> n < 2 ^ bits \<Longrightarrow> ParseUint s b bits = Inr n"
  by (simp add: ParseUint_def parse_uint_digits)

lemma fmt_nat_not_Nil [simp]: "fmt_nat b n \<noteq> []"
  by (subst fmt_nat.simps) simp

lemma parse_digits_fmt_nat:
  assumes "2 \<le> b" "b \<le> 36"
  shows "parse_digits b 0 (fmt_nat b n) = Some n"
  using assms
proof (induction b n rule: fmt_nat.induct)
  case (1 b n)
  show ?case
  proof (cases "n < b")
    case True
    with 1 show ?thesis by (simp add: fmt_nat.simps [of b n])
  next
    case False
    with 1 have "parse_digits b 0 (fmt_nat b (n div b)) = Some (n div b)" by simp
    moreover from 1 have "n mod b < b" "n mod b < 36" by (simp_all add: less_le_trans [of _ b])
    ultimately show ?thesis
      using False 1 by (simp add: fmt_nat.simps [of b n] parse_digits_append)
  qed
qed

lemma set_fmt_nat:
  "2 \<le> b \<Longrightarrow> b \<le> 36 \<Longrightarrow> c \<in> set (fmt_nat b n) \<Longrightarrow> \<exists>d < b. c = digit_char d"
proof (induction b n rule: fmt_nat.induct)
  case (1 b n)
  show ?case
  proof (cases "n < b")
    case True
    with 1 show ?thesis by (auto simp: fmt_nat.simps [of b n])
  next
    case False
    from 1 have "\<exists>d < b. digit_char (n mod b) = digit_char d"
      by (intro exI [of _ "n mod b"]) simp
    with False 1 show ?thesis by (auto simp: fmt_nat.simps [of b n])
  qed
qed

lemma digit_char_eq_iff:
  "d < 36 \<Longrightarrow> digit_char d = c \<longleftrightarrow>
     (of_char c :: nat) = (if d < 10 then 48 + d else 87 + d)"
  by (auto simp: digit_char_def char_of_eq_iff take_bit_eq_mod)

lemma fmt_nat_no_sign:
  assumes "2 \<le> b" "b \<le> 36"
  shows "CHR ''-'' \<notin> set (fmt_nat b n)" "CHR ''+'' \<notin> set (fmt_nat b n)"
proof -
  have "digit_char d \<noteq> CHR ''-''" "digit_char d \<noteq> CHR ''+''" if "d < b" for d
    using that assms by (simp_all add: digit_char_eq_iff)
  with assms show "CHR ''-'' \<notin> set (fmt_nat b n)" "CHR ''+'' \<notin> set (fmt_nat b n)"
    by (metis set_fmt_nat)+
qed

lemma ParseUint_fmt_nat:
  assumes "2 \<le> b" "b \<le> 36" "n < 2 ^ bits"
  shows "ParseUint (fmt_nat b n) b bits = Inr n"
  using assms by (simp add: ParseUint_def parse_uint_digits parse_digits_fmt_nat)

lemma ParseUint_less: "ParseUint s b bits = Inr n \<Longrightarrow> n < 2 ^ bits"
  using scan_digits_less [of 0 bits b s n]
  by (auto simp: ParseUint_def parse_uint_def split: if_splits sum.splits)

lemma ParseInt_FormatInt:
  assumes "- (2 ^ 63) \<le> i" "i < 2 ^ 63"
  shows "ParseInt (FormatInt i) 10 64 = Inr i"
proof (cases "i < 0")
  case True
  with assms have "nat (- i) \<le> 2 ^ 63" "nat (- i) < 2 ^ 64" by auto
  with True show ?thesis by (simp add: ParseInt_def FormatInt_def parse_uint_digits parse_digits_fmt_nat)
next
  case False
  have "hd (fmt_nat 10 (nat i)) \<noteq> CHR ''-''" "hd (fmt_nat 10 (nat i)) \<noteq> CHR ''+''"
    using fmt_nat_no_sign [of 10 "nat i"] hd_in_set [OF fmt_nat_not_Nil, of 10 "nat i"]
    by (force, force)
  moreover from False assms have "nat i < 2 ^ 63" "nat i < 2 ^ 64" by auto
  ultimately show ?thesis
    using False by (simp add: ParseInt_def FormatInt_def parse_uint_digits parse_digits_fmt_nat)
qed

text \<open>\<open>%0<k>x\<close>: hexadecimal, padded with zeros to the width.\<close>

definition pad_hex :: "nat \<Rightarrow> nat \<Rightarrow> string" where
  "pad_hex k n = (let s = fmt_nat 16 n in replicate (k - length s) CHR ''0'' @ s)"

fun fix_hex :: "nat \<Rightarrow> nat \<Rightarrow> string" where
  "fix_hex 0 n = []"
| "fix_hex (Suc k) n = fix_hex k (n div 16) @ [digit_char (n mod 16)]"

lemma length_fix_hex [simp]: "length (fix_hex k n) = k"
  by (induction k arbitrary: n) auto

lemma fix_hex_0: "fix_hex k 0 = replicate k CHR ''0''"
proof -
  have "digit_char 0 = CHR ''0''" by (simp add: digit_char_eq_iff)
  then show ?thesis by (induction k) (auto simp: replicate_append_same)
qed

lemma fix_hex_2: "fix_hex 2 n = [digit_char (n div 16 mod 16), digit_char (n mod 16)]"
  by (simp add: numeral_2_eq_2)

lemma pad_hex_fix_hex: "n < 16 ^ k \<Longrightarrow> 0 < k \<Longrightarrow> pad_hex k n = fix_hex k n"
proof (induction k arbitrary: n)
  case (Suc k)
  show ?case
  proof (cases "n < 16")
    case True
    then show ?thesis
      by (simp add: pad_hex_def fmt_nat.simps [of 16 n] fix_hex_0)
  next
    case False
    with Suc.prems have "0 < k" "n div 16 < 16 ^ k" by (cases k; simp)+
    then have "pad_hex k (n div 16) = fix_hex k (n div 16)" by (rule Suc.IH [rotated])
    with False show ?thesis
      by (simp add: pad_hex_def fmt_nat.simps [of 16 n] Let_def)
  qed
qed simp

lemma fix_hex_append:
  "fix_hex (j + k) n = fix_hex j (n div 16 ^ k) @ fix_hex k (n mod 16 ^ k)"
proof (induction k arbitrary: n)
  case (Suc k)
  have "n div 16 mod 16 ^ k = n mod 16 ^ Suc k div 16"
    by (simp add: mod_mult2_eq)
  moreover have "n mod 16 ^ Suc k mod 16 = n mod 16"
    by (simp add: mod_mult2_eq)
  ultimately show ?case
    using Suc.IH [of "n div 16"] by (simp add: div_mult2_eq)
qed simp

text \<open>A byte in two hexadecimal digits, and back.\<close>

definition hex_byte :: "byte \<Rightarrow> string" where
  "hex_byte b = fix_hex 2 (unat b)"

lemma byte_less: "unat (b :: byte) < 256"
  using unsigned_less [of b, where ?'a = nat] by simp

lemma ParseUint_hex_byte: "ParseUint (hex_byte b) 16 8 = Inr (unat b)"
proof -
  have "unat b div 16 < 16" using byte_less [of b] by simp
  then show ?thesis
    using byte_less [of b]
    by (simp add: ParseUint_def parse_uint_digits hex_byte_def fix_hex_2 div_mult_mod_eq)
qed

section \<open>Package time\<close>

text \<open>\<open>Duration.String\<close> of a number of nanoseconds.\<close>

fun fix_dec :: "nat \<Rightarrow> nat \<Rightarrow> string" where
  "fix_dec 0 n = []"
| "fix_dec (Suc k) n = fix_dec k (n div 10) @ [digit_char (n mod 10)]"

definition fmtFrac :: "nat \<Rightarrow> nat \<Rightarrow> string" where
  "fmtFrac v prec =
     (let ds = rev (dropWhile (\<lambda>c. c = CHR ''0'') (rev (fix_dec prec (v mod 10 ^ prec)))) in
      if ds = [] then [] else CHR ''.'' # ds)"

definition Duration_String :: "int \<Rightarrow> string" where
  "Duration_String d =
     (let u = nat (abs d); sign = (if d < 0 then ''-'' else []) in
      if u = 0 then ''0s''
      else if u < 1000 then sign @ fmt_nat 10 u @ ''ns''
      else if u < 1000000 then sign @ fmt_nat 10 (u div 1000) @ fmtFrac u 3 @ [CHR 0xC2, CHR 0xB5, CHR ''s'']
      else if u < 1000000000 then sign @ fmt_nat 10 (u div 1000000) @ fmtFrac u 6 @ ''ms''
      else
        let s = u div 1000000000; m = s div 60; h = m div 60 in
        sign @ (if 0 < h then fmt_nat 10 h @ ''h'' else []) @ (if 0 < m then fmt_nat 10 (m mod 60) @ ''m'' else []) @
        fmt_nat 10 (s mod 60) @ fmtFrac u 9 @ ''s'')"

end
