(* ===== verification/Conn.thy ===== *)
theory Conn
  imports GoBase "HOL-Library.Multiset"
begin

text \<open>
  Package \<open>internal/conn\<close>, file \<open>conn.go\<close>: the types of the seam over the LDAP library.

  A connection is a record of its six operations on the state \<open>'w\<close> of the world behind it; the
  request's context is left to that state.  A result entry's \<open>map[string][][]byte\<close> is an
  association list with distinct keys, in the order in which \<open>range\<close> happens to visit it: what is
  proved for every such list is proved for every iteration order.
\<close>

datatype scope = ScopeBase | ScopeOneLevel | ScopeSubtree
datatype mod_op = ModAdd | ModDelete | ModReplace

record attribute =
  aType :: string
  aVals :: "bytes list"

record modification =
  mOp :: mod_op
  mType :: string
  mVals :: "bytes list"

record entry =
  DN :: string
  Attrs :: "(string \<times> bytes list) list"

record control =
  OID :: string
  Critical :: bool
  Value :: bytes

record search_request =
  BaseDN :: string
  Scope :: scope
  Filter :: string
  Attributes :: "string list"
  SizeLimit :: int
  Controls :: "control list"

record search_result =
  Entries :: "entry list"
  RespControls :: "control list"

text \<open>
  The interface \<open>Conn\<close>.  An operation that returns only an error returns \<open>go_error option\<close>.
  \<open>cLdap\<close> is the dynamic type as a type assertion sees it: the pointer to the library's connection of a
  \<open>*goldapConn\<close>, and \<open>None\<close> for every other implementation.
\<close>

record 'w conn =
  cSearch :: "search_request \<Rightarrow> 'w \<Rightarrow> search_result res \<times> 'w"
  cAdd :: "string \<Rightarrow> attribute list \<Rightarrow> 'w \<Rightarrow> go_error option \<times> 'w"
  cModify :: "string \<Rightarrow> modification list \<Rightarrow> control list \<Rightarrow> 'w \<Rightarrow> go_error option \<times> 'w"
  cModifyDN :: "string \<Rightarrow> string \<Rightarrow> bool \<Rightarrow> string \<Rightarrow> 'w \<Rightarrow> go_error option \<times> 'w"
  cDelete :: "string \<Rightarrow> 'w \<Rightarrow> go_error option \<times> 'w"
  cClose :: "'w \<Rightarrow> go_error option \<times> 'w"
  cLdap :: "nat option"

definition First :: "entry \<Rightarrow> string \<Rightarrow> bytes" where
  "First e attr =
     (case map_of (Attrs e) attr of
        Some (v # _) \<Rightarrow> v
      | _ \<Rightarrow> (case find (\<lambda>kv. 0 < length (snd kv) \<and> EqualFold (fst kv) attr) (Attrs e) of
                None \<Rightarrow> []
              | Some kv \<Rightarrow> hd (snd kv)))"

definition FirstString :: "entry \<Rightarrow> string \<Rightarrow> string" where
  "FirstString e attr = str_of (First e attr)"

definition SDFlagsControl :: "nat \<Rightarrow> control" where
  "SDFlagsControl flags =
     \<lparr>OID = ''1.2.840.113556.1.4.801'', Critical = True,
      Value = [0x30, 0x03, 0x02, 0x01, word_of_nat flags]\<rparr>"

abbreviation SDFlagDACL :: nat where "SDFlagDACL \<equiv> 0x04"

text \<open>A Go map as an association list: assignment to a key, \<open>delete\<close>, and reading a slice value.\<close>

type_synonym attr_map = "(string \<times> bytes list) list"

definition map_put :: "'k \<Rightarrow> 'v \<Rightarrow> ('k \<times> 'v) list \<Rightarrow> ('k \<times> 'v) list" where
  "map_put k v m = filter (\<lambda>kv. fst kv \<noteq> k) m @ [(k, v)]"

definition map_delete :: "'k \<Rightarrow> ('k \<times> 'v) list \<Rightarrow> ('k \<times> 'v) list" where
  "map_delete k m = filter (\<lambda>kv. fst kv \<noteq> k) m"

definition map_get :: "('k \<times> 'v list) list \<Rightarrow> 'k \<Rightarrow> 'v list" where
  "map_get m k = (case map_of m k of Some v \<Rightarrow> v | None \<Rightarrow> [])"

lemma map_of_map_put [simp]: "map_of (map_put k v m) k' = (if k' = k then Some v else map_of m k')"
proof -
  have "map_of (filter (\<lambda>kv. fst kv \<noteq> k) m) = (\<lambda>x. if x = k then None else map_of m x)"
    by (induction m) auto
  then show ?thesis by (simp add: map_put_def map_add_def split: option.split)
qed

lemma map_of_map_delete [simp]: "map_of (map_delete k m) k' = (if k' = k then None else map_of m k')"
  by (induction m) (auto simp: map_delete_def)

lemma distinct_map_put [simp]: "distinct (map fst m) \<Longrightarrow> distinct (map fst (map_put k v m))"
  by (auto simp: map_put_def distinct_map filter_empty_conv intro: inj_on_subset)

lemma distinct_map_delete [simp]: "distinct (map fst m) \<Longrightarrow> distinct (map fst (map_delete k m))"
  by (auto simp: map_delete_def distinct_map intro: inj_on_subset)

section \<open>Reading an entry\<close>

lemma First_single: "EqualFold k attr \<Longrightarrow> First \<lparr>DN = d, Attrs = [(k, v # vs)]\<rparr> attr = v"
  by (simp add: First_def)

text \<open>Two spellings of one attribute: an entry that has both is not one a server sends.\<close>

definition fold_distinct :: "entry \<Rightarrow> bool" where
  "fold_distinct e \<longleftrightarrow> distinct (map (\<lambda>kv. ToLower (fst kv)) (Attrs e))"

lemma find_fold_distinct:
  assumes "distinct (map (\<lambda>kv. ToLower (fst kv)) l)" "(k, v # vs) \<in> set l" "EqualFold k attr"
  shows "find (\<lambda>kv. 0 < length (snd kv) \<and> EqualFold (fst kv) attr) l = Some (k, v # vs)"
  using assms
proof (induction l)
  case (Cons kv l)
  show ?case
  proof (cases "kv = (k, v # vs)")
    case True
    with Cons show ?thesis by simp
  next
    case False
    with Cons.prems have "(k, v # vs) \<in> set l" "ToLower (fst kv) \<noteq> ToLower k" by force+
    with Cons show ?thesis by (simp add: EqualFold_def)
  qed
qed simp

lemma map_of_fold_distinct:
  assumes "distinct (map (\<lambda>kv. ToLower (fst kv)) l)" "(k, w) \<in> set l" "EqualFold k attr"
  shows "map_of l attr = (if attr = k then Some w else None)"
proof -
  have inj: "k' = k \<and> w' = w" if "(k', w') \<in> set l" "ToLower k' = ToLower attr" for k' w'
    using assms that eq_key_imp_eq_value
    by (metis (no_types, lifting) EqualFold_def distinct_map fst_conv inj_on_def prod.inject)
  show ?thesis
  proof (cases "attr = k")
    case True
    from assms(1) have "distinct (map fst l)"
      by (metis (no_types, lifting) distinct_map inj_on_def comp_def map_map)
    with True assms(2) show ?thesis by simp
  next
    case False
    with inj have "attr \<notin> fst ` set l" by force
    with False show ?thesis by (simp add: map_of_eq_None_iff)
  qed
qed

text \<open>
  \<open>First\<close> does not depend on the spelling of the attribute asked for nor on the iteration order of
  the map: where an entry holds an attribute once, up to case, its first value is what every
  spelling of the name reads.
\<close>

theorem First_spelling:
  assumes "distinct (map (\<lambda>kv. ToLower (fst kv)) (Attrs e))" "(k, v # vs) \<in> set (Attrs e)"
    "EqualFold k attr"
  shows "First e attr = v \<and> (\<forall>kvs. mset kvs = mset (Attrs e) \<longrightarrow> First (e\<lparr>Attrs := kvs\<rparr>) attr = v)"
proof -
  have v: "First e' attr = v" if "mset (Attrs e') = mset (Attrs e)" for e'
  proof -
    from that have d: "distinct (map (\<lambda>kv. ToLower (fst kv)) (Attrs e'))"
      by (metis assms(1) mset_eq_imp_distinct_iff mset_map)
    from that have m: "(k, v # vs) \<in> set (Attrs e')" by (metis assms(2) mset_eq_setD)
    show ?thesis
      using map_of_fold_distinct [OF d m assms(3)] find_fold_distinct [OF d m assms(3)]
      by (auto simp: First_def)
  qed
  then show ?thesis by simp
qed

theorem First_spelling_witness:
  "First \<lparr>DN = ''cn=a'', Attrs = [(''objectGUID'', [[1, 2]]), (''cn'', [[97]])]\<rparr> ''ObjectGuid'' = [1, 2]"
proof -
  let ?e = "\<lparr>DN = ''cn=a'', Attrs = [(''objectGUID'', [[1, 2]]), (''cn'', [[97]])]\<rparr>"
  have "ToLower ''objectGUID'' = ''objectguid''" "ToLower ''ObjectGuid'' = ''objectguid''"
    "ToLower ''cn'' = ''cn''"
    by (simp_all add: ToLower_def lower_char_def is_upper_def char_of_eq_iff take_bit_eq_mod)
  then show ?thesis
    using First_spelling [of ?e "''objectGUID''" "[1, 2]" "[]" "''ObjectGuid''"]
    by (simp add: EqualFold_def)
qed

end
