(* ===== verification/Pool.thy ===== *)
theory Pool
  imports Conn
begin

text \<open>
  Package \<open>internal/conn\<close>, file \<open>pool.go\<close>: the pool of bound connections.

  The first half gives each method as a function of the pool and the world: what it does when no
  other goroutine runs in between.  The second half is the pool under concurrency: an inductive step
  relation in which every goroutine is at one of the points between the code's synchronization
  operations (the semaphore, the mutex, the calls to \<open>Dial\<close>, \<open>Bind\<close> and \<open>Close\<close>), any number of
  them interleaving, with the invariant that carries the properties.
\<close>

section \<open>The methods\<close>

text \<open>
  \<open>PoolOptions\<close>, with the \<open>Close\<close> of a connection and the context: \<open>oCtx\<close> is \<open>ctx.Err()\<close>, and
  \<open>oPick\<close> is the choice \<open>select\<close> makes when both of its cases are ready.
\<close>

record ('c, 'w) pool_options =
  oDial :: "'w \<Rightarrow> 'c res \<times> 'w"
  oBind :: "'c \<Rightarrow> 'w \<Rightarrow> go_error option \<times> 'w"
  oClose :: "'c \<Rightarrow> 'w \<Rightarrow> go_error option \<times> 'w"
  oCtx :: "'w \<Rightarrow> go_error option"
  oPick :: "'w \<Rightarrow> bool"

record 'c pool =
  Size :: nat
  sem :: nat
  idle :: "'c list"
  closed :: bool

record 'c lease =
  leaseConn :: 'c
  once :: bool

definition NewPool :: "int \<Rightarrow> 'c pool" where
  "NewPool n = \<lparr>Size = (if n \<le> 0 then 4 else nat n), sem = 0, idle = [], closed = False\<rparr>"

text \<open>\<open>Acquire\<close> once the semaphore is taken.\<close>

definition acquire_slot ::
  "('c, 'w) pool_options \<Rightarrow> 'c pool \<Rightarrow> 'w \<Rightarrow> 'c lease res \<times> 'c pool \<times> 'w" where
  "acquire_slot opts p w =
     (if closed p then (Inl ErrPoolClosed, p\<lparr>sem := sem p - 1\<rparr>, w)
      else if idle p \<noteq> []
      then (Inr \<lparr>leaseConn = last (idle p), once = False\<rparr>, p\<lparr>idle := butlast (idle p)\<rparr>, w)
      else case oDial opts w of
          (Inl err, w) \<Rightarrow> (Inl err, p\<lparr>sem := sem p - 1\<rparr>, w)
        | (Inr c, w) \<Rightarrow>
            (case oBind opts c w of
               (Some err, w) \<Rightarrow> (Inl err, p\<lparr>sem := sem p - 1\<rparr>, snd (oClose opts c w))
             | (None, w) \<Rightarrow> (Inr \<lparr>leaseConn = c, once = False\<rparr>, p, w)))"

text \<open>\<open>None\<close>: the select waits, for a slot that only another goroutine can free.\<close>

definition Acquire ::
  "('c, 'w) pool_options \<Rightarrow> 'c pool \<Rightarrow> 'w \<Rightarrow> ('c lease res \<times> 'c pool \<times> 'w) option" where
  "Acquire opts p w =
     (if sem p < Size p \<and> (oCtx opts w = None \<or> oPick opts w)
      then Some (acquire_slot opts (p\<lparr>sem := sem p + 1\<rparr>) w)
      else map_option (\<lambda>err. (Inl err, p, w)) (oCtx opts w))"

definition Release ::
  "('c, 'w) pool_options \<Rightarrow> 'c lease \<Rightarrow> 'c pool \<Rightarrow> 'w \<Rightarrow> 'c lease \<times> 'c pool \<times> 'w" where
  "Release opts l p w =
     (if once l then (l, p, w)
      else if closed p
      then (l\<lparr>once := True\<rparr>, p\<lparr>sem := sem p - 1\<rparr>, snd (oClose opts (leaseConn l) w))
      else (l\<lparr>once := True\<rparr>, p\<lparr>idle := idle p @ [leaseConn l], sem := sem p - 1\<rparr>, w))"

definition Discard ::
  "('c, 'w) pool_options \<Rightarrow> 'c lease \<Rightarrow> 'c pool \<Rightarrow> 'w \<Rightarrow> 'c lease \<times> 'c pool \<times> 'w" where
  "Discard opts l p w =
     (if once l then (l, p, w)
      else (l\<lparr>once := True\<rparr>, p\<lparr>sem := sem p - 1\<rparr>, snd (oClose opts (leaseConn l) w)))"

text \<open>The loop of \<open>Close\<close>: every connection is closed, the first error is kept.\<close>

fun close_all ::
  "('c, 'w) pool_options \<Rightarrow> 'c list \<Rightarrow> go_error option \<Rightarrow> 'w \<Rightarrow> go_error option \<times> 'w" where
  "close_all opts [] firstErr w = (firstErr, w)"
| "close_all opts (c # cs) firstErr w =
     (let (err, w) = oClose opts c w
      in close_all opts cs (if err \<noteq> None \<and> firstErr = None then err else firstErr) w)"

definition Close_pool ::
  "('c, 'w) pool_options \<Rightarrow> 'c pool \<Rightarrow> 'w \<Rightarrow> go_error option \<times> 'c pool \<times> 'w" where
  "Close_pool opts p w =
     (let (err, w) = close_all opts (idle p) None w
      in (err, p\<lparr>closed := True, idle := []\<rparr>, w))"

subsection \<open>The contract of a lease\<close>

text \<open>
  What a caller that takes leases relies on: a lease costs one slot, an error costs none, giving the
  lease back by either method frees the slot once, and a free slot never makes the caller wait.
\<close>

locale lease_pool =
  fixes acquire :: "'p \<Rightarrow> 'w \<Rightarrow> ('l res \<times> 'p \<times> 'w) option"
    and release :: "'l \<Rightarrow> 'p \<Rightarrow> 'w \<Rightarrow> 'l \<times> 'p \<times> 'w"
    and discard :: "'l \<Rightarrow> 'p \<Rightarrow> 'w \<Rightarrow> 'l \<times> 'p \<times> 'w"
    and used :: "'p \<Rightarrow> nat"
    and cap :: "'p \<Rightarrow> nat"
    and unspent :: "'l \<Rightarrow> bool"
  assumes acquire_ok: "acquire p w = Some (Inr l, p', w') \<Longrightarrow>
      used p' = Suc (used p) \<and> cap p' = cap p \<and> used p' \<le> cap p' \<and> unspent l"
    and acquire_err: "acquire p w = Some (Inl e, p', w') \<Longrightarrow> used p' = used p \<and> cap p' = cap p"
    and acquire_free: "used p < cap p \<Longrightarrow> acquire p w \<noteq> None"
    and release_ok: "unspent l \<Longrightarrow> release l p w = (l', p', w') \<Longrightarrow>
      used p' = used p - 1 \<and> cap p' = cap p \<and> \<not> unspent l'"
    and release_again: "\<not> unspent l \<Longrightarrow> release l p w = (l, p, w)"
    and discard_ok: "unspent l \<Longrightarrow> discard l p w = (l', p', w') \<Longrightarrow>
      used p' = used p - 1 \<and> cap p' = cap p \<and> \<not> unspent l'"
    and discard_again: "\<not> unspent l \<Longrightarrow> discard l p w = (l, p, w)"
begin

text \<open>A lease taken and given back, by either method, leaves the slots as they were.\<close>

lemma give_back:
  assumes "acquire p w = Some (Inr l, p1, w1)"
    and "(if dead then discard else release) l p1' w2 = (l', p2, w3)"
    and "used p1' = used p1" "cap p1' = cap p1"
  shows "used p2 = used p \<and> cap p2 = cap p \<and> \<not> unspent l'"
  using acquire_ok [OF assms(1)] release_ok [of l p1' w2 l' p2 w3]
    discard_ok [of l p1' w2 l' p2 w3] assms(2-4) by (auto split: if_splits)

text \<open>Exactly one of the two counts: any later call on the spent lease does nothing.\<close>

lemma spent:
  assumes "unspent l" "(if dead then discard else release) l p w = (l', p', w')"
  shows "release l' p'' w'' = (l', p'', w'')" "discard l' p'' w'' = (l', p'', w'')"
proof -
  have "\<not> unspent l'"
    using assms release_ok [OF assms(1)] discard_ok [OF assms(1)] by (cases dead) fastforce+
  then show "release l' p'' w'' = (l', p'', w'')" "discard l' p'' w'' = (l', p'', w'')"
    by (simp_all add: release_again discard_again)
qed

end

lemma acquire_slot_sem:
  assumes "acquire_slot opts p w = (r, p', w')"
  shows "Size p' = Size p"
    "(\<exists>l. r = Inr l \<and> \<not> once l \<and> sem p' = sem p) \<or> (\<exists>e. r = Inl e \<and> sem p' = sem p - 1)"
  using assms
  by (auto simp: acquire_slot_def split: if_split_asm prod.split_asm sum.split_asm option.split_asm)

interpretation leases: lease_pool "Acquire opts" "Release opts" "Discard opts" sem Size "\<lambda>l. \<not> once l"
  for opts :: "('c, 'w) pool_options"
proof unfold_locales
  fix p p' :: "'c pool" and w w' and l :: "'c lease"
  assume "Acquire opts p w = Some (Inr l, p', w')"
  then show "sem p' = Suc (sem p) \<and> Size p' = Size p \<and> sem p' \<le> Size p' \<and> \<not> once l"
    using acquire_slot_sem [of opts "p\<lparr>sem := sem p + 1\<rparr>" w "Inr l" p' w']
    by (auto simp: Acquire_def split: if_splits)
next
  fix p p' :: "'c pool" and w w' e
  assume "Acquire opts p w = Some (Inl e, p', w')"
  then show "sem p' = sem p \<and> Size p' = Size p"
    using acquire_slot_sem [of opts "p\<lparr>sem := sem p + 1\<rparr>" w "Inl e" p' w']
    by (auto simp: Acquire_def split: if_splits)
next
  show "Acquire opts p w \<noteq> None" if "sem p < Size p" for p :: "'c pool" and w
    using that by (cases "oCtx opts w") (simp_all add: Acquire_def del: not_None_eq)
qed (auto simp: Release_def Discard_def split: if_splits)

section \<open>The pool under concurrency\<close>

text \<open>
  Where a goroutine stands.  \<open>PAcquire\<close>: before the select; \<open>PSlot\<close>: holding a slot, before the
  lock; \<open>PDial\<close>: in \<open>Dial\<close>; \<open>PBind c\<close>: in \<open>Bind\<close>; \<open>PLeased c\<close>: the lease is out; \<open>PCloseConn c\<close>:
  about to close a connection and give the slot back (a failed bind, a discard, a release after
  \<open>Close\<close>); \<open>PSlotBack\<close>: about to give the slot back; \<open>PClosing cs\<close>: in the loop of \<open>Close\<close>.
\<close>

datatype pc =
    PAcquire
  | PSlot
  | PDial
  | PBind nat
  | PLeased nat
  | PCloseConn nat
  | PSlotBack
  | PClosing "nat list"

text \<open>
  Connections are numbered in the order \<open>Dial\<close> opens them.  \<open>popen\<close> holds the connections that are
  open and \<open>pbound\<close> those a \<open>Bind\<close> succeeded on; both are of the world, not of the pool.
\<close>

record pool_state =
  pSize :: nat
  pSem :: nat
  pIdle :: "nat list"
  pDone :: bool
  pcs :: "pc multiset"
  popen :: "nat set"
  pbound :: "nat set"
  pnext :: nat

inductive pool_step :: "pool_state \<Rightarrow> pool_state \<Rightarrow> bool" where
  call: "pool_step s (s\<lparr>pcs := add_mset PAcquire (pcs s)\<rparr>)"
| cancelled: "pcs s = add_mset PAcquire M \<Longrightarrow> pool_step s (s\<lparr>pcs := M\<rparr>)"
| take_slot: "pcs s = add_mset PAcquire M \<Longrightarrow> pSem s < pSize s \<Longrightarrow>
    pool_step s (s\<lparr>pSem := pSem s + 1, pcs := add_mset PSlot M\<rparr>)"
| pool_closed: "pcs s = add_mset PSlot M \<Longrightarrow> pDone s \<Longrightarrow>
    pool_step s (s\<lparr>pcs := add_mset PSlotBack M\<rparr>)"
| reuse: "pcs s = add_mset PSlot M \<Longrightarrow> \<not> pDone s \<Longrightarrow> pIdle s \<noteq> [] \<Longrightarrow>
    pool_step s (s\<lparr>pIdle := butlast (pIdle s), pcs := add_mset (PLeased (last (pIdle s))) M\<rparr>)"
| go_dial: "pcs s = add_mset PSlot M \<Longrightarrow> \<not> pDone s \<Longrightarrow> pIdle s = [] \<Longrightarrow>
    pool_step s (s\<lparr>pcs := add_mset PDial M\<rparr>)"
| dial_fails: "pcs s = add_mset PDial M \<Longrightarrow> pool_step s (s\<lparr>pcs := add_mset PSlotBack M\<rparr>)"
| dial_ok: "pcs s = add_mset PDial M \<Longrightarrow>
    pool_step s (s\<lparr>popen := insert (pnext s) (popen s), pnext := pnext s + 1,
                   pcs := add_mset (PBind (pnext s)) M\<rparr>)"
| bind_fails: "pcs s = add_mset (PBind c) M \<Longrightarrow>
    pool_step s (s\<lparr>pcs := add_mset (PCloseConn c) M\<rparr>)"
| bind_ok: "pcs s = add_mset (PBind c) M \<Longrightarrow>
    pool_step s (s\<lparr>pbound := insert c (pbound s), pcs := add_mset (PLeased c) M\<rparr>)"
| release: "pcs s = add_mset (PLeased c) M \<Longrightarrow> \<not> pDone s \<Longrightarrow>
    pool_step s (s\<lparr>pIdle := pIdle s @ [c], pcs := add_mset PSlotBack M\<rparr>)"
| release_closed: "pcs s = add_mset (PLeased c) M \<Longrightarrow> pDone s \<Longrightarrow>
    pool_step s (s\<lparr>pcs := add_mset (PCloseConn c) M\<rparr>)"
| discard: "pcs s = add_mset (PLeased c) M \<Longrightarrow>
    pool_step s (s\<lparr>pcs := add_mset (PCloseConn c) M\<rparr>)"
| close_conn: "pcs s = add_mset (PCloseConn c) M \<Longrightarrow>
    pool_step s (s\<lparr>popen := popen s - {c}, pcs := add_mset PSlotBack M\<rparr>)"
| slot_back: "pcs s = add_mset PSlotBack M \<Longrightarrow> pool_step s (s\<lparr>pSem := pSem s - 1, pcs := M\<rparr>)"
| close_pool: "pool_step s (s\<lparr>pDone := True, pIdle := [], pcs := add_mset (PClosing (pIdle s)) (pcs s)\<rparr>)"
| closing: "pcs s = add_mset (PClosing (c # cs)) M \<Longrightarrow>
    pool_step s (s\<lparr>popen := popen s - {c}, pcs := add_mset (PClosing cs) M\<rparr>)"
| closing_done: "pcs s = add_mset (PClosing []) M \<Longrightarrow> pool_step s (s\<lparr>pcs := M\<rparr>)"

definition pool_init :: "nat \<Rightarrow> pool_state" where
  "pool_init n = \<lparr>pSize = n, pSem = 0, pIdle = [], pDone = False, pcs = {#}, popen = {},
     pbound = {}, pnext = 0\<rparr>"

definition reachable :: "nat \<Rightarrow> pool_state \<Rightarrow> bool" where
  "reachable n s \<longleftrightarrow> pool_step\<^sup>*\<^sup>* (pool_init n) s"

subsection \<open>The invariant\<close>

text \<open>The connections a goroutine is responsible for, and the slots it holds.\<close>

fun holds :: "pc \<Rightarrow> nat list" where
  "holds (PBind c) = [c]"
| "holds (PLeased c) = [c]"
| "holds (PCloseConn c) = [c]"
| "holds (PClosing cs) = cs"
| "holds _ = []"

fun slots :: "pc \<Rightarrow> nat" where
  "slots PAcquire = 0"
| "slots (PClosing _) = 0"
| "slots _ = 1"

text \<open>What a goroutine can have open: the connections it holds, or the one it is dialling.\<close>

fun weight :: "pc \<Rightarrow> nat" where
  "weight PDial = 1"
| "weight pc = length (holds pc)"

fun is_closing :: "pc \<Rightarrow> bool" where
  "is_closing (PClosing _) = True"
| "is_closing _ = False"

fun leased :: "pc \<Rightarrow> nat list" where
  "leased (PLeased c) = [c]"
| "leased _ = []"

abbreviation held :: "pc multiset \<Rightarrow> nat multiset" where
  "held M \<equiv> \<Sum>\<^sub># (image_mset (\<lambda>pc. mset (holds pc)) M)"

definition pool_inv :: "pool_state \<Rightarrow> bool" where
  "pool_inv s \<longleftrightarrow>
     pSem s = \<Sum>\<^sub># (image_mset slots (pcs s)) \<and>
     pSem s \<le> pSize s \<and>
     length (pIdle s) + \<Sum>\<^sub># (image_mset weight (pcs s)) \<le> pSize s \<and>
     mset (pIdle s) + held (pcs s) = mset_set (popen s) \<and> finite (popen s) \<and>
     (\<forall>c \<in> popen s. c < pnext s) \<and>
     (pDone s \<longrightarrow> pIdle s = []) \<and>
     (\<not> pDone s \<longrightarrow> (\<forall>pc \<in># pcs s. \<not> is_closing pc)) \<and>
     set (pIdle s) \<subseteq> pbound s \<and> (\<forall>pc \<in># pcs s. set (leased pc) \<subseteq> pbound s)"

lemma weight_le_slots: "\<not> is_closing pc \<Longrightarrow> weight pc \<le> slots pc"
  by (cases pc) simp_all

lemma sum_weight_le_slots:
  "\<forall>pc \<in># M. \<not> is_closing pc \<Longrightarrow> \<Sum>\<^sub># (image_mset weight M) \<le> \<Sum>\<^sub># (image_mset slots M)"
  by (induction M) (auto intro: add_mono weight_le_slots)

lemma pool_inv_init: "pool_inv (pool_init n)"
  by (simp add: pool_inv_def pool_init_def)

text \<open>The number of a new connection is fresh; a connection that is closed was open.\<close>

lemma mset_set_new:
  "finite A \<Longrightarrow> \<forall>c \<in> A. c < (n :: nat) \<Longrightarrow> mset_set (insert n A) = add_mset n (mset_set A)"
  by (subst mset_set.insert) auto

lemma mset_set_remove:
  assumes "finite A" "add_mset c M = mset_set A"
  shows "M = mset_set (A - {c})"
proof -
  have "c \<in> A" by (metis assms elem_mset_set union_single_eq_member)
  then have "mset_set A = add_mset c (mset_set (A - {c}))"
    using assms(1) by (simp add: mset_set.remove)
  with assms(2) show ?thesis by simp
qed

lemma pool_inv_step:
  assumes "pool_step s t" "pool_inv s"
  shows "pool_inv t"
  using assms
proof cases
  case (reuse M)
  then obtain xs c where "pIdle s = xs @ [c]" by (metis rev_exhaust)
  with reuse assms(2) show ?thesis by (auto simp: pool_inv_def)
next
  case (go_dial M)
  then have "\<forall>pc \<in># M. \<not> is_closing pc" using assms(2) by (auto simp: pool_inv_def)
  then have "\<Sum>\<^sub># (image_mset weight M) \<le> \<Sum>\<^sub># (image_mset slots M)" by (rule sum_weight_le_slots)
  with go_dial assms(2) show ?thesis by (auto simp: pool_inv_def)
next
  case (dial_ok M)
  with assms(2) show ?thesis by (auto simp: pool_inv_def mset_set_new less_SucI)
next
  case (close_conn c M)
  then have "mset (pIdle s) + held M = mset_set (popen s - {c})"
    using assms(2) by (intro mset_set_remove) (auto simp: pool_inv_def)
  with close_conn assms(2) show ?thesis by (auto simp: pool_inv_def)
next
  case (closing c cs M)
  then have "mset (pIdle s) + (mset cs + held M) = mset_set (popen s - {c})"
    using assms(2) by (intro mset_set_remove) (auto simp: pool_inv_def)
  with closing assms(2) show ?thesis by (auto simp: pool_inv_def)
qed (auto simp: pool_inv_def)

lemma pool_inv_reachable: "reachable n s \<Longrightarrow> pool_inv s \<and> pSize s = n"
  unfolding reachable_def
proof (induction rule: rtranclp_induct)
  case (step s t)
  then have "pSize t = pSize s" by (auto elim: pool_step.cases)
  with step pool_inv_step show ?case by auto
qed (simp_all add: pool_inv_init, simp add: pool_init_def)

subsection \<open>Goroutines that hold a slot can give it back\<close>

text \<open>Whatever point a goroutine with a slot is at, it can run on alone until the slot is free.\<close>

definition frees :: "pc multiset \<Rightarrow> pool_state \<Rightarrow> bool" where
  "frees M s \<longleftrightarrow>
     (\<exists>t. pool_step\<^sup>*\<^sup>* s t \<and> pcs t = M \<and> pSem t = pSem s - 1 \<and> pSize t = pSize s)"

lemma frees_step:
  "pool_step s s' \<Longrightarrow> pSem s' = pSem s \<Longrightarrow> pSize s' = pSize s \<Longrightarrow> frees M s' \<Longrightarrow> frees M s"
  unfolding frees_def by (metis converse_rtranclp_into_rtranclp)

lemma frees_PSlotBack: "pcs s = add_mset PSlotBack M \<Longrightarrow> frees M s"
  unfolding frees_def
  by (intro exI conjI, rule r_into_rtranclp, rule pool_step.slot_back) simp_all

lemma frees_PCloseConn: "pcs s = add_mset (PCloseConn c) M \<Longrightarrow> frees M s"
  by (erule frees_step [OF pool_step.close_conn]) (simp_all add: frees_PSlotBack)

lemma frees_PLeased: "pcs s = add_mset (PLeased c) M \<Longrightarrow> frees M s"
  by (erule frees_step [OF pool_step.discard]) (simp_all add: frees_PCloseConn)

lemma frees_PBind: "pcs s = add_mset (PBind c) M \<Longrightarrow> frees M s"
  by (erule frees_step [OF pool_step.bind_fails]) (simp_all add: frees_PCloseConn)

lemma frees_PDial: "pcs s = add_mset PDial M \<Longrightarrow> frees M s"
  by (erule frees_step [OF pool_step.dial_fails]) (simp_all add: frees_PSlotBack)

lemma frees_PSlot: "pcs s = add_mset PSlot M \<Longrightarrow> frees M s"
proof -
  assume p: "pcs s = add_mset PSlot M"
  show "frees M s"
  proof (cases "pDone s")
    case True
    then show ?thesis
      by (rule frees_step [OF pool_step.pool_closed [OF p]]) (simp_all add: frees_PSlotBack)
  next
    case False
    then show ?thesis
      using frees_step [OF pool_step.go_dial [OF p]] frees_step [OF pool_step.reuse [OF p]]
      by (cases "pIdle s = []") (simp_all add: frees_PDial frees_PLeased)
  qed
qed

lemma slot_returns: "pcs s = add_mset pc M \<Longrightarrow> slots pc = 1 \<Longrightarrow> frees M s"
  by (cases pc) (simp_all add: frees_PSlotBack frees_PCloseConn frees_PLeased frees_PBind
      frees_PDial frees_PSlot)

section \<open>Properties\<close>

lemma sum_mset_mono_nat:
  "(\<And>x. x \<in># M \<Longrightarrow> f x \<le> (g x :: nat)) \<Longrightarrow> \<Sum>\<^sub># (image_mset f M) \<le> \<Sum>\<^sub># (image_mset g M)"
  by (induction M) (auto intro: add_mono)

lemma size_held: "size (held M) = \<Sum>\<^sub># (image_mset (\<lambda>pc. length (holds pc)) M)"
  by (induction M) auto

lemma sum_slots_pos: "\<Sum>\<^sub># (image_mset slots M) \<noteq> 0 \<Longrightarrow> \<exists>pc \<in># M. slots pc = 1"
proof -
  have one: "slots pc \<noteq> 0 \<Longrightarrow> slots pc = 1" for pc by (cases pc) simp_all
  assume "\<Sum>\<^sub># (image_mset slots M) \<noteq> 0"
  then obtain pc where "pc \<in># M" "slots pc \<noteq> 0" by (induction M) auto
  with one show "\<exists>pc \<in># M. slots pc = 1" by blast
qed

text \<open>
  C4. The pool's size bounds the connections: however calls of \<open>Acquire\<close>, \<open>Release\<close>, \<open>Discard\<close> and
  \<open>Close\<close> interleave, and whichever dials and binds fail, at most \<open>Size\<close> connections are open at
  once, idle ones and ones being closed included, and at most \<open>Size\<close> slots are taken.
\<close>

theorem pool_bound:
  assumes "reachable n s"
  shows "card (popen s) \<le> n \<and> pSem s \<le> n"
proof -
  have inv: "pool_inv s" "pSize s = n" using pool_inv_reachable [OF assms] by simp_all
  have "length (holds pc) \<le> weight pc" for pc by (cases pc) simp_all
  then have "size (held (pcs s)) \<le> \<Sum>\<^sub># (image_mset weight (pcs s))"
    unfolding size_held by (rule sum_mset_mono_nat)
  moreover have "card (popen s) = size (mset (pIdle s) + held (pcs s))"
    using inv(1) by (simp add: pool_inv_def)
  ultimately show ?thesis using inv by (simp add: pool_inv_def)
qed

text \<open>
  C5. A lease is exclusive: a connection that is leased is open, was bound successfully, is not idle,
  and no other goroutine holds it, so a discarded connection is never handed out again.
\<close>

theorem pool_exclusive:
  assumes "reachable n s" "pcs s = add_mset (PLeased c) M"
  shows "c \<in> popen s \<and> c \<in> pbound s \<and> c \<notin> set (pIdle s) \<and> (\<forall>pc \<in># M. c \<notin> set (holds pc))"
proof -
  have inv: "pool_inv s" using pool_inv_reachable [OF assms(1)] by simp
  then have eq: "add_mset c (mset (pIdle s) + held M) = mset_set (popen s)" and f: "finite (popen s)"
    and b: "c \<in> pbound s"
    using assms(2) by (auto simp: pool_inv_def)
  have "c \<in> popen s" by (metis eq f elem_mset_set union_single_eq_member)
  moreover have "c \<notin># mset (pIdle s) + held M"
    using mset_set_remove [OF f eq] f by simp
  ultimately show ?thesis using b by auto
qed

text \<open>
  C6. Nothing leaks: once no goroutine is inside a pool method or holds a lease, every slot is free
  and the open connections are exactly the idle ones; and after \<open>Close\<close> there is none left open.
\<close>

theorem pool_no_leak:
  assumes "reachable n s" "\<forall>pc \<in># pcs s. pc = PAcquire"
  shows "pSem s = 0 \<and> popen s = set (pIdle s) \<and> (pDone s \<longrightarrow> popen s = {})"
proof -
  have inv: "pool_inv s" using pool_inv_reachable [OF assms(1)] by simp
  have "held (pcs s) = {#}" "\<Sum>\<^sub># (image_mset slots (pcs s)) = 0" using assms(2) by auto
  with inv have "pSem s = 0" "mset (pIdle s) = mset_set (popen s)" "finite (popen s)"
    by (simp_all add: pool_inv_def)
  moreover from this have "popen s = set (pIdle s)" by (metis finite_set_mset_mset_set set_mset_mset)
  ultimately show ?thesis using inv by (auto simp: pool_inv_def)
qed

text \<open>
  C7. The pool never deadlocks: from every reachable state, also one in which every slot has been taken
  by calls whose dial or bind fails, a waiting \<open>Acquire\<close> can still get a slot.
\<close>

theorem pool_no_deadlock:
  assumes "reachable n s" "0 < n" "PAcquire \<in># pcs s"
  shows "\<exists>t u. pool_step\<^sup>*\<^sup>* s t \<and> PAcquire \<in># pcs t \<and> pool_step t u \<and> pSem u = pSem t + 1"
proof -
  have inv: "pool_inv s" "pSize s = n" using pool_inv_reachable [OF assms(1)] by simp_all
  have take: "\<exists>u. pool_step t u \<and> pSem u = pSem t + 1" if "PAcquire \<in># pcs t" "pSem t < pSize t" for t
    using pool_step.take_slot [OF _ that(2)] multi_member_split [OF that(1)] by force
  show ?thesis
  proof (cases "pSem s < pSize s")
    case True
    with take assms(3) show ?thesis by blast
  next
    case False
    moreover have "pSem s = \<Sum>\<^sub># (image_mset slots (pcs s))" using inv(1) by (simp add: pool_inv_def)
    ultimately have "\<Sum>\<^sub># (image_mset slots (pcs s)) \<noteq> 0" using inv(2) assms(2) by linarith
    then obtain pc where pc: "pc \<in># pcs s" "slots pc = 1" using sum_slots_pos by blast
    moreover from pc(1) obtain M where M: "pcs s = add_mset pc M" by (rule mset_add)
    ultimately obtain t where t: "pool_step\<^sup>*\<^sup>* s t" "pcs t = M" "pSem t = pSem s - 1" "pSize t = pSize s"
      using slot_returns unfolding frees_def by blast
    have "PAcquire \<in># pcs t" using assms(3) M t(2) pc(2) by auto
    moreover have "pSem t < pSize t" using t inv assms(2) by (auto simp: pool_inv_def)
    ultimately show ?thesis using t(1) take by blast
  qed
qed

subsection \<open>Runs of a pool of one connection\<close>

definition waiting_state :: pool_state where
  "waiting_state = (pool_init 1)\<lparr>pcs := {#PAcquire#}\<rparr>"

definition leased_state :: pool_state where
  "leased_state = \<lparr>pSize = 1, pSem = 1, pIdle = [], pDone = False, pcs = {#PLeased 0#}, popen = {0},
     pbound = {0}, pnext = 1\<rparr>"

definition closed_state :: pool_state where
  "closed_state = \<lparr>pSize = 1, pSem = 0, pIdle = [], pDone = True, pcs = {#}, popen = {},
     pbound = {0}, pnext = 1\<rparr>"

lemma reachable_trans: "reachable n s \<Longrightarrow> pool_step s t \<Longrightarrow> reachable n t"
  unfolding reachable_def by (rule rtranclp.rtrancl_into_rtrancl)

lemma reachable_waiting: "reachable 1 waiting_state"
proof -
  have "reachable 1 (pool_init 1)" by (simp add: reachable_def)
  from reachable_trans [OF this pool_step.call] show ?thesis
    by (simp add: waiting_state_def pool_init_def)
qed

lemma reachable_leased: "reachable 1 leased_state"
proof -
  let ?M = "{#} :: pc multiset"
  note 1 = reachable_trans [OF reachable_waiting pool_step.take_slot [where M = ?M]]
  note 2 = reachable_trans [OF 1 pool_step.go_dial [where M = ?M]]
  note 3 = reachable_trans [OF 2 pool_step.dial_ok [where M = ?M]]
  note 4 = reachable_trans [OF 3 pool_step.bind_ok [where M = ?M and c = 0]]
  show ?thesis using 4 by (simp add: leased_state_def waiting_state_def pool_init_def)
qed

lemma reachable_closed: "reachable 1 closed_state"
proof -
  let ?M = "{#PClosing []#}"
  note 1 = reachable_trans [OF reachable_leased pool_step.close_pool]
  note 2 = reachable_trans [OF 1 pool_step.release_closed [where M = ?M and c = 0]]
  note 3 = reachable_trans [OF 2 pool_step.close_conn [where M = ?M and c = 0]]
  note 4 = reachable_trans [OF 3 pool_step.slot_back [where M = ?M]]
  note 5 = reachable_trans [OF 4 pool_step.closing_done [where M = "{#}"]]
  show ?thesis using 5 by (simp add: leased_state_def closed_state_def)
qed

theorem pool_bound_witness: "card (popen leased_state) \<le> 1 \<and> pSem leased_state \<le> 1"
  by (rule pool_bound [OF reachable_leased])

theorem pool_exclusive_witness: "0 \<in> popen leased_state \<and> 0 \<notin> set (pIdle leased_state)"
  using pool_exclusive [OF reachable_leased, of 0 "{#}"] by (simp add: leased_state_def)

theorem pool_no_leak_witness: "pSem closed_state = 0 \<and> popen closed_state = {}"
  using pool_no_leak [OF reachable_closed] by (simp add: closed_state_def)

theorem pool_no_deadlock_witness:
  "\<exists>t u. pool_step\<^sup>*\<^sup>* waiting_state t \<and> pool_step t u \<and> pSem u = pSem t + 1"
  using pool_no_deadlock [OF reachable_waiting] by (auto simp: waiting_state_def)

end
