(* ===== verification/Ldaperr.thy ===== *)
theory Ldaperr
  imports Conn
begin

text \<open>
  Package \<open>internal/ldaperr\<close>: an LDAP failure becomes the \<open>adcore.Kind\<close> of the Win32 code that
  Active Directory puts at the front of its diagnostic message, or else of the LDAP result code.

  The table \<open>adcore.ClassifyCode\<close> is not part of this repository and is an argument.
\<close>

definition isHex :: "char \<Rightarrow> bool" where
  "isHex c \<longleftrightarrow> (let n = of_char c :: nat in
     48 \<le> n \<and> n \<le> 57 \<or> 97 \<le> n \<and> n \<le> 102 \<or> 65 \<le> n \<and> n \<le> 70)"

definition ExtractWin32Code :: "string \<Rightarrow> int option" where
  "ExtractWin32Code diagnostic =
     (if length diagnostic < 9 \<or> diagnostic ! 8 \<noteq> CHR '':'' then None
      else let head = take 8 diagnostic in
        if \<not> list_all isHex head then None
        else case ParseUint head 16 64 of
            Inl _ \<Rightarrow> None
          | Inr v \<Rightarrow> Some (int v))"

definition byResultCode :: "(u16 \<times> kind) list" where
  "byResultCode =
     [(1, KindUnknown), (4, KindTooManyResults), (8, KindDenied), (10, KindReferral),
      (16, KindConstraint), (17, KindInvalidAttribute), (19, KindConstraint), (20, KindConstraint),
      (21, KindInvalidAttribute), (32, KindNotFound), (34, KindConstraint), (49, KindDenied),
      (50, KindDenied), (51, KindTransient), (52, KindTransient), (53, KindConstraint),
      (64, KindConstraint), (65, KindConstraint), (66, KindConstraint), (67, KindConstraint),
      (68, KindAlreadyExists)]"

definition bindSubStatus :: "(string \<times> string) list" where
  "bindSubStatus =
     [(''data 52e'', ''the username or password is wrong''),
      (''data 532'', ''the account's password has expired or must be changed''),
      (''data 773'', ''the account's password has expired or must be changed''),
      (''data 775'', ''the account is locked out''),
      (''data 530'', ''the account is not permitted to log on at this time''),
      (''data 531'', ''the account is not permitted to log on from this host''),
      (''data 533'', ''the account is disabled''),
      (''data 701'', ''the account has expired'')]"

text \<open>The em dash of the source, in UTF-8.\<close>

definition em_dash :: string where
  "em_dash = [CHR 0xE2, CHR 0x80, CHR 0x94]"

definition channelBindingHelp :: string where
  "channelBindingHelp =
     ''the domain controller requires channel binding for SASL binds '' @
     ''(LdapEnforceChannelBinding). The NTLM bind cannot comply '' @ em_dash @ '' the LDAP library '' @
     ''sends no token for it '' @ em_dash @ '' so use kerberos, which does, or simple over LDAPS. '' @
     ''If kerberos produced this, the token was rejected rather than missing: '' @
     ''something is terminating TLS between this client and the controller''"

definition explain :: "u16 \<Rightarrow> string \<Rightarrow> string" where
  "explain resultCode diagnostic =
     (if resultCode = 8 then channelBindingHelp
      else case find (\<lambda>s. Contains diagnostic (fst s)) bindSubStatus of
          Some s \<Rightarrow> snd s
        | None \<Rightarrow> [])"

definition annotate :: "ad_error \<Rightarrow> u16 \<Rightarrow> string \<Rightarrow> ad_error" where
  "annotate e resultCode diagnostic =
     (let explanation = explain resultCode diagnostic in
      if explanation \<noteq> []
      then (case e of AdError k op i t c m b x \<Rightarrow>
              AdError k op i t c (diagnostic @ '' '' @ em_dash @ '' '' @ explanation) b x)
      else e)"

text \<open>\<open>Classify\<close> of a non-nil error; the nil error stays nil.\<close>

definition Classify_err :: "(int \<Rightarrow> kind option) \<Rightarrow> string \<Rightarrow> go_error \<Rightarrow> ad_error" where
  "Classify_err ClassifyCode op err =
     (if errors_Is err ErrCanceled \<or> errors_Is err ErrDeadlineExceeded
      then AdError KindTransport op [] [] 0 [] False (Some err)
      else case as_raw err of
          Some (ErrRaw resultCode diagnostic cause) \<Rightarrow>
            let out = (\<lambda>k c. AdError k op [] [] c diagnostic False cause);
                code = ExtractWin32Code diagnostic;
                c = (case code of Some c \<Rightarrow> c | None \<Rightarrow> 0)
            in (case (case code of Some c \<Rightarrow> ClassifyCode c | None \<Rightarrow> None) of
                  Some k \<Rightarrow> annotate (out k c) resultCode diagnostic
                | None \<Rightarrow>
                    (case map_of byResultCode resultCode of
                       Some k \<Rightarrow> annotate (out k c) resultCode diagnostic
                     | None \<Rightarrow> annotate (out KindUnknown c) resultCode diagnostic))
        | _ \<Rightarrow> AdError KindTransport op [] [] 0 [] False (Some err))"

definition Classify :: "(int \<Rightarrow> kind option) \<Rightarrow> string \<Rightarrow> go_error option \<Rightarrow> go_error option" where
  "Classify ClassifyCode op err = map_option (\<lambda>e. ErrAd (Classify_err ClassifyCode op e)) err"

section \<open>The code in a diagnostic message\<close>

lemma isHex_digit_val: "isHex c \<longleftrightarrow> (\<exists>d < 16. digit_val c = Some d)"
  by (auto simp: isHex_def digit_val_def Let_def)

lemma parse_digits_hex:
  "list_all isHex s \<Longrightarrow> \<exists>n. parse_digits 16 acc s = Some n \<and> n < (acc + 1) * 16 ^ length s"
proof (induction s arbitrary: acc)
  case (Cons c s)
  then obtain d where d: "d < 16" "digit_val c = Some d" by (auto simp: isHex_digit_val)
  with Cons obtain n where n: "parse_digits 16 (acc * 16 + d) s = Some n"
    "n < (acc * 16 + d + 1) * 16 ^ length s" by fastforce
  have "(acc * 16 + d + 1) * 16 ^ length s \<le> (acc * 16 + 16) * 16 ^ length s"
    using d(1) by (intro mult_le_mono1) simp
  also have "(acc * 16 + 16) * 16 ^ length s = (acc + 1) * 16 ^ length (c # s)"
    by (simp add: algebra_simps)
  finally have "n < (acc + 1) * 16 ^ length (c # s)" using n(2) by (rule less_le_trans [rotated])
  with n(1) d show ?case by (simp del: power_Suc)
qed simp

lemma ParseUint_hex8:
  assumes "list_all isHex s" "length s = 8"
  obtains n where "ParseUint s 16 64 = Inr n" "n < 2 ^ 32"
proof -
  from parse_digits_hex [OF assms(1), of 0] assms(2) obtain n
    where n: "parse_digits 16 0 s = Some n" "n < 2 ^ 32" by auto
  moreover from assms(2) have "s \<noteq> []" by auto
  ultimately have "ParseUint s 16 64 = Inr n" by (intro ParseUint_digits) auto
  then show thesis using n(2) by (rule that)
qed

lemma list_all_fix_hex: "list_all isHex (fix_hex k n)"
proof (induction k arbitrary: n)
  case (Suc k)
  have "isHex (digit_char (n mod 16))" by (simp add: isHex_digit_val)
  with Suc show ?case by simp
qed simp

lemma parse_digits_fix_hex:
  "parse_digits 16 acc (fix_hex k n) = Some (acc * 16 ^ k + n mod 16 ^ k)"
proof (induction k arbitrary: n)
  case (Suc k)
  have "n div 16 mod 16 ^ k * 16 + n mod 16 = n mod 16 ^ Suc k"
    by (simp add: mod_mult2_eq mult.commute)
  with Suc show ?case by (simp add: parse_digits_append algebra_simps)
qed simp

lemma ExtractWin32Code_fix_hex:
  assumes "n < 2 ^ 32"
  shows "ExtractWin32Code (fix_hex 8 n @ '':'' @ r) = Some (int n)"
proof -
  have "parse_digits 16 0 (fix_hex 8 n) = Some n"
    using parse_digits_fix_hex [of 0 8 n] assms by simp
  moreover have "fix_hex 8 n \<noteq> []" by (metis length_fix_hex list.size(3) zero_neq_numeral)
  ultimately have "ParseUint (fix_hex 8 n) 16 64 = Inr n"
    using assms by (intro ParseUint_digits) simp_all
  then show ?thesis by (simp add: ExtractWin32Code_def list_all_fix_hex nth_append)
qed

section \<open>Properties\<close>

text \<open>
  \<open>ExtractWin32Code\<close> reads exactly the codes AD writes: the eight hexadecimal digits of any 32-bit
  code followed by a colon give that code back, and whatever it accepts is a 32-bit value that eight
  hexadecimal digits and a colon introduce.
\<close>

theorem ExtractWin32Code_spec:
  "(n < 2 ^ 32 \<longrightarrow> ExtractWin32Code (pad_hex 8 n @ '':'' @ rest) = Some (int n)) \<and>
   (ExtractWin32Code s = Some c \<longrightarrow>
      0 \<le> c \<and> c < 2 ^ 32 \<and> list_all isHex (take 8 s) \<and> (\<exists>r. s = take 8 s @ '':'' @ r))"
proof (intro conjI impI)
  show "ExtractWin32Code (pad_hex 8 n @ '':'' @ rest) = Some (int n)" if "n < 2 ^ 32"
    using ExtractWin32Code_fix_hex [OF that] pad_hex_fix_hex [of n 8] that by simp
next
  assume s: "ExtractWin32Code s = Some c"
  then have l: "9 \<le> length s" "s ! 8 = CHR '':''" "list_all isHex (take 8 s)"
    by (auto simp: ExtractWin32Code_def Let_def split: if_splits)
  then obtain n where "ParseUint (take 8 s) 16 64 = Inr n" "n < 2 ^ 32"
    using ParseUint_hex8 [of "take 8 s"] by auto
  with s show "0 \<le> c" "c < 2 ^ 32"
    by (auto simp: ExtractWin32Code_def Let_def split: if_splits)
  from l show "list_all isHex (take 8 s)" by simp
  from l have "s = take 8 s @ s ! 8 # drop 9 s"
    using id_take_nth_drop [of 8 s] by simp
  with l show "\<exists>r. s = take 8 s @ '':'' @ r" by auto
qed

theorem ExtractWin32Code_spec_witness:
  "ExtractWin32Code (pad_hex 8 0x208D @ '':'' @ '' NameErr'') = Some 0x208D"
  using ExtractWin32Code_spec [of "0x208D" "'' NameErr''"] by simp

lemma annotate_fields [simp]:
  "Kind (annotate e r d) = Kind e" "Op (annotate e r d) = Op e" "Code (annotate e r d) = Code e"
  "Err (annotate e r d) = Err e"
  by (cases e; simp add: annotate_def Let_def)+

lemma annotate_message: "ServerMessage e = d \<Longrightarrow> \<exists>t. ServerMessage (annotate e r d) = d @ t"
  by (cases e) (simp add: annotate_def Let_def)

text \<open>
  C39. Whether a failure may be retried is decided by the server's answer alone: an error with no LDAP
  result in its chain, and every cancellation or deadline, is \<open>KindTransport\<close>; \<open>KindTransient\<close> needs
  an LDAP result whose Win32 code, or else whose result code busy or unavailable, says so.  The
  classifier keeps the operation and the whole diagnostic as the prefix of the message.
\<close>

theorem Classify_kinds:
  "(errors_Is err ErrCanceled \<or> errors_Is err ErrDeadlineExceeded \<or> as_raw err = None \<longrightarrow>
      Classify C op (Some err) = Some (ErrAd (AdError KindTransport op [] [] 0 [] False (Some err)))) \<and>
   (Kind (Classify_err C op err) = KindTransient \<longrightarrow>
      (\<exists>code diag cause. as_raw err = Some (ErrRaw code diag cause) \<and>
         \<not> errors_Is err ErrCanceled \<and> \<not> errors_Is err ErrDeadlineExceeded \<and>
         (code \<in> {51, 52} \<or> (\<exists>c. ExtractWin32Code diag = Some c \<and> C c = Some KindTransient)))) \<and>
   (\<not> errors_Is err ErrCanceled \<and> \<not> errors_Is err ErrDeadlineExceeded \<and>
      as_raw err = Some (ErrRaw code diag cause) \<longrightarrow>
      Op (Classify_err C op err) = op \<and> Err (Classify_err C op err) = cause \<and>
      (\<exists>t. ServerMessage (Classify_err C op err) = diag @ t))"
proof (intro conjI impI)
  assume "errors_Is err ErrCanceled \<or> errors_Is err ErrDeadlineExceeded \<or> as_raw err = None"
  then show "Classify C op (Some err) = Some (ErrAd (AdError KindTransport op [] [] 0 [] False (Some err)))"
    by (auto simp: Classify_def Classify_err_def)
next
  have tab: "map_of byResultCode r = Some KindTransient \<Longrightarrow> r \<in> {51, 52}" for r
    by (simp add: byResultCode_def split: if_splits)
  assume "Kind (Classify_err C op err) = KindTransient"
  then show "\<exists>code diag cause. as_raw err = Some (ErrRaw code diag cause) \<and>
         \<not> errors_Is err ErrCanceled \<and> \<not> errors_Is err ErrDeadlineExceeded \<and>
         (code \<in> {51, 52} \<or> (\<exists>c. ExtractWin32Code diag = Some c \<and> C c = Some KindTransient))"
    using tab by (force simp: Classify_err_def Let_def split: if_splits option.splits go_error.splits)
next
  assume "\<not> errors_Is err ErrCanceled \<and> \<not> errors_Is err ErrDeadlineExceeded \<and>
      as_raw err = Some (ErrRaw code diag cause)"
  then show "Op (Classify_err C op err) = op" "Err (Classify_err C op err) = cause"
    "\<exists>t. ServerMessage (Classify_err C op err) = diag @ t"
    by (auto simp: Classify_err_def Let_def split: option.split intro!: annotate_message)
qed

theorem Classify_kinds_witness:
  "Classify (\<lambda>_. None) ''op'' (Some ErrCanceled) =
     Some (ErrAd (AdError KindTransport ''op'' [] [] 0 [] False (Some ErrCanceled))) \<and>
   Op (Classify_err (\<lambda>_. None) ''op'' (ErrRaw 51 ''busy'' None)) = ''op'' \<and>
   Kind (Classify_err (\<lambda>_. None) ''op'' (ErrRaw 51 ''busy'' None)) = KindTransient"
proof -
  have "as_raw (ErrRaw 51 ''busy'' None) = Some (ErrRaw 51 ''busy'' None)"
    "\<not> errors_Is (ErrRaw 51 ''busy'' None) ErrCanceled"
    "\<not> errors_Is (ErrRaw 51 ''busy'' None) ErrDeadlineExceeded"
    by (simp_all add: as_raw_def is_raw_def errors_Is_def)
  moreover have "Kind (Classify_err (\<lambda>_. None) ''op'' (ErrRaw 51 ''busy'' None)) = KindTransient"
    by (simp add: Classify_err_def errors_Is_def as_raw_def is_raw_def ExtractWin32Code_def
        byResultCode_def)
  moreover have "errors_Is ErrCanceled ErrCanceled" by (simp add: errors_Is_def)
  ultimately show ?thesis
    using Classify_kinds [of ErrCanceled "\<lambda>_. None" "''op''"]
      Classify_kinds [of "ErrRaw 51 ''busy'' None" "\<lambda>_. None" "''op''" 51 "''busy''" None]
    by simp
qed

end
