(* ===== verification/Exec.thy ===== *)
theory Exec
  imports Pool Ldaperr
begin

text \<open>
  The root package, file \<open>exec.go\<close>: \<open>withConn\<close> runs one operation on a pooled connection,
  classifies its failure and retries it only while the classified kind is retryable.

  What lies outside the repository is a field of \<open>exec_env\<close>: the dialler, binder and closer of the
  pool, the table \<open>adcore.ClassifyCode\<close>, \<open>Kind.Retryable\<close> and the pause \<open>adcore.Backoff\<close>.
  The closure passed to \<open>withConn\<close> returns what it assigns to the variables it captures, and \<open>d\<close> is
  what they hold beforehand.  \<open>None\<close> is a call that waits for a slot only others can free.
\<close>

record ('c, 'w) exec_env =
  poolOpts :: "('c, 'w) pool_options"
  classifyCode :: "int \<Rightarrow> kind option"
  retryable :: "kind \<Rightarrow> bool"
  backoff :: "nat \<Rightarrow> 'w \<Rightarrow> go_error option \<times> 'w"
  maxAttempts :: int

text \<open>What an error of \<open>Acquire\<close> becomes.\<close>

definition acquire_error :: "('c, 'w) exec_env \<Rightarrow> string \<Rightarrow> go_error \<Rightarrow> ad_error" where
  "acquire_error env op err =
     (if as_raw err \<noteq> None then Classify_err (classifyCode env) op err
      else if list_ex is_rejected (error_chain err)
      then AdError KindDenied op [] [] 0 [] False (Some err)
      else AdError KindTransport op [] [] 0 [] False (Some err))"

text \<open>The loop: \<open>attempt\<close> is the attempt's number, the counter what is left of \<open>MaxAttempts\<close>.\<close>

fun withConn_loop ::
  "('c, 'w) exec_env \<Rightarrow> string \<Rightarrow> 'a \<Rightarrow> ('c \<Rightarrow> 'w \<Rightarrow> 'a res \<times> 'w) \<Rightarrow> go_error option \<Rightarrow> nat \<Rightarrow> nat \<Rightarrow>
     'c pool \<Rightarrow> 'w \<Rightarrow> ('a res \<times> 'c pool \<times> 'w) option" where
  "withConn_loop env op d fn lastErr attempt 0 p w =
     Some (case lastErr of None \<Rightarrow> Inr d | Some e \<Rightarrow> Inl e, p, w)"
| "withConn_loop env op d fn lastErr attempt (Suc k) p w =
     (case Acquire (poolOpts env) p w of
        None \<Rightarrow> None
      | Some (Inl err, p, w) \<Rightarrow> Some (Inl (ErrAd (acquire_error env op err)), p, w)
      | Some (Inr lease, p, w) \<Rightarrow>
          (case fn (leaseConn lease) w of
             (Inr x, w) \<Rightarrow> (case Release (poolOpts env) lease p w of (_, p, w) \<Rightarrow> Some (Inr x, p, w))
           | (Inl err, w) \<Rightarrow>
               (let e = Classify_err (classifyCode env) op err in
                case (if Kind e = KindTransport then Discard (poolOpts env) lease p w
                      else Release (poolOpts env) lease p w) of
                  (_, p, w) \<Rightarrow>
                    if \<not> retryable env (Kind e) \<or> k = 0 then Some (Inl (ErrAd e), p, w)
                    else case backoff env attempt w of
                        (Some err, w) \<Rightarrow> Some (Inl err, p, w)
                      | (None, w) \<Rightarrow> withConn_loop env op d fn (Some (ErrAd e)) (attempt + 1) k p w)))"

definition withConn ::
  "('c, 'w) exec_env \<Rightarrow> string \<Rightarrow> 'a \<Rightarrow> ('c \<Rightarrow> 'w \<Rightarrow> 'a res \<times> 'w) \<Rightarrow>
     'c pool \<Rightarrow> 'w \<Rightarrow> ('a res \<times> 'c pool \<times> 'w) option" where
  "withConn env op d fn p w = withConn_loop env op d fn None 1 (nat (maxAttempts env)) p w"

section \<open>Slots\<close>

lemma lease_back:
  assumes "Acquire opts p w = Some (Inr l, p1, w1)"
    and "(if dead then Discard opts l p1 w2 else Release opts l p1 w2) = (l', p2, w3)"
  shows "sem p2 = sem p \<and> Size p2 = Size p"
  using leases.give_back [of opts p w l p1 w1 dead p1 w2 l' p2 w3] assms
  by (auto split: if_splits)

text \<open>One attempt, with the ways it can end.\<close>

definition hand_back ::
  "('c, 'w) exec_env \<Rightarrow> ad_error \<Rightarrow> 'c lease \<Rightarrow> 'c pool \<Rightarrow> 'w \<Rightarrow> 'c lease \<times> 'c pool \<times> 'w" where
  "hand_back env e l p w =
     (if Kind e = KindTransport then Discard (poolOpts env) l p w else Release (poolOpts env) l p w)"

lemma attempt_cases:
  obtains (wait) "Acquire (poolOpts env) p w = None"
    "withConn_loop env op d fn lastErr n (Suc k) p w = None"
  | (refused) err p1 w1 where "Acquire (poolOpts env) p w = Some (Inl err, p1, w1)"
    "withConn_loop env op d fn lastErr n (Suc k) p w =
       Some (Inl (ErrAd (acquire_error env op err)), p1, w1)"
  | (success) l p1 w1 x w2 l' p2 w3 where "Acquire (poolOpts env) p w = Some (Inr l, p1, w1)"
    "fn (leaseConn l) w1 = (Inr x, w2)" "Release (poolOpts env) l p1 w2 = (l', p2, w3)"
    "withConn_loop env op d fn lastErr n (Suc k) p w = Some (Inr x, p2, w3)"
  | (failure) l p1 w1 err w2 l' p2 w3 where "Acquire (poolOpts env) p w = Some (Inr l, p1, w1)"
    "fn (leaseConn l) w1 = (Inl err, w2)"
    "hand_back env (Classify_err (classifyCode env) op err) l p1 w2 = (l', p2, w3)"
    "\<not> retryable env (Kind (Classify_err (classifyCode env) op err)) \<or> k = 0"
    "withConn_loop env op d fn lastErr n (Suc k) p w =
       Some (Inl (ErrAd (Classify_err (classifyCode env) op err)), p2, w3)"
  | (cancelled) l p1 w1 err w2 l' p2 w3 b w4 where "Acquire (poolOpts env) p w = Some (Inr l, p1, w1)"
    "fn (leaseConn l) w1 = (Inl err, w2)"
    "hand_back env (Classify_err (classifyCode env) op err) l p1 w2 = (l', p2, w3)"
    "backoff env n w3 = (Some b, w4)"
    "withConn_loop env op d fn lastErr n (Suc k) p w = Some (Inl b, p2, w4)"
  | (retry) l p1 w1 err w2 l' p2 w3 w4 where "Acquire (poolOpts env) p w = Some (Inr l, p1, w1)"
    "fn (leaseConn l) w1 = (Inl err, w2)"
    "hand_back env (Classify_err (classifyCode env) op err) l p1 w2 = (l', p2, w3)"
    "retryable env (Kind (Classify_err (classifyCode env) op err))" "k \<noteq> 0"
    "backoff env n w3 = (None, w4)"
    "withConn_loop env op d fn lastErr n (Suc k) p w =
       withConn_loop env op d fn (Some (ErrAd (Classify_err (classifyCode env) op err))) (n + 1) k p2 w4"
proof (cases "Acquire (poolOpts env) p w")
  case None
  then show thesis by (intro wait) simp_all
next
  case (Some t)
  then obtain a p1 w1 where acq: "Acquire (poolOpts env) p w = Some (a, p1, w1)" by (cases t) auto
  show thesis
  proof (cases a)
    case (Inl err)
    with acq show thesis by (intro refused) simp_all
  next
    case (Inr l)
    note acq = acq [unfolded Inr]
    obtain x w2 where fn: "fn (leaseConn l) w1 = (x, w2)" by (cases "fn (leaseConn l) w1")
    show thesis
    proof (cases x)
      case (Inr y)
      obtain l' p2 w3 where "Release (poolOpts env) l p1 w2 = (l', p2, w3)" by (metis prod_cases3)
      with acq fn Inr show thesis by (intro success) simp_all
    next
      case (Inl err)
      note fn = fn [unfolded Inl]
      let ?e = "Classify_err (classifyCode env) op err"
      obtain l' p2 w3 where hb: "hand_back env ?e l p1 w2 = (l', p2, w3)" by (metis prod_cases3)
      obtain b w4 where bo: "backoff env n w3 = (b, w4)" by (cases "backoff env n w3")
      note eqs = acq fn hb hb [unfolded hand_back_def] bo
      show thesis
      proof (cases "\<not> retryable env (Kind ?e) \<or> k = 0")
        case True
        show thesis by (rule failure [OF acq fn hb True]) (use eqs True in \<open>simp add: Let_def\<close>)
      next
        case False
        with eqs show thesis
          by (cases b) (auto simp: Let_def intro: cancelled [OF acq fn hb] retry [OF acq fn hb])
      qed
    qed
  qed
qed

lemma hand_back_slots:
  assumes "Acquire (poolOpts env) p w = Some (Inr l, p1, w1)" "hand_back env e l p1 w2 = (l', p2, w3)"
  shows "sem p2 = sem p \<and> Size p2 = Size p"
  using lease_back [OF assms(1), of "Kind e = KindTransport"] assms(2) by (simp add: hand_back_def)

lemma withConn_loop_slots:
  "withConn_loop env op d fn lastErr n k p w = Some (r, p', w') \<Longrightarrow> sem p' = sem p \<and> Size p' = Size p"
proof (induction k arbitrary: lastErr n p w)
  case (Suc k)
  show ?case
  proof (cases rule: attempt_cases [of env p w op d fn lastErr n k])
    case (refused err p1 w1)
    with Suc.prems leases.acquire_err show ?thesis by fastforce
  next
    case (success l p1 w1 x w2 l' p2 w3)
    with Suc.prems lease_back [of "poolOpts env" p w l p1 w1 False] show ?thesis by simp
  next
    case (retry l p1 w1 err w2 l' p2 w3 w4)
    with Suc hand_back_slots [OF retry(1,3)] show ?thesis by simp
  qed (use Suc.prems hand_back_slots in \<open>force+\<close>)
qed simp

lemma withConn_loop_returns:
  "sem p < Size p \<Longrightarrow> withConn_loop env op d fn lastErr n k p w \<noteq> None"
proof (induction k arbitrary: lastErr n p w)
  case (Suc k)
  show ?case
  proof (cases rule: attempt_cases [of env p w op d fn lastErr n k])
    case wait
    with leases.acquire_free [OF Suc.prems, of "poolOpts env" w] show ?thesis by simp
  next
    case (retry l p1 w1 err w2 l' p2 w3 w4)
    with Suc hand_back_slots [OF retry(1,3)] show ?thesis by simp
  qed simp_all
qed simp

section \<open>Open connections\<close>

text \<open>
  \<open>L\<close> counts the open connections of the world: a dial opens one, a close closes one, and nothing else the
  pool does changes it.  Whatever \<open>withConn\<close> does, what it opened is idle in the pool or closed again.
\<close>

definition ledger :: "('w \<Rightarrow> int) \<Rightarrow> ('c \<Rightarrow> bool) \<Rightarrow> ('c, 'w) exec_env \<Rightarrow> bool" where
  "ledger L G env \<longleftrightarrow>
     (\<forall>w. case oDial (poolOpts env) w of (Inr c, w') \<Rightarrow> G c \<and> L w' = L w + 1 | (Inl _, w') \<Rightarrow> L w' = L w) \<and>
     (\<forall>c w. G c \<longrightarrow> L (snd (oBind (poolOpts env) c w)) = L w \<and> L (snd (oClose (poolOpts env) c w)) = L w - 1) \<and>
     (\<forall>n w. L (snd (backoff env n w)) = L w)"

abbreviation balance :: "('w \<Rightarrow> int) \<Rightarrow> 'c pool \<Rightarrow> 'w \<Rightarrow> int" where
  "balance L p w \<equiv> L w - int (length (idle p))"

lemma ledger_dial:
  assumes "ledger L G env"
  shows "oDial (poolOpts env) w = (Inr c, w') \<Longrightarrow> G c \<and> L w' = L w + 1"
    "oDial (poolOpts env) w = (Inl e, w') \<Longrightarrow> L w' = L w"
proof -
  have "case oDial (poolOpts env) w of (Inr c, w') \<Rightarrow> G c \<and> L w' = L w + 1 | (Inl _, w') \<Rightarrow> L w' = L w"
    by (rule assms [unfolded ledger_def, THEN conjunct1, THEN spec])
  then show "oDial (poolOpts env) w = (Inr c, w') \<Longrightarrow> G c \<and> L w' = L w + 1"
    "oDial (poolOpts env) w = (Inl e, w') \<Longrightarrow> L w' = L w" by simp_all
qed

lemma ledger_conn:
  assumes "ledger L G env"
  shows "G c \<Longrightarrow> oBind (poolOpts env) c w = (r, w') \<Longrightarrow> L w' = L w"
    "G c \<Longrightarrow> L (snd (oClose (poolOpts env) c w)) = L w - 1"
    "backoff env n w = (b, w') \<Longrightarrow> L w' = L w"
  using assms unfolding ledger_def by (metis snd_conv)+

lemma ledger_slot:
  assumes led: "ledger L G env" and i: "list_all G (idle p)"
    and eq: "acquire_slot (poolOpts env) p w = (r, p', w')"
  shows "list_all G (idle p') \<and>
    (case r of Inr l \<Rightarrow> G (leaseConn l) \<and> \<not> once l \<and> balance L p' w' = balance L p w + 1
     | Inl e \<Rightarrow> balance L p' w' = balance L p w)"
proof (cases "closed p \<or> idle p \<noteq> []")
  case True
  have "idle p \<noteq> [] \<Longrightarrow> G (last (idle p)) \<and> list_all G (butlast (idle p))"
    using i by (auto simp: list_all_iff dest: in_set_butlastD)
  with True eq i show ?thesis
    by (cases "closed p") (auto simp: acquire_slot_def of_nat_diff Suc_le_eq)
next
  case False
  obtain d w1 where d: "oDial (poolOpts env) w = (d, w1)" by fastforce
  show ?thesis
  proof (cases d)
    case (Inl e)
    with False d eq ledger_dial(2) [OF led] show ?thesis by (auto simp: acquire_slot_def)
  next
    case (Inr c)
    with d have c: "G c" "L w1 = L w + 1" using ledger_dial(1) [OF led] by auto
    obtain b w2 where b: "oBind (poolOpts env) c w1 = (b, w2)" by fastforce
    with c ledger_conn(1) [OF led c(1) b] ledger_conn(2) [OF led c(1), of w2] False d Inr eq show ?thesis
      by (cases b) (auto simp: acquire_slot_def)
  qed
qed

lemma ledger_Acquire:
  assumes "ledger L G env" "list_all G (idle p)" "Acquire (poolOpts env) p w = Some (r, p', w')"
  shows "list_all G (idle p') \<and>
    (case r of Inr l \<Rightarrow> G (leaseConn l) \<and> \<not> once l \<and> balance L p' w' = balance L p w + 1
     | Inl e \<Rightarrow> balance L p' w' = balance L p w)"
  using ledger_slot [OF assms(1), of "p\<lparr>sem := sem p + 1\<rparr>" w r p' w'] assms(2,3)
  by (cases r) (auto simp: Acquire_def split: if_split_asm)

lemma ledger_back:
  assumes "ledger L G env" "list_all G (idle p)" "G (leaseConn l)" "\<not> once l"
  shows "Release (poolOpts env) l p w = (l', p', w') \<Longrightarrow> list_all G (idle p') \<and> balance L p' w' = balance L p w - 1"
    "Discard (poolOpts env) l p w = (l', p', w') \<Longrightarrow> list_all G (idle p') \<and> balance L p' w' = balance L p w - 1"
    "hand_back env e l p w = (l', p', w') \<Longrightarrow> list_all G (idle p') \<and> balance L p' w' = balance L p w - 1"
  using assms by (auto simp: hand_back_def Release_def Discard_def ledger_conn split: if_split_asm)

lemma withConn_loop_ledger:
  assumes led: "ledger L G env" and fn: "\<And>c w r w'. G c \<Longrightarrow> fn c w = (r, w') \<Longrightarrow> L w' = L w"
  shows "withConn_loop env op d fn lastErr n k p w = Some (r, p', w') \<Longrightarrow> list_all G (idle p) \<Longrightarrow>
    list_all G (idle p') \<and> balance L p' w' = balance L p w"
proof (induction k arbitrary: lastErr n p w)
  case (Suc k)
  note acq = ledger_Acquire [OF led Suc.prems(2)]
  show ?case
  proof (cases rule: attempt_cases [of env p w op d fn lastErr n k])
    case wait
    with Suc.prems show ?thesis by simp
  next
    case (refused err p1 w1)
    with acq [OF refused(1)] Suc.prems show ?thesis by auto
  next
    case (success l p1 w1 x w2 l' p2 w3)
    with acq [OF success(1)] fn [OF _ success(2)] ledger_back(1) [OF led _ _ _ success(3)] Suc.prems
    show ?thesis by auto
  next
    case (failure l p1 w1 err w2 l' p2 w3)
    with acq [OF failure(1)] fn [OF _ failure(2)] ledger_back(3) [OF led _ _ _ failure(3)] Suc.prems
    show ?thesis by auto
  next
    case (cancelled l p1 w1 err w2 l' p2 w3 b w4)
    with acq [OF cancelled(1)] fn [OF _ cancelled(2)] ledger_back(3) [OF led _ _ _ cancelled(3)]
      ledger_conn(3) [OF led cancelled(4)] Suc.prems
    show ?thesis by auto
  next
    case (retry l p1 w1 err w2 l' p2 w3 w4)
    with acq [OF retry(1)] fn [OF _ retry(2)] ledger_back(3) [OF led _ _ _ retry(3)]
      ledger_conn(3) [OF led retry(6)] Suc.prems Suc.IH
    show ?thesis by auto
  qed
qed simp

lemma ledger_close_all:
  "ledger L G env \<Longrightarrow> list_all G cs \<Longrightarrow> close_all (poolOpts env) cs e w = (r, w') \<Longrightarrow> L w' = L w - int (length cs)"
proof (induction cs arbitrary: e w)
  case (Cons c cs)
  obtain x w1 where c: "oClose (poolOpts env) c w = (x, w1)" by fastforce
  with ledger_conn(2) [OF Cons.prems(1), of c w] Cons show ?case
    by (fastforce simp: c)
qed simp

lemma ledger_Close:
  "ledger L G env \<Longrightarrow> list_all G (idle p) \<Longrightarrow> Close_pool (poolOpts env) p w = (r, p', w') \<Longrightarrow>
     L w' = balance L p w \<and> idle p' = [] \<and> closed p' \<and> sem p' = sem p"
  using ledger_close_all by (fastforce simp: Close_pool_def split: prod.split_asm)

section \<open>Attempts\<close>

text \<open>
  To count how often the operation runs, its outcomes are recorded in the world: \<open>logged\<close> runs the
  operation and appends its result, \<open>with_log\<close> lets every other effect pass the record through.
\<close>

definition logged :: "('c \<Rightarrow> 'w \<Rightarrow> 'a res \<times> 'w) \<Rightarrow> 'c \<Rightarrow> 'a res list \<times> 'w \<Rightarrow> 'a res \<times> 'a res list \<times> 'w" where
  "logged fn c lw = (case fn c (snd lw) of (r, w) \<Rightarrow> (r, fst lw @ [r], w))"

definition with_log :: "('c, 'w) exec_env \<Rightarrow> ('c, 'a res list \<times> 'w) exec_env" where
  "with_log env =
     \<lparr>poolOpts = \<lparr>oDial = (\<lambda>(l, w). case oDial (poolOpts env) w of (r, w) \<Rightarrow> (r, l, w)),
                  oBind = (\<lambda>c (l, w). case oBind (poolOpts env) c w of (r, w) \<Rightarrow> (r, l, w)),
                  oClose = (\<lambda>c (l, w). case oClose (poolOpts env) c w of (r, w) \<Rightarrow> (r, l, w)),
                  oCtx = (\<lambda>(l, w). oCtx (poolOpts env) w),
                  oPick = (\<lambda>(l, w). oPick (poolOpts env) w)\<rparr>,
      classifyCode = classifyCode env,
      retryable = retryable env,
      backoff = (\<lambda>n (l, w). case backoff env n w of (r, w) \<Rightarrow> (r, l, w)),
      maxAttempts = maxAttempts env\<rparr>"

lemma with_log_simps [simp]:
  "classifyCode (with_log env) = classifyCode env" "retryable (with_log env) = retryable env"
  "maxAttempts (with_log env) = maxAttempts env"
  by (simp_all add: with_log_def)

lemma with_log_pass:
  "Acquire (poolOpts (with_log env)) p (log, w) = Some (a, p1, log1, w1) \<Longrightarrow> log1 = log"
  "Release (poolOpts (with_log env)) l p (log, w) = (l', p2, log2, w2) \<Longrightarrow> log2 = log"
  "hand_back (with_log env) e l p (log, w) = (l', p2, log2, w2) \<Longrightarrow> log2 = log"
  "backoff (with_log env) n (log, w) = (b, log2, w2) \<Longrightarrow> log2 = log"
  by (auto simp: Acquire_def acquire_slot_def Release_def Discard_def hand_back_def with_log_def
      split: if_split_asm prod.split_asm sum.split_asm option.split_asm)

lemma withConn_loop_log:
  assumes "withConn_loop (with_log env) op d (logged fn) lastErr n k p (log, w) = Some (r, p', log', w')"
  shows "\<exists>new. log' = log @ new \<and> length new \<le> k \<and>
    (\<forall>x \<in> set (butlast new). \<exists>err. x = Inl err \<and>
       retryable env (Kind (Classify_err (classifyCode env) op err)))"
  using assms
proof (induction k arbitrary: lastErr n p log w)
  case (Suc k)
  have lg: "\<exists>w'. lw' = (log1 @ [r], w')" if "logged fn c (log1, w1) = (r, lw')" for c log1 w1 r lw'
    using that by (auto simp: logged_def split: prod.split_asm)
  show ?case
  proof (cases rule: attempt_cases [of "with_log env" p "(log, w)" op d "logged fn" lastErr n k])
    case wait
    with Suc.prems show ?thesis by simp
  next
    case (refused err p1 w1)
    with Suc.prems show ?thesis by (auto dest!: with_log_pass(1) intro!: exI [of _ "[]"])
  next
    case (success l p1 w1 x w2 l' p2 w3)
    with Suc.prems show ?thesis
      by (cases w1; cases w2; cases w3)
         (auto dest!: with_log_pass(1,2) lg intro!: exI [of _ "[Inr x]"])
  next
    case (failure l p1 w1 err w2 l' p2 w3)
    with Suc.prems show ?thesis
      by (cases w1; cases w2; cases w3)
         (auto dest!: with_log_pass(1,3) lg intro!: exI [of _ "[Inl err]"])
  next
    case (cancelled l p1 w1 err w2 l' p2 w3 b w4)
    with Suc.prems show ?thesis
      by (cases w1; cases w2; cases w3; cases w4)
         (auto dest!: with_log_pass(1,3,4) lg intro!: exI [of _ "[Inl err]"])
  next
    case (retry l p1 w1 err w2 l' p2 w3 w4)
    then obtain v4 where w4: "w4 = (log @ [Inl err], v4)"
      by (cases w1; cases w2; cases w3; cases w4) (auto dest!: with_log_pass(1,3,4) lg)
    obtain new where new: "log' = (log @ [Inl err]) @ new" "length new \<le> k"
      "\<forall>x \<in> set (butlast new). \<exists>err. x = Inl err \<and>
         retryable env (Kind (Classify_err (classifyCode env) op err))"
      using Suc.IH Suc.prems retry(7) w4 by (metis (no_types, lifting))
    with retry(4) show ?thesis by (intro exI [of _ "Inl err # new"]) auto
  qed
qed auto

section \<open>Properties\<close>

text \<open>
  C1. \<open>withConn\<close> gives back every slot it takes, on every path (a failed dial, a failed or discarded
  attempt, a cancelled pause, success), and it returns whenever a slot is free when it is called.
\<close>

theorem withConn_slots:
  "(withConn env op d fn p w = Some (r, p', w') \<longrightarrow> sem p' = sem p \<and> Size p' = Size p) \<and>
   (sem p < Size p \<longrightarrow> (\<exists>r p' w'. withConn env op d fn p w = Some (r, p', w')))"
proof (intro conjI impI)
  assume "withConn env op d fn p w = Some (r, p', w')"
  then show "sem p' = sem p" "Size p' = Size p"
    unfolding withConn_def using withConn_loop_slots by fast+
next
  assume "sem p < Size p"
  then have "withConn env op d fn p w \<noteq> None"
    unfolding withConn_def by (rule withConn_loop_returns)
  then show "\<exists>r p' w'. withConn env op d fn p w = Some (r, p', w')" by auto
qed

text \<open>
  C2. \<open>withConn\<close> runs the operation at most \<open>MaxAttempts\<close> times, and runs it again only after a result
  that classifies as a retryable kind: an operation that may have taken effect is not repeated.
\<close>

theorem withConn_attempts:
  assumes "withConn (with_log env) op d (logged fn) p ([], w) = Some (r, p', log, w')"
  shows "length log \<le> nat (maxAttempts env) \<and>
    (\<forall>x \<in> set (butlast log). \<exists>err. x = Inl err \<and>
       retryable env (Kind (Classify_err (classifyCode env) op err)))"
  using withConn_loop_log [OF assms [unfolded withConn_def]] by auto

text \<open>
  C3. A connection on which an operation failed with \<open>KindTransport\<close> is closed and does not go back to
  the idle list; the caller gets the classified error, and nothing is retried.
\<close>

theorem withConn_discards:
  assumes "Acquire (poolOpts env) p w = Some (Inr lease, p1, w1)"
    and "fn (leaseConn lease) w1 = (Inl err, w2)"
    and "Kind (Classify_err (classifyCode env) op err) = KindTransport"
    and "\<not> retryable env KindTransport" "1 \<le> maxAttempts env"
  shows "withConn env op d fn p w =
    Some (Inl (ErrAd (Classify_err (classifyCode env) op err)), p1\<lparr>sem := sem p1 - 1\<rparr>,
          snd (oClose (poolOpts env) (leaseConn lease) w2))"
proof -
  from assms(5) obtain k where k: "nat (maxAttempts env) = Suc k" by (cases "nat (maxAttempts env)") auto
  have "\<not> once lease" using leases.acquire_ok [OF assms(1)] by simp
  with assms k show ?thesis by (simp add: withConn_def Discard_def Let_def)
qed

subsection \<open>A pool over a server that is busy once\<close>

definition busy_env :: "(nat, nat) exec_env" where
  "busy_env = \<lparr>poolOpts = \<lparr>oDial = (\<lambda>w. (Inr w, w)), oBind = (\<lambda>c w. (None, w)),
       oClose = (\<lambda>c w. (None, w)), oCtx = (\<lambda>w. None), oPick = (\<lambda>w. True)\<rparr>,
     classifyCode = (\<lambda>_. None), retryable = (\<lambda>k. k = KindTransient),
     backoff = (\<lambda>n w. (None, w)), maxAttempts = 3\<rparr>"

definition busy_once :: "nat \<Rightarrow> nat \<Rightarrow> nat res \<times> nat" where
  "busy_once c w = (if w = 0 then (Inl (ErrRaw 51 ''busy'' None), 1) else (Inr w, w))"

lemma busy_kind: "Kind (Classify_err C op (ErrRaw 51 ''busy'' None)) = KindTransient"
  by (simp add: Classify_err_def errors_Is_def as_raw_def is_raw_def ExtractWin32Code_def byResultCode_def)

lemma busy_run:
  "withConn (with_log busy_env) ''op'' 0 (logged busy_once) (NewPool 1) ([], 0) =
     Some (Inr 1, NewPool 1\<lparr>idle := [0]\<rparr>, [Inl (ErrRaw 51 ''busy'' None), Inr 1], 1)"
  by (simp add: withConn_def with_log_def busy_env_def numeral_3_eq_3 Acquire_def acquire_slot_def NewPool_def
      logged_def busy_once_def busy_kind Let_def Release_def)

theorem withConn_slots_witness:
  "\<exists>r p' w'. withConn busy_env ''op'' 0 busy_once (NewPool 1) 0 = Some (r, p', w') \<and> sem p' = 0"
proof -
  have free: "sem (NewPool 1 :: nat pool) < Size (NewPool 1 :: nat pool)" "sem (NewPool 1 :: nat pool) = 0" by (simp_all add: NewPool_def)
  then obtain r p' w' where "withConn busy_env ''op'' 0 busy_once (NewPool 1) 0 = Some (r, p', w')"
    using withConn_slots [of busy_env "''op''" 0 busy_once "NewPool 1" 0, THEN conjunct2] by blast
  with withConn_slots [of busy_env "''op''" 0 busy_once "NewPool 1" 0 r p' w', THEN conjunct1] free(2)
  show ?thesis by auto
qed

theorem withConn_attempts_witness:
  "length [Inl (ErrRaw 51 ''busy'' None), Inr (1 :: nat)] \<le> nat (maxAttempts busy_env) \<and>
   retryable busy_env (Kind (Classify_err (classifyCode busy_env) ''op'' (ErrRaw 51 ''busy'' None)))"
  using withConn_attempts [OF busy_run] by simp

theorem withConn_discards_witness:
  "withConn busy_env ''op'' 0 (\<lambda>c w. (Inl (ErrMsg ''reset''), w)) (NewPool 1) 0 =
     Some (Inl (ErrAd (Classify_err (classifyCode busy_env) ''op'' (ErrMsg ''reset''))), NewPool 1, 0)"
proof -
  have "Acquire (poolOpts busy_env) (NewPool 1) 0 =
      Some (Inr \<lparr>leaseConn = 0, once = False\<rparr>, NewPool 1\<lparr>sem := 1\<rparr>, 0)"
    by (simp add: Acquire_def acquire_slot_def busy_env_def NewPool_def)
  moreover have "Kind (Classify_err (classifyCode busy_env) ''op'' (ErrMsg ''reset'')) = KindTransport"
    by (simp add: Classify_err_def errors_Is_def as_raw_def is_raw_def)
  moreover have "\<not> retryable busy_env KindTransport" "1 \<le> maxAttempts busy_env"
    "oClose (poolOpts busy_env) c w = (None, w)" for c w
    by (simp_all add: busy_env_def)
  ultimately show ?thesis
    using withConn_discards [of busy_env "NewPool 1" 0 "\<lparr>leaseConn = 0, once = False\<rparr>"
        "NewPool 1\<lparr>sem := 1\<rparr>" 0 "\<lambda>c w. (Inl (ErrMsg ''reset''), w)" "ErrMsg ''reset''" 0 "''op''" 0]
    by (simp add: NewPool_def)
qed

end
