(* ===== verification/Secdesc.thy ===== *)
theory Secdesc
  imports GoBase
begin

text \<open>
  Package \<open>internal/secdesc\<close>, file \<open>secdesc.go\<close>: self-relative security descriptors.
  \<open>parse\<close> and \<open>serialize\<close> read and write the 20-byte header and its four parts, \<open>aces\<close> and
  \<open>buildACL\<close> split and rebuild an ACL whose entries stay opaque bytes, and on top of them stand
  the two edits of the file: the deletion-protection entry (\<open>IsProtected\<close>, \<open>SetProtected\<close>) and
  the denied extended right (\<open>HasDeniedObjectRight\<close>, \<open>SetDeniedObjectRight\<close>).

  The locale \<open>dacl_edit\<close> is the contract those edits share with the ones of \<open>Ace\<close>: parse,
  edit the list of entries, rebuild.  Everything outside the DACL is kept.
\<close>

section \<open>Constants\<close>

abbreviation sdHeaderLen :: nat where "sdHeaderLen \<equiv> 20"
abbreviation aclHeaderLen :: nat where "aclHeaderLen \<equiv> 8"
abbreviation aceHeaderLen :: nat where "aceHeaderLen \<equiv> 4"

definition controlDACLPresent :: u16 where "controlDACLPresent = 0x0004"
definition controlSelfRel :: u16 where "controlSelfRel = 0x8000"

definition aceTypeAccessDenied :: byte where "aceTypeAccessDenied = 0x01"

definition rightDelete :: u32 where "rightDelete = 0x00010000"
definition rightDeleteTree :: u32 where "rightDeleteTree = 0x00000040"
definition protectionMask :: u32 where "protectionMask = rightDelete OR rightDeleteTree"

definition everyone :: bytes where
  "everyone = [1, 1, 0, 0, 0, 0, 0, 1, 0, 0, 0, 0]"

definition aceTypeDeniedObject :: byte where "aceTypeDeniedObject = 0x06"
definition aceObjectTypePresent :: u32 where "aceObjectTypePresent = 0x00000001"
definition aceInheritedObjectTypePresent :: u32 where "aceInheritedObjectTypePresent = 0x00000002"
definition RightControlAccess :: u32 where "RightControlAccess = 0x00000100"
definition aclRevisionDS :: byte where "aclRevisionDS = 4"

definition SIDEveryone :: bytes where "SIDEveryone = everyone"
definition SIDSelf :: bytes where
  "SIDSelf = [1, 1, 0, 0, 0, 0, 0, 5, 10, 0, 0, 0]"

section \<open>The descriptor\<close>

record parsed =
  revision :: byte
  sbz1 :: byte
  control :: u16
  owner :: bytes
  group :: bytes
  sacl :: bytes
  dacl :: bytes

definition sidLen :: "bytes \<Rightarrow> nat res" where
  "sidLen b =
     (if length b < 8 then Inl (ErrMsg ''secdesc: SID truncated'')
      else let n = 8 + 4 * unat (b ! 1) in
        if length b < n then Inl (ErrMsg ''secdesc: SID shorter than its sub-authority count'')
        else Inr n)"

definition aclLen :: "bytes \<Rightarrow> nat res" where
  "aclLen b =
     (if length b < aclHeaderLen then Inl (ErrMsg ''secdesc: ACL truncated'')
      else let n = unat (un_le16 (slice 2 4 b)) in
        if n < aclHeaderLen \<or> length b < n
        then Inl (ErrMsg ''secdesc: ACL shorter than its stated size'')
        else Inr n)"

text \<open>The closure \<open>slice\<close> of \<open>parse\<close>: one part, located by its offset; 0 means absent.\<close>

definition part_at :: "bytes \<Rightarrow> u32 \<Rightarrow> (bytes \<Rightarrow> nat res) \<Rightarrow> bytes res" where
  "part_at sd off len =
     (if off = 0 then Inr []
      else if length sd \<le> unat off
      then Inl (ErrMsg ''secdesc: offset past the end of the descriptor'')
      else bind_res (len (drop (unat off) sd)) (\<lambda>n.
        Inr (slice (unat off) (unat off + n) sd)))"

definition parse :: "bytes \<Rightarrow> parsed res" where
  "parse sd =
     (if length sd < sdHeaderLen
      then Inl (ErrMsg (''secdesc: descriptor is '' @ fmt_nat 10 (length sd) @ '' bytes, too short''))
      else let ctl = un_le16 (slice 2 4 sd) in
        if ctl AND controlSelfRel = 0 then Inl (ErrMsg ''secdesc: descriptor is not self-relative'')
        else
          bind_res (part_at sd (un_le32 (slice 4 8 sd)) sidLen) (\<lambda>own.
          bind_res (part_at sd (un_le32 (slice 8 12 sd)) sidLen) (\<lambda>grp.
          bind_res (part_at sd (un_le32 (slice 12 16 sd)) aclLen) (\<lambda>sac.
          bind_res (part_at sd (un_le32 (slice 16 20 sd)) aclLen) (\<lambda>dac.
          Inr \<lparr>revision = sd ! 0, sbz1 = sd ! 1, control = ctl,
               owner = own, group = grp, sacl = sac, dacl = dac\<rparr>)))))"

text \<open>The closure \<open>put\<close> of \<open>serialize\<close>: append a part and record its offset in the header.\<close>

definition put_part :: "bytes \<Rightarrow> nat \<Rightarrow> bytes \<Rightarrow> bytes" where
  "put_part part at out =
     (if part = [] then put_at at (le32 0) out
      else put_at at (le32 (word_of_nat (length out))) out @ part)"

definition serialize :: "parsed \<Rightarrow> bytes" where
  "serialize p =
     (let out = (replicate sdHeaderLen 0)[0 := revision p, 1 := sbz1 p];
          out = put_at 2 (le16 (control p)) out;
          out = put_part (sacl p) 12 out;
          out = put_part (dacl p) 16 out;
          out = put_part (owner p) 4 out;
          out = put_part (group p) 8 out
      in out)"

section \<open>Access-control lists\<close>

text \<open>
  The loop of \<open>aces\<close>: \<open>count\<close> entries from offset \<open>off\<close> on.  The slice expressions of
  \<open>aces\<close> are in range for an ACL of at least six bytes; a shorter non-empty one panics.
\<close>

fun aces_from :: "nat \<Rightarrow> nat \<Rightarrow> bytes \<Rightarrow> bytes list res" where
  "aces_from 0 off acl = Inr []"
| "aces_from (Suc count) off acl =
     (if length acl < off + aceHeaderLen
      then Inl (ErrMsg ''secdesc: ACE count exceeds the ACL body'')
      else let n = unat (un_le16 (slice (off + 2) (off + 4) acl)) in
        if n < aceHeaderLen \<or> length acl < off + n
        then Inl (ErrMsg ''secdesc: ACE shorter than its stated size'')
        else bind_res (aces_from count (off + n) acl) (\<lambda>out.
          Inr (slice off (off + n) acl # out)))"

definition aces :: "bytes \<Rightarrow> bytes list res" where
  "aces acl =
     (if acl = [] then Inr []
      else if length acl < 6 then Inl (GoPanic ''slice bounds out of range'')
      else aces_from (unat (un_le16 (slice 4 6 acl))) aclHeaderLen acl)"

definition acl_size :: "bytes list \<Rightarrow> nat" where
  "acl_size list = aclHeaderLen + sum_list (map length list)"

definition buildACL :: "byte \<Rightarrow> bytes list \<Rightarrow> bytes" where
  "buildACL r list =
     (let out = (replicate aclHeaderLen 0)[0 := r];
          out = put_at 2 (le16 (word_of_nat (acl_size list))) out;
          out = put_at 4 (le16 (word_of_nat (length list))) out
      in out @ concat list)"

section \<open>Deletion protection\<close>

definition isProtectionACE :: "bytes \<Rightarrow> bool" where
  "isProtectionACE ace =
     (if length ace < aceHeaderLen + 4 + length everyone then False
      else if ace ! 0 \<noteq> aceTypeAccessDenied then False
      else let msk = un_le32 (slice 4 8 ace) in
        if msk AND protectionMask = 0 then False
        else let sid = drop 8 ace in
          if length sid < length everyone then False
          else take (length everyone) sid = everyone)"

definition protectionACE :: bytes where
  "protectionACE =
     (let ace = replicate (aceHeaderLen + 4 + length everyone) 0;
          ace = ace[0 := aceTypeAccessDenied, 1 := 0];
          ace = put_at 2 (le16 (word_of_nat (length ace))) ace;
          ace = put_at 4 (le32 protectionMask) ace
      in put_at 8 everyone ace)"

definition IsProtected :: "bytes \<Rightarrow> bool res" where
  "IsProtected sd =
     bind_res (parse sd) (\<lambda>p.
     bind_res (aces (dacl p)) (\<lambda>list.
     Inr (list_ex isProtectionACE list)))"

definition SetProtected :: "bytes \<Rightarrow> bool \<Rightarrow> (bytes \<times> bool) res" where
  "SetProtected sd on =
     bind_res (parse sd) (\<lambda>p.
     bind_res (aces (dacl p)) (\<lambda>list.
       let kept = filter (\<lambda>a. \<not> isProtectionACE a) list;
           found = list_ex isProtectionACE list
       in if on = found then Inr (sd, False)
          else let kept = (if on then [protectionACE] @ kept else kept);
                   r = (if 0 < length (dacl p) then dacl p ! 0 else 2);
                   p = p\<lparr>dacl := buildACL r kept\<rparr>;
                   p = p\<lparr>control := control p OR controlDACLPresent\<rparr>
               in Inr (serialize p, True)))"

section \<open>Denied extended rights\<close>

definition deniedObject :: "bytes \<Rightarrow> u32 \<Rightarrow> bytes \<Rightarrow> bytes \<Rightarrow> bool" where
  "deniedObject ace msk objectType trustee =
     (if length ace < aceHeaderLen + 8 \<or> ace ! 0 \<noteq> aceTypeDeniedObject then False
      else if un_le32 (slice 4 8 ace) AND msk = 0 then False
      else let flags = un_le32 (slice 8 12 ace);
               tail = (\<lambda>off.
                 let off = (if flags AND aceInheritedObjectTypePresent \<noteq> 0 then off + 16 else off)
                 in off + length trustee \<le> length ace \<and>
                    slice off (off + length trustee) ace = trustee)
        in if flags AND aceObjectTypePresent \<noteq> 0
           then (if length ace < 12 + 16 then False
                 else if slice 12 28 ace \<noteq> objectType then False
                 else tail 28)
           else (if 0 < length objectType then False else tail 12))"

definition deniedObjectACE :: "u32 \<Rightarrow> bytes \<Rightarrow> bytes \<Rightarrow> bytes" where
  "deniedObjectACE msk objectType trustee =
     (let ace = replicate (aceHeaderLen + 4 + 4 + length objectType + length trustee) 0;
          ace = ace[0 := aceTypeDeniedObject, 1 := 0];
          ace = put_at 2 (le16 (word_of_nat (length ace))) ace;
          ace = put_at 4 (le32 msk) ace;
          ace = put_at 8 (le32 aceObjectTypePresent) ace;
          ace = put_at 12 objectType ace
      in put_at (12 + length objectType) trustee ace)"

text \<open>The inner loop over the trustees.\<close>

definition deniedToAny :: "u32 \<Rightarrow> bytes \<Rightarrow> bytes list \<Rightarrow> bytes \<Rightarrow> bool" where
  "deniedToAny msk objectType trustees ace =
     list_ex (\<lambda>t. deniedObject ace msk objectType t) trustees"

definition HasDeniedObjectRight :: "bytes \<Rightarrow> u32 \<Rightarrow> bytes \<Rightarrow> bytes list \<Rightarrow> bool res" where
  "HasDeniedObjectRight sd msk objectType trustees =
     bind_res (parse sd) (\<lambda>p.
     bind_res (aces (dacl p)) (\<lambda>list.
     Inr (list_ex (deniedToAny msk objectType trustees) list)))"

definition SetDeniedObjectRight ::
  "bytes \<Rightarrow> bool \<Rightarrow> u32 \<Rightarrow> bytes \<Rightarrow> bytes list \<Rightarrow> (bytes \<times> bool) res" where
  "SetDeniedObjectRight sd on msk objectType trustees =
     bind_res (parse sd) (\<lambda>p.
     bind_res (aces (dacl p)) (\<lambda>list.
       let kept = filter (\<lambda>a. \<not> deniedToAny msk objectType trustees a) list;
           removed = length (filter (deniedToAny msk objectType trustees) list);
           finish = (\<lambda>kept.
             let r = (if 0 < length (dacl p) \<and> aclRevisionDS < dacl p ! 0
                        then dacl p ! 0 else aclRevisionDS);
                 p = p\<lparr>dacl := buildACL r kept\<rparr>;
                 p = p\<lparr>control := control p OR controlDACLPresent\<rparr>
             in Inr (serialize p, True))
       in if \<not> on
          then (if removed = 0 then Inr (sd, False) else finish kept)
          else (if removed = length trustees \<and> 0 < removed then Inr (sd, False)
                else finish (map (deniedObjectACE msk objectType) trustees @ kept))))"

section \<open>Well-formed parts\<close>

text \<open>The offset \<open>serialize\<close> records for a part that is appended at position \<open>pos\<close>.\<close>

definition part_off :: "bytes \<Rightarrow> nat \<Rightarrow> u32" where
  "part_off part pos = (if part = [] then 0 else word_of_nat pos)"

lemma put_part_header:
  assumes "length h = 20" "at + 4 \<le> 20"
  shows "put_part part at (h @ body) =
    put_at at (le32 (part_off part (20 + length body))) h @ body @ part"
  using assms by (simp add: put_part_def part_off_def put_at_append)

lemma header_put:
  "put_at 8 (le32 d) (put_at 4 (le32 c) (put_at 16 (le32 b) (put_at 12 (le32 a)
     (put_at 2 (le16 e) ((replicate 20 0)[0 := x, 1 := y]))))) =
   [x, y] @ le16 e @ le32 c @ le32 d @ le32 a @ le32 b"
  by (simp add: put_at_def le32_def le16_def numeral_eq_Suc)

lemma serialize_eq:
  "serialize p =
     [revision p, sbz1 p] @ le16 (control p) @
     le32 (part_off (owner p) (20 + length (sacl p) + length (dacl p))) @
     le32 (part_off (group p) (20 + length (sacl p) + length (dacl p) + length (owner p))) @
     le32 (part_off (sacl p) 20) @ le32 (part_off (dacl p) (20 + length (sacl p))) @
     sacl p @ dacl p @ owner p @ group p"
proof -
  define h where "h = put_at 2 (le16 (control p)) ((replicate 20 0)[0 := revision p, 1 := sbz1 p])"
  have h: "length h = 20" by (simp add: h_def put_at_length)
  let ?h1 = "put_at 12 (le32 (part_off (sacl p) 20)) h"
  let ?h2 = "put_at 16 (le32 (part_off (dacl p) (20 + length (sacl p)))) ?h1"
  let ?h3 = "put_at 4 (le32 (part_off (owner p) (20 + length (sacl p) + length (dacl p)))) ?h2"
  have 1: "put_part (sacl p) 12 h = ?h1 @ sacl p"
    using put_part_header [of h 12 "sacl p" "[]"] h by simp
  have 2: "put_part (dacl p) 16 (?h1 @ sacl p) = ?h2 @ sacl p @ dacl p"
    using h by (simp add: put_part_header put_at_length)
  have 3: "put_part (owner p) 4 (?h2 @ sacl p @ dacl p) = ?h3 @ sacl p @ dacl p @ owner p"
    using h by (simp add: put_part_header put_at_length add.assoc)
  show ?thesis
    unfolding serialize_def Let_def h_def [symmetric] 1 2 3
    using h
    by (simp add: put_part_header put_at_length add.assoc)
       (simp add: h_def header_put [simplified])
qed

definition sid_ok :: "bytes \<Rightarrow> bool" where
  "sid_ok s \<longleftrightarrow> sidLen s = Inr (length s)"

definition acl_ok :: "bytes \<Rightarrow> bool" where
  "acl_ok a \<longleftrightarrow> aclLen a = Inr (length a)"

definition ace_ok :: "bytes \<Rightarrow> bool" where
  "ace_ok a \<longleftrightarrow> 4 \<le> length a \<and> unat (un_le16 (slice 2 4 a)) = length a"

definition parsed_ok :: "parsed \<Rightarrow> bool" where
  "parsed_ok p \<longleftrightarrow> control p AND controlSelfRel \<noteq> 0 \<and>
     (owner p = [] \<or> sid_ok (owner p)) \<and> (group p = [] \<or> sid_ok (group p)) \<and>
     (sacl p = [] \<or> acl_ok (sacl p)) \<and> (dacl p = [] \<or> acl_ok (dacl p))"

lemma sid_ok_iff: "sid_ok s \<longleftrightarrow> 8 \<le> length s \<and> length s = 8 + 4 * unat (s ! 1)"
  by (auto simp: sid_ok_def sidLen_def Let_def split: if_splits)

lemma acl_ok_iff: "acl_ok a \<longleftrightarrow> 8 \<le> length a \<and> unat (un_le16 (slice 2 4 a)) = length a"
  by (auto simp: acl_ok_def aclLen_def Let_def split: if_splits)

lemma sid_ok_append: "sid_ok s \<Longrightarrow> sidLen (s @ r) = Inr (length s)"
  by (auto simp: sid_ok_iff sidLen_def Let_def nth_append)

lemma acl_ok_append: "acl_ok a \<Longrightarrow> aclLen (a @ r) = Inr (length a)"
  by (auto simp: acl_ok_iff aclLen_def Let_def slice_append_left)

lemma sid_ok_length: "sid_ok s \<Longrightarrow> length s \<le> 1028"
  using byte_less [of "s ! 1"] by (simp add: sid_ok_iff)

lemma acl_ok_length: "acl_ok a \<Longrightarrow> length a < 65536"
  using unsigned_less [of "un_le16 (slice 2 4 a)", where ?'a = nat] by (simp add: acl_ok_iff)

lemma part_at_off:
  assumes "part = [] \<or> len (part @ r) = Inr (length part)" and "length a < 2 ^ 32" "0 < length a"
  shows "part_at (a @ part @ r) (part_off part (length a)) len = Inr part"
proof (cases "part = []")
  case False
  from assms(2) have u: "unat (word_of_nat (length a) :: u32) = length a"
    by (simp add: unat_of_nat)
  then have "(word_of_nat (length a) :: u32) \<noteq> 0" using assms(3) by auto
  with False u assms(1) show ?thesis
    by (simp add: part_at_def part_off_def slice_def)
qed (simp add: part_at_def part_off_def)

lemma slice_take: "j \<le> n \<Longrightarrow> slice i j (take n b) = slice i j b"
  by (simp add: slice_def drop_take)

lemma sidLen_take: "sidLen b = Inr n \<Longrightarrow> n \<le> length b \<and> sid_ok (take n b)"
  by (auto simp: sidLen_def sid_ok_iff Let_def split: if_splits)

lemma aclLen_take: "aclLen b = Inr n \<Longrightarrow> n \<le> length b \<and> acl_ok (take n b)"
  by (auto simp: aclLen_def acl_ok_iff Let_def slice_take split: if_splits)

lemma part_at_ok:
  "part_at sd off sidLen = Inr s \<Longrightarrow> s = [] \<or> sid_ok s"
  "part_at sd off aclLen = Inr a \<Longrightarrow> a = [] \<or> acl_ok a"
  by (auto simp: part_at_def slice_def dest: sidLen_take aclLen_take split: if_splits)

lemma parse_ok: "parse sd = Inr p \<Longrightarrow> parsed_ok p"
  by (auto simp: parse_def parsed_ok_def Let_def dest: part_at_ok split: if_splits)

lemma parse_serialize:
  assumes "parsed_ok p"
  shows "parse (serialize p) = Inr p"
proof -
  let ?s = "length (sacl p)" and ?d = "length (dacl p)" and ?o = "length (owner p)"
  define h where "h = [revision p, sbz1 p] @ le16 (control p) @
     le32 (part_off (owner p) (20 + ?s + ?d)) @ le32 (part_off (group p) (20 + ?s + ?d + ?o)) @
     le32 (part_off (sacl p) 20) @ le32 (part_off (dacl p) (20 + ?s))"
  have len: "length h = 20" by (simp add: h_def)
  have sd: "serialize p = h @ sacl p @ dacl p @ owner p @ group p"
    by (simp add: serialize_eq h_def)
  have small: "?s < 65536" "?d < 65536" "?o \<le> 1028"
    using assms sid_ok_length acl_ok_length by (force simp: parsed_ok_def)+
  have fits:
    "sacl p = [] \<or> aclLen (sacl p @ r) = Inr ?s" "dacl p = [] \<or> aclLen (dacl p @ r) = Inr ?d"
    "owner p = [] \<or> sidLen (owner p @ r) = Inr ?o"
    "group p = [] \<or> sidLen (group p @ r) = Inr (length (group p))" for r
    using assms by (auto simp: parsed_ok_def acl_ok_append sid_ok_append)
  have "part_at (serialize p) (part_off (sacl p) 20) aclLen = Inr (sacl p)"
    unfolding sd using part_at_off [of "sacl p" aclLen "dacl p @ owner p @ group p" h, OF fits(1)] len by simp
  moreover have "part_at (serialize p) (part_off (dacl p) (20 + ?s)) aclLen = Inr (dacl p)"
    unfolding sd using part_at_off [of "dacl p" aclLen "owner p @ group p" "h @ sacl p", OF fits(2)] len small by simp
  moreover have "part_at (serialize p) (part_off (owner p) (20 + ?s + ?d)) sidLen = Inr (owner p)"
    unfolding sd using part_at_off [of "owner p" sidLen "group p" "h @ sacl p @ dacl p", OF fits(3)] len small
    by (simp add: add.assoc)
  moreover have "part_at (serialize p) (part_off (group p) (20 + ?s + ?d + ?o)) sidLen = Inr (group p)"
    unfolding sd using part_at_off [of "group p" sidLen "[]" "h @ sacl p @ dacl p @ owner p", OF fits(4)] len small
    by (simp add: add.assoc)
  moreover have "slice 2 4 (serialize p) = le16 (control p)"
    "slice 4 8 (serialize p) = le32 (part_off (owner p) (20 + ?s + ?d))"
    "slice 8 12 (serialize p) = le32 (part_off (group p) (20 + ?s + ?d + ?o))"
    "slice 12 16 (serialize p) = le32 (part_off (sacl p) 20)"
    "slice 16 20 (serialize p) = le32 (part_off (dacl p) (20 + ?s))"
    "serialize p ! 0 = revision p" "serialize p ! 1 = sbz1 p" "20 \<le> length (serialize p)"
    unfolding sd h_def by (simp_all add: slice_def)
  ultimately show ?thesis
    using assms by (simp add: parse_def parsed_ok_def)
qed

lemma slice_mid:
  "slice (length a + i) (length a + j) (a @ b) = slice i j b"
  by (simp add: slice_def)

lemma ace_ok_append: "ace_ok a \<Longrightarrow> unat (un_le16 (slice 2 4 (a @ r))) = length a"
  by (simp add: ace_ok_def slice_append_left)

lemma aces_from_concat:
  "list_all ace_ok l \<Longrightarrow> aces_from (length l) (length h) (h @ concat l @ r) = Inr l"
proof (induction l arbitrary: h)
  case (Cons a l)
  let ?acl = "h @ a @ concat l @ r"
  from Cons.prems have a: "ace_ok a" "list_all ace_ok l" by simp_all
  have n: "unat (un_le16 (slice (length h + 2) (length h + 4) ?acl)) = length a"
    unfolding slice_mid by (rule ace_ok_append [OF a(1)])
  have "aces_from (length l) (length h + length a) ?acl = Inr l"
    using Cons.IH [OF a(2), of "h @ a"] by simp
  moreover have "slice (length h) (length h + length a) ?acl = a"
    by (simp add: slice_def)
  ultimately show ?case using a(1) n by (simp add: ace_ok_def)
qed simp

lemma aces_from_ok:
  "aces_from c off acl = Inr l \<Longrightarrow> off \<le> length acl \<Longrightarrow>
     list_all ace_ok l \<and> length l = c \<and> off + sum_list (map length l) \<le> length acl \<and>
     concat l = slice off (off + sum_list (map length l)) acl"
proof (induction c off acl arbitrary: l rule: aces_from.induct)
  case (2 c off acl)
  define n where "n = unat (un_le16 (slice (off + 2) (off + 4) acl))"
  from 2(2) obtain l' where l: "l = slice off (off + n) acl # l'"
    and n: "4 \<le> n" "off + n \<le> length acl" and rec: "aces_from c (off + n) acl = Inr l'"
    by (auto simp: Let_def n_def split: if_splits)
  have ih: "list_all ace_ok l' \<and> length l' = c \<and>
      off + n + sum_list (map length l') \<le> length acl \<and>
      concat l' = slice (off + n) (off + n + sum_list (map length l')) acl"
    using 2(1) [of n l'] 2(2) rec n by (auto simp: n_def split: if_splits)
  have "slice 2 4 (slice off (off + n) acl) = slice (off + 2) (off + 4) acl"
    using n by (simp add: slice_def drop_take)
  then have "ace_ok (slice off (off + n) acl)"
    using n by (simp add: ace_ok_def slice_length n_def)
  moreover have "slice off (off + n + m) acl = slice off (off + n) acl @ slice (off + n) (off + n + m) acl" for m
    using take_add [of n m "drop off acl"] by (simp add: slice_def add.commute)
  ultimately show ?case using ih n l by (simp add: slice_length add.assoc)
qed (simp add: slice_def)

lemma aces_ok:
  assumes "aces acl = Inr l" "acl = [] \<or> acl_ok acl"
  shows "list_all ace_ok l"
  using assms aces_from_ok by (auto simp: aces_def acl_ok_iff split: if_splits)

lemma buildACL_eq:
  "buildACL r l = [r, 0] @ le16 (word_of_nat (acl_size l)) @ le16 (word_of_nat (length l)) @ [0, 0] @ concat l"
  by (simp add: buildACL_def put_at_def le16_def numeral_eq_Suc)

lemma sum_list_ge4: "list_all ace_ok l \<Longrightarrow> 4 * length l \<le> sum_list (map length l)"
  by (induction l) (auto simp: ace_ok_def)

lemma length_buildACL: "length (buildACL r l) = acl_size l"
  by (simp add: buildACL_eq acl_size_def length_concat)

lemma aces_buildACL:
  assumes "list_all ace_ok l" "acl_size l < 65536"
  shows "aces (buildACL r l) = Inr l" "acl_ok (buildACL r l)"
proof -
  define h where "h = [r, 0] @ le16 (word_of_nat (acl_size l)) @ le16 (word_of_nat (length l)) @ [0, 0]"
  have h: "length h = 8" "buildACL r l = h @ concat l"
    by (simp_all add: h_def buildACL_eq)
  have n: "length l < 65536"
    using sum_list_ge4 [OF assms(1)] assms(2) by (simp add: acl_size_def)
  have s: "slice 2 4 (buildACL r l) = le16 (word_of_nat (acl_size l))"
    "slice 4 6 (buildACL r l) = le16 (word_of_nat (length l))"
    by (simp_all add: buildACL_eq slice_def)
  show "aces (buildACL r l) = Inr l"
    using aces_from_concat [OF assms(1), of h "[]"] h n s
    by (auto simp: aces_def unat_of_nat)
  show "acl_ok (buildACL r l)"
    unfolding acl_ok_iff length_buildACL s un_le16_le16'
    using assms(2) by (simp add: unat_of_nat acl_size_def [of l] del: of_nat_add)
qed

section \<open>Edits of the DACL\<close>

definition with_dacl :: "parsed \<Rightarrow> byte \<Rightarrow> bytes list \<Rightarrow> parsed" where
  "with_dacl p r l = p\<lparr>dacl := buildACL r l, control := control p OR controlDACLPresent\<rparr>"

lemma with_dacl_frame [simp]:
  "revision (with_dacl p r l) = revision p" "sbz1 (with_dacl p r l) = sbz1 p"
  "owner (with_dacl p r l) = owner p" "group (with_dacl p r l) = group p"
  "sacl (with_dacl p r l) = sacl p" "dacl (with_dacl p r l) = buildACL r l"
  "control (with_dacl p r l) = control p OR controlDACLPresent"
  by (simp_all add: with_dacl_def)

lemma or_and_nonzero: "(a :: 'a::len word) AND b \<noteq> 0 \<Longrightarrow> (a OR c) AND b \<noteq> 0"
  by (metis and_zero_eq bit.conj_disj_distrib2 or_eq_0_iff)

lemma parse_with_dacl:
  assumes "parse sd = Inr p" "list_all ace_ok l" "acl_size l < 65536"
  shows "parse (serialize (with_dacl p r l)) = Inr (with_dacl p r l)"
proof -
  have "(control p OR controlDACLPresent) AND controlSelfRel \<noteq> 0"
    using parse_ok [OF assms(1)] by (simp add: parsed_ok_def or_and_nonzero)
  then have "parsed_ok (with_dacl p r l)"
    using parse_ok [OF assms(1)] aces_buildACL(2) [OF assms(2,3)] by (simp add: parsed_ok_def)
  then show ?thesis by (rule parse_serialize)
qed

lemma parse_dacl_entries_ok:
  "parse sd = Inr p \<Longrightarrow> aces (dacl p) = Inr l \<Longrightarrow> list_all ace_ok l"
  using aces_ok parse_ok by (auto simp: parsed_ok_def)

locale dacl_edit =
  fixes act :: "bytes \<Rightarrow> (bytes \<times> bool) res"
    and edit :: "bytes list \<Rightarrow> bytes list option res"
    and rev_for :: "bytes \<Rightarrow> bytes list \<Rightarrow> byte"
  assumes act_eq:
      "act sd = bind_res (parse sd) (\<lambda>p. bind_res (aces (dacl p)) (\<lambda>l. bind_res (edit l) (\<lambda>e.
         case e of
           None \<Rightarrow> Inr (sd, False)
         | Some k \<Rightarrow> Inr (serialize (with_dacl p (rev_for (dacl p) k) k), True))))"
    and edit_ok:
      "list_all ace_ok l \<Longrightarrow> edit l = Inr (Some k) \<Longrightarrow> acl_size k < 65536 \<Longrightarrow> list_all ace_ok k"
begin

lemma act_unchanged: "act sd = Inr (out, False) \<Longrightarrow> out = sd"
  by (auto simp: act_eq split: option.splits)

lemma act_cases:
  assumes "parse sd = Inr p" "aces (dacl p) = Inr l" "edit l = Inr e"
  shows "act sd = (case e of None \<Rightarrow> Inr (sd, False)
    | Some k \<Rightarrow> Inr (serialize (with_dacl p (rev_for (dacl p) k) k), True))"
  using assms by (simp add: act_eq)

lemma act_view:
  assumes "parse sd = Inr p" "aces (dacl p) = Inr l" "edit l = Inr (Some k)" "acl_size k < 65536"
  shows "\<exists>out. act sd = Inr (out, True) \<and>
    parse out = Inr (with_dacl p (rev_for (dacl p) k) k) \<and>
    aces (dacl (with_dacl p (rev_for (dacl p) k) k)) = Inr k"
  using assms edit_ok [OF parse_dacl_entries_ok [OF assms(1,2)] assms(3,4)]
  by (simp add: act_eq parse_with_dacl aces_buildACL(1))

lemma act_again:
  assumes "parse sd = Inr p" "aces (dacl p) = Inr l" "edit l = Inr (Some k)" "acl_size k < 65536"
    "edit k = Inr None"
  shows "\<exists>out. act sd = Inr (out, True) \<and> act out = Inr (out, False)"
  using act_view [OF assms(1-4)] assms(5) by (auto simp: act_eq)

lemma act_error:
  "act sd = Inl e \<longleftrightarrow> parse sd = Inl e \<or> (\<exists>p. parse sd = Inr p \<and>
     (aces (dacl p) = Inl e \<or> (\<exists>l. aces (dacl p) = Inr l \<and> edit l = Inl e)))"
  by (auto simp: act_eq bind_res_eq_Inl split: option.splits)

end

section \<open>Deletion protection\<close>

definition protect_edit :: "bool \<Rightarrow> bytes list \<Rightarrow> bytes list option" where
  "protect_edit on l =
     (if on = list_ex isProtectionACE l then None
      else Some ((if on then [protectionACE] else []) @ filter (\<lambda>a. \<not> isProtectionACE a) l))"

definition keep_revision :: "bytes \<Rightarrow> bytes list \<Rightarrow> byte" where
  "keep_revision d l = (if 0 < length d then d ! 0 else 2)"

lemma length_everyone: "length everyone = 12" by (simp add: everyone_def)

lemma put_at_header:
  "put_at 4 (le32 m) (put_at 2 (le16 n) ((replicate (8 + k) 0)[0 := t, 1 := f])) =
     [t, f] @ le16 n @ le32 m @ replicate k 0"
  by (simp add: put_at_def le16_def le32_def numeral_eq_Suc)

lemma protectionACE_eq:
  "protectionACE = [1, 0] @ le16 20 @ le32 protectionMask @ everyone"
proof -
  have "put_at 8 everyone ([1, 0] @ le16 20 @ le32 protectionMask @ replicate 12 0) =
      [1, 0] @ le16 20 @ le32 protectionMask @ everyone"
    by (simp add: put_at_def length_everyone)
  then show ?thesis
    unfolding protectionACE_def Let_def length_everyone
    using put_at_header [of protectionMask 20 12 aceTypeAccessDenied 0]
    by (simp add: aceTypeAccessDenied_def)
qed

lemma protectionACE_ok: "ace_ok protectionACE" "isProtectionACE protectionACE" "length protectionACE = 20"
proof -
  show "length protectionACE = 20" by (simp add: protectionACE_eq length_everyone)
  show "ace_ok protectionACE" by (simp add: protectionACE_eq ace_ok_def slice_def length_everyone)
  have "protectionMask \<noteq> 0" by (simp add: protectionMask_def rightDelete_def rightDeleteTree_def)
  then show "isProtectionACE protectionACE"
    by (simp add: protectionACE_eq isProtectionACE_def slice_def length_everyone aceTypeAccessDenied_def)
qed
lemma list_all_filter [simp]: "list_all P l \<Longrightarrow> list_all P (filter Q l)"
  by (simp add: list_all_iff)

interpretation prot: dacl_edit "\<lambda>sd. SetProtected sd on" "\<lambda>l. Inr (protect_edit on l)" keep_revision
  for on
proof unfold_locales
  fix sd
  show "SetProtected sd on = bind_res (parse sd) (\<lambda>p. bind_res (aces (dacl p)) (\<lambda>l.
      bind_res (Inr (protect_edit on l)) (\<lambda>e. case e of None \<Rightarrow> Inr (sd, False)
      | Some k \<Rightarrow> Inr (serialize (with_dacl p (keep_revision (dacl p) k) k), True))))"
    unfolding SetProtected_def
    by (intro bind_res_cong refl)
       (auto simp: protect_edit_def keep_revision_def with_dacl_def Let_def)
next
  fix l k
  assume "list_all ace_ok l" "(Inr (protect_edit on l) :: bytes list option res) = Inr (Some k)"
  then show "list_all ace_ok k"
    by (auto simp: protect_edit_def protectionACE_ok split: if_splits)
qed

lemma acl_size_filter: "acl_size (filter P l) \<le> acl_size l"
  by (induction l) (auto simp: acl_size_def)

lemma acl_size_Cons: "acl_size (a # l) = length a + acl_size l"
  by (simp add: acl_size_def)

lemma acl_size_append: "acl_size (k @ l) = sum_list (map length k) + acl_size l"
  by (simp add: acl_size_def)

lemma protect_edit_None: "protect_edit on l = None \<longleftrightarrow> list_ex isProtectionACE l = on"
  by (auto simp: protect_edit_def)

lemma protect_edit_Some:
  assumes "protect_edit on l = Some k"
  shows "list_ex isProtectionACE k = on" "acl_size k \<le> acl_size l + 20"
    "filter (\<lambda>a. \<not> isProtectionACE a) k = filter (\<lambda>a. \<not> isProtectionACE a) l"
    "on \<Longrightarrow> k \<noteq> [] \<and> hd k = protectionACE"
  using assms acl_size_filter [of "\<lambda>a. \<not> isProtectionACE a" l]
  by (auto simp: protect_edit_def protectionACE_ok list_ex_iff acl_size_Cons split: if_splits)

lemma set_protected_reaches:
  assumes "parse sd = Inr p" "aces (dacl p) = Inr l" "acl_size l + 20 < 65536"
  shows "\<exists>out ok. SetProtected sd on = Inr (out, ok) \<and> IsProtected out = Inr on \<and>
    (ok \<longleftrightarrow> IsProtected sd \<noteq> Inr on) \<and> (\<not> ok \<longrightarrow> out = sd)"
proof (cases "protect_edit on l")
  case None
  then have "SetProtected sd on = Inr (sd, False)"
    using prot.act_cases [OF assms(1,2) refl, of on] by simp
  with None assms show ?thesis by (auto simp: IsProtected_def protect_edit_None)
next
  case (Some k)
  note k = protect_edit_Some [OF Some]
  have "\<exists>out. SetProtected sd on = Inr (out, True) \<and> IsProtected out = Inr on"
    using prot.act_view [OF assms(1,2), of on k] Some k(1,2) assms(3)
    by (auto simp: IsProtected_def)
  moreover have "IsProtected sd \<noteq> Inr on"
    using assms(1,2) Some by (auto simp: IsProtected_def protect_edit_def split: if_splits)
  ultimately show ?thesis by auto
qed

text \<open>
  C8. \<open>SetProtected\<close> reaches the requested state and is idempotent: on every descriptor that
  parses and whose DACL has room for one more entry it succeeds, \<open>IsProtected\<close> of the result is
  the requested value, the change flag is set exactly when the state differed, and a second call
  changes nothing.
\<close>

theorem SetProtected_correct:
  assumes "parse sd = Inr p" "aces (dacl p) = Inr l" "acl_size l + 20 < 65536"
  shows "\<exists>out ok. SetProtected sd on = Inr (out, ok) \<and> IsProtected out = Inr on \<and>
    (ok \<longleftrightarrow> IsProtected sd \<noteq> Inr on) \<and> (\<not> ok \<longrightarrow> out = sd) \<and>
    SetProtected out on = Inr (out, False)"
proof -
  obtain out ok where s: "SetProtected sd on = Inr (out, ok)" "IsProtected out = Inr on"
    "ok \<longleftrightarrow> IsProtected sd \<noteq> Inr on" "\<not> ok \<longrightarrow> out = sd"
    using set_protected_reaches [OF assms] by blast
  have "SetProtected out on = Inr (out, False)"
  proof (cases "protect_edit on l")
    case None
    then show ?thesis using prot.act_cases [OF assms(1,2) refl, of on] s(1) by simp
  next
    case (Some k)
    note k = protect_edit_Some [OF Some]
    have "protect_edit on k = None" using k(1) by (simp add: protect_edit_None)
    then show ?thesis
      using prot.act_again [OF assms(1,2), of on k] Some k(2) assms(3) s(1) by auto
  qed
  with s show ?thesis by blast
qed

text \<open>
  C9. \<open>SetProtected\<close> edits nothing but the protection entry: owner, group, SACL, revision and
  the other control bits are kept, every entry that is not a protection entry stays, byte for byte
  and in its order, and an added Deny leads the list.
\<close>

theorem SetProtected_preserves:
  assumes "parse sd = Inr p" "aces (dacl p) = Inr l" "acl_size l + 20 < 65536"
    "SetProtected sd on = Inr (out, True)"
  shows "\<exists>p' l'. parse out = Inr p' \<and> aces (dacl p') = Inr l' \<and>
    revision p' = revision p \<and> sbz1 p' = sbz1 p \<and> owner p' = owner p \<and> group p' = group p \<and>
    sacl p' = sacl p \<and> control p' = control p OR controlDACLPresent \<and>
    filter (\<lambda>a. \<not> isProtectionACE a) l' = filter (\<lambda>a. \<not> isProtectionACE a) l \<and>
    (on \<longrightarrow> l' \<noteq> [] \<and> hd l' = protectionACE)"
proof -
  obtain k where k: "protect_edit on l = Some k"
    using prot.act_cases [OF assms(1,2) refl, of on] assms(4) by (cases "protect_edit on l") auto
  note k' = protect_edit_Some [OF k]
  have "parse out = Inr (with_dacl p (keep_revision (dacl p) k) k) \<and>
      aces (buildACL (keep_revision (dacl p) k) k) = Inr k"
    using prot.act_view [OF assms(1,2), of on k] k k'(2) assms(3,4) by auto
  with k' show ?thesis by auto
qed

section \<open>Denied extended rights\<close>

definition denied_edit :: "bool \<Rightarrow> u32 \<Rightarrow> bytes \<Rightarrow> bytes list \<Rightarrow> bytes list \<Rightarrow> bytes list option" where
  "denied_edit on m ot ts l =
     (let removed = length (filter (deniedToAny m ot ts) l);
          kept = filter (\<lambda>a. \<not> deniedToAny m ot ts a) l
      in if \<not> on then (if removed = 0 then None else Some kept)
         else if removed = length ts \<and> 0 < removed then None
         else Some (map (deniedObjectACE m ot) ts @ kept))"

definition ds_revision :: "bytes \<Rightarrow> bytes list \<Rightarrow> byte" where
  "ds_revision d l = (if 0 < length d \<and> aclRevisionDS < d ! 0 then d ! 0 else aclRevisionDS)"

lemma put_at_mid: "put_at (length a) v (a @ replicate (length v + n) z) = a @ v @ replicate n z"
  by (simp add: put_at_def)

lemma deniedObjectACE_eq:
  "deniedObjectACE m ot t =
     [6, 0] @ le16 (word_of_nat (12 + length ot + length t)) @ le32 m @ le32 1 @ ot @ t"
proof -
  define w where "w = (word_of_nat (12 + length ot + length t) :: u16)"
  define h where "h = [6, 0] @ le16 w @ le32 m"
  have len: "length h = 8" "length (h @ le32 1) = 12" by (simp_all add: h_def)
  have 0: "put_at 4 (le32 m) (put_at 2 (le16 w)
      ((replicate (8 + (4 + (length ot + length t))) 0)[0 := 6, 1 := 0])) =
      h @ replicate (4 + (length ot + length t)) 0"
    unfolding put_at_header h_def by simp
  have 1: "put_at 8 (le32 1) (h @ replicate (4 + (length ot + length t)) 0) =
      (h @ le32 1) @ replicate (length ot + length t) 0"
    using put_at_mid [of h "le32 1" "length ot + length t" 0] len by simp
  have 2: "put_at 12 ot ((h @ le32 1) @ replicate (length ot + length t) 0) =
      (h @ le32 1 @ ot) @ replicate (length t) 0"
    using put_at_mid [of "h @ le32 1" ot "length t" 0] len by simp
  have 3: "put_at (12 + length ot) t ((h @ le32 1 @ ot) @ replicate (length t) 0) = h @ le32 1 @ ot @ t"
    using put_at_mid [of "h @ le32 1 @ ot" t 0 0] len by simp
  have n: "4 + 4 + 4 + length ot + length t = 8 + (4 + (length ot + length t))" by simp
  show ?thesis
    unfolding deniedObjectACE_def Let_def aceObjectTypePresent_def aceTypeDeniedObject_def
      length_list_update length_replicate n
    using 0 1 2 3 by (simp add: w_def h_def add.assoc)
qed

lemma deniedObjectACE_ok: "12 + length ot + length t < 65536 \<Longrightarrow> ace_ok (deniedObjectACE m ot t)"
  by (simp add: ace_ok_def deniedObjectACE_eq slice_def unat_of_nat del: of_nat_add)

lemma deniedObject_ACE:
  assumes "length ot = 16" "m \<noteq> 0"
  shows "deniedObject (deniedObjectACE m ot t) m ot t"
  using assms
  by (simp add: deniedObject_def deniedObjectACE_eq slice_def aceTypeDeniedObject_def
      aceObjectTypePresent_def aceInheritedObjectTypePresent_def)


lemma acl_size_mem: "a \<in> set l \<Longrightarrow> length a + 8 \<le> acl_size l"
  by (induction l) (auto simp: acl_size_def)

interpretation denied: dacl_edit "\<lambda>sd. SetDeniedObjectRight sd on m ot ts"
  "\<lambda>l. Inr (denied_edit on m ot ts l)" ds_revision
  for on m ot ts
proof unfold_locales
  fix sd
  show "SetDeniedObjectRight sd on m ot ts = bind_res (parse sd) (\<lambda>p. bind_res (aces (dacl p)) (\<lambda>l.
      bind_res (Inr (denied_edit on m ot ts l)) (\<lambda>e. case e of None \<Rightarrow> Inr (sd, False)
      | Some k \<Rightarrow> Inr (serialize (with_dacl p (ds_revision (dacl p) k) k), True))))"
    unfolding SetDeniedObjectRight_def
    by (intro bind_res_cong refl)
       (simp add: denied_edit_def ds_revision_def with_dacl_def Let_def)
next
  fix l k
  assume l: "list_all ace_ok l" and k: "acl_size k < 65536"
    and e: "(Inr (denied_edit on m ot ts l) :: bytes list option res) = Inr (Some k)"
  have "ace_ok a" if "a \<in> set k" for a
  proof (cases "a \<in> set l")
    case True
    with l show ?thesis by (simp add: list_all_iff)
  next
    case False
    with e that obtain t where a: "a = deniedObjectACE m ot t"
      by (auto simp: denied_edit_def Let_def split: if_splits)
    have "12 + length ot + length t < 65536"
      using acl_size_mem [OF that] k by (simp add: a deniedObjectACE_eq)
    then show ?thesis unfolding a by (rule deniedObjectACE_ok)
  qed
  then show "list_all ace_ok k" by (simp add: list_all_iff)
qed

lemma filter_deniedToAny_new:
  assumes "length ot = 16" "m \<noteq> 0"
  shows "filter (deniedToAny m ot ts) (map (deniedObjectACE m ot) ts) = map (deniedObjectACE m ot) ts"
  using assms deniedObject_ACE by (auto simp: filter_id_conv deniedToAny_def list_ex_iff)

lemma denied_edit_Some:
  assumes "denied_edit on m ot ts l = Some k" "length ot = 16" "m \<noteq> 0"
  shows "acl_size k \<le> acl_size l + sum_list (map (\<lambda>t. 28 + length t) ts)"
    "filter (\<lambda>a. \<not> deniedToAny m ot ts a) k = filter (\<lambda>a. \<not> deniedToAny m ot ts a) l"
    "on \<Longrightarrow> t \<in> set ts \<Longrightarrow> \<exists>a \<in> set k. deniedObject a m ot t"
    "\<not> on \<Longrightarrow> \<not> list_ex (deniedToAny m ot ts) k"
    "denied_edit on m ot ts k = None \<or> on \<and> ts = []"
proof -
  have s: "sum_list (map length (map (deniedObjectACE m ot) ts)) = sum_list (map (\<lambda>t. 28 + length t) ts)"
    using assms(2) by (simp add: deniedObjectACE_eq comp_def)
  have k: "k = (if on then map (deniedObjectACE m ot) ts else []) @ filter (\<lambda>a. \<not> deniedToAny m ot ts a) l"
    using assms(1) by (auto simp: denied_edit_def Let_def split: if_splits)
  show "acl_size k \<le> acl_size l + sum_list (map (\<lambda>t. 28 + length t) ts)"
    using acl_size_filter [of "\<lambda>a. \<not> deniedToAny m ot ts a" l] s by (auto simp: k acl_size_append)
  show "filter (\<lambda>a. \<not> deniedToAny m ot ts a) k = filter (\<lambda>a. \<not> deniedToAny m ot ts a) l"
    using filter_deniedToAny_new [OF assms(2,3), of ts]
    by (auto simp: k filter_empty_conv filter_id_conv)
  show "\<exists>a \<in> set k. deniedObject a m ot t" if on "t \<in> set ts"
    using that deniedObject_ACE [OF assms(2,3)] by (auto simp: k)
  show "\<not> list_ex (deniedToAny m ot ts) k" if "\<not> on"
    using that by (auto simp: k list_ex_iff)
  show "denied_edit on m ot ts k = None \<or> on \<and> ts = []"
    using filter_deniedToAny_new [OF assms(2,3), of ts]
    by (auto simp: k denied_edit_def Let_def filter_empty_conv)
qed



section \<open>Round trips\<close>

text \<open>
  C37. Parsing and serializing agree: whatever \<open>parse\<close> accepts is a well-formed descriptor, and
  serializing it gives bytes that parse to the same revision, control word, owner, group, SACL and
  DACL.
\<close>

theorem descriptor_roundtrip:
  assumes "parse sd = Inr p"
  shows "parsed_ok p \<and> parse (serialize p) = Inr p"
  using parse_ok [OF assms] parse_serialize by blast

text \<open>
  Splitting and rebuilding an ACL agree: the entries of an ACL that \<open>parse\<close> returned are
  well-formed and fit, and \<open>buildACL\<close> of any such list splits into the same entries again.
\<close>

theorem acl_roundtrip:
  assumes "acl_ok acl" "aces acl = Inr l"
  shows "list_all ace_ok l \<and> acl_size l < 65536 \<and> aces (buildACL r l) = Inr l"
proof -
  have "aclHeaderLen + sum_list (map length l) \<le> length acl"
    using assms aces_from_ok by (force simp: aces_def acl_ok_iff split: if_splits)
  then have "acl_size l < 65536"
    using acl_ok_length [OF assms(1)] by (simp add: acl_size_def)
  then show ?thesis using aces_ok [OF assms(2)] assms(1) aces_buildACL(1) by blast
qed

section \<open>Bounds\<close>

lemma aces_no_panic: "acl = [] \<or> acl_ok acl \<Longrightarrow> aces acl \<noteq> Inl (GoPanic msg)"
proof -
  have "aces_from c off a \<noteq> Inl (GoPanic msg)" for c off a
    by (induction c off a rule: aces_from.induct) (auto simp: Let_def bind_res_eq_Inl)
  then show "acl = [] \<or> acl_ok acl \<Longrightarrow> aces acl \<noteq> Inl (GoPanic msg)"
    by (auto simp: aces_def acl_ok_iff)
qed

lemma part_at_no_panic:
  "part_at sd off sidLen \<noteq> Inl (GoPanic msg)" "part_at sd off aclLen \<noteq> Inl (GoPanic msg)"
  by (simp_all add: part_at_def bind_res_eq_Inl sidLen_def aclLen_def Let_def)

lemma parse_no_panic: "parse sd \<noteq> Inl (GoPanic msg)"
  by (simp add: parse_def Let_def bind_res_eq_Inl part_at_no_panic)

lemma parse_aces_no_panic: "parse sd = Inr p \<Longrightarrow> aces (dacl p) \<noteq> Inl (GoPanic msg)"
  using parse_ok aces_no_panic by (auto simp: parsed_ok_def)

text \<open>
  No input makes the descriptor code panic: on every byte sequence, however malformed, the four
  exported operations of the file return a value or an error.
\<close>

lemma secdesc_no_panic:
  "IsProtected sd \<noteq> Inl (GoPanic msg) \<and> SetProtected sd on \<noteq> Inl (GoPanic msg) \<and>
   HasDeniedObjectRight sd m ot ts \<noteq> Inl (GoPanic msg) \<and>
   SetDeniedObjectRight sd on m ot ts \<noteq> Inl (GoPanic msg)"
  using parse_no_panic parse_aces_no_panic
  by (auto simp: IsProtected_def HasDeniedObjectRight_def bind_res_eq_Inl prot.act_error
      denied.act_error)

text \<open>
  The size field of an ACL has sixteen bits.  \<open>buildACL\<close> states its true size exactly when the
  header and the entries together stay below 65536 bytes; from there on the field wraps and the
  list it wrote no longer reads back as a whole ACL.
\<close>

theorem buildACL_size_field:
  "acl_ok (buildACL r l) \<longleftrightarrow> acl_size l < 65536"
proof -
  have s: "slice 2 4 (buildACL r l) = le16 (word_of_nat (acl_size l))"
    by (simp add: buildACL_eq slice_def)
  have "acl_ok (buildACL r l) \<longleftrightarrow> acl_size l mod 65536 = acl_size l"
    unfolding acl_ok_iff length_buildACL s un_le16_le16'
    by (simp add: unat_of_nat acl_size_def [of l] del: of_nat_add)
  also have "\<dots> \<longleftrightarrow> acl_size l < 65536" by (metis mod_less mod_less_divisor zero_less_numeral)
  finally show ?thesis .
qed

section \<open>Sample descriptors\<close>

lemma parsed_ok_dacl:
  assumes "list_all ace_ok l" "acl_size l < 65536"
  shows "parsed_ok \<lparr>revision = v, sbz1 = z, control = 0x8004, owner = [], group = [], sacl = [],
    dacl = buildACL r l\<rparr>"
  using aces_buildACL(2) [OF assms] by (simp add: parsed_ok_def controlSelfRel_def)

text \<open>
  A freshly created object, with a self-relative descriptor whose DACL has revision 2 and the
  entries given (none, for \<open>fresh\<close>).
\<close>

definition fresh_with :: "byte \<Rightarrow> bytes list \<Rightarrow> parsed" where
  "fresh_with r l = \<lparr>revision = 1, sbz1 = 0, control = 0x8004, owner = [], group = [], sacl = [],
     dacl = buildACL r l\<rparr>"

definition fresh :: parsed where
  "fresh = fresh_with 2 []"

lemma parse_fresh_with:
  assumes "list_all ace_ok l" "acl_size l < 65536"
  shows "parse (serialize (fresh_with r l)) = Inr (fresh_with r l)"
    "aces (dacl (fresh_with r l)) = Inr l"
  using assms by (simp_all add: fresh_with_def aces_buildACL(1) parse_serialize parsed_ok_dacl)

lemma parse_fresh: "parse (serialize fresh) = Inr fresh" "aces (dacl fresh) = Inr []"
  by (simp_all add: fresh_def parse_fresh_with acl_size_def)

definition duplicate_deny :: "bytes \<Rightarrow> bytes list" where
  "duplicate_deny ot = [deniedObjectACE RightControlAccess ot SIDEveryone,
                        deniedObjectACE RightControlAccess ot SIDEveryone]"

text \<open>
  The change-password lock can be reported as in place when it is not: a DACL that holds the
  Deny for Everyone twice and none for SELF counts two matching entries for two trustees, so
  \<open>SetDeniedObjectRight\<close> returns the descriptor unchanged, and SELF is still not denied.
\<close>

theorem SetDeniedObjectRight_duplicate:
  "\<exists>sd ot. length ot = 16 \<and>
     SetDeniedObjectRight sd True RightControlAccess ot [SIDEveryone, SIDSelf] = Inr (sd, False) \<and>
     HasDeniedObjectRight sd RightControlAccess ot [SIDSelf] = Inr False"
proof (intro exI conjI)
  let ?ot = "replicate 16 (7 :: byte)" and ?m = RightControlAccess
  let ?l = "duplicate_deny ?ot" and ?p = "fresh_with 4 (duplicate_deny ?ot)"
  let ?d = "deniedObjectACE ?m ?ot SIDEveryone"
  show "length ?ot = 16" by simp
  have l: "list_all ace_ok ?l" "acl_size ?l < 65536"
    by (auto simp: duplicate_deny_def SIDEveryone_def length_everyone acl_size_def
        deniedObjectACE_ok) (simp add: deniedObjectACE_eq length_everyone)
  note p = parse_fresh_with [OF l, of 4]
  have yes: "deniedObject ?d ?m ?ot SIDEveryone"
    by (rule deniedObject_ACE) (simp_all add: RightControlAccess_def)
  have no: "\<not> deniedObject ?d ?m ?ot SIDSelf"
    by (simp add: deniedObject_def deniedObjectACE_eq slice_def SIDEveryone_def SIDSelf_def everyone_def
        aceObjectTypePresent_def aceInheritedObjectTypePresent_def)
  show "SetDeniedObjectRight (serialize ?p) True ?m ?ot [SIDEveryone, SIDSelf] = Inr (serialize ?p, False)"
    using denied.act_cases [OF p refl, of True ?m ?ot "[SIDEveryone, SIDSelf]"] yes
    by (simp add: denied_edit_def duplicate_deny_def deniedToAny_def)
  show "HasDeniedObjectRight (serialize ?p) ?m ?ot [SIDSelf] = Inr False"
    using p no by (simp add: HasDeniedObjectRight_def duplicate_deny_def deniedToAny_def)
qed

section \<open>Witnesses\<close>

lemma fresh_not_protected: "IsProtected (serialize fresh) = Inr False"
  by (simp add: IsProtected_def parse_fresh)

theorem SetProtected_correct_witness:
  "\<exists>out. SetProtected (serialize fresh) True = Inr (out, True) \<and> IsProtected out = Inr True \<and>
     SetProtected out True = Inr (out, False)"
proof -
  have "acl_size [] + 20 < 65536" by (simp add: acl_size_def)
  then show ?thesis
    using SetProtected_correct [OF parse_fresh, of True] by (auto simp: fresh_not_protected)
qed

theorem SetProtected_preserves_witness:
  "\<exists>p' l'. parse (serialize (with_dacl fresh 2 [protectionACE])) = Inr p' \<and>
     aces (dacl p') = Inr l' \<and> owner p' = [] \<and> hd l' = protectionACE"
proof -
  have size: "acl_size [] + 20 < 65536" by (simp add: acl_size_def)
  have "keep_revision (dacl fresh) k = 2" for k
    by (simp add: keep_revision_def fresh_def fresh_with_def buildACL_eq)
  then have act: "SetProtected (serialize fresh) True = Inr (serialize (with_dacl fresh 2 [protectionACE]), True)"
    using prot.act_cases [OF parse_fresh refl, of True] by (simp add: protect_edit_def)
  show ?thesis
    using SetProtected_preserves [OF parse_fresh size act] by (auto simp: fresh_def fresh_with_def)
qed



theorem descriptor_roundtrip_witness:
  "parsed_ok fresh \<and> parse (serialize fresh) = Inr fresh"
  using descriptor_roundtrip [OF parse_fresh(1)] by simp

theorem acl_roundtrip_witness:
  "list_all ace_ok [protectionACE] \<and> aces (buildACL 4 [protectionACE]) = Inr [protectionACE]"
proof -
  have l: "list_all ace_ok [protectionACE]" "acl_size [protectionACE] < 65536"
    by (simp_all add: protectionACE_ok acl_size_def)
  show ?thesis
    using acl_roundtrip [OF aces_buildACL(2) [OF l, of 2] aces_buildACL(1) [OF l, of 2], of 4] by simp
qed

end
