(* ===== verification/Principals_SD.thy ===== *)
theory Principals_SD
  imports Secdesc
begin

text \<open>
  Package \<open>internal/secdesc\<close>, file \<open>principals.go\<close>: the descriptor that
  \<open>msDS-GroupMSAMembership\<close> and \<open>msDS-AllowedToActOnBehalfOfOtherIdentity\<close> hold, owned by
  Domain Admins and granting full control to a list of principals, and the list read back from it.
\<close>

definition ridDomainAdmins :: u32 where "ridDomainAdmins = 512"
definition rightsFullControl :: u32 where "rightsFullControl = 0x000F01FF"
definition aceTypeAccessAllowed :: byte where "aceTypeAccessAllowed = 0x00"

definition domainAdminsSID :: "bytes \<Rightarrow> bytes res" where
  "domainAdminsSID domainSID =
     bind_res (sidLen domainSID) (\<lambda>n.
       if n \<noteq> length domainSID
       then Inl (ErrMsg (''secdesc: domain SID is '' @ fmt_nat 10 (length domainSID) @
              '' bytes but declares '' @ fmt_nat 10 n))
       else if 15 \<le> domainSID ! 1
       then Inl (ErrMsg (''secdesc: domain SID already has '' @ fmt_nat 10 (unat (domainSID ! 1)) @
              '' sub-authorities''))
       else Inr (domainSID[1 := domainSID ! 1 + 1] @ le32 ridDomainAdmins))"

definition allowFullACE :: "bytes \<Rightarrow> bytes" where
  "allowFullACE trustee =
     (let size = aceHeaderLen + 4 + length trustee
      in [aceTypeAccessAllowed, 0x00] @ le16 (word_of_nat size) @ le32 rightsFullControl @ trustee)"

text \<open>The body of the loop over the principals.\<close>

definition principal_ace :: "bytes \<Rightarrow> bytes res" where
  "principal_ace sid =
     bind_res (sidLen sid) (\<lambda>n.
       if n \<noteq> length sid
       then Inl (ErrMsg (''secdesc: principal SID is '' @ fmt_nat 10 (length sid) @
              '' bytes but declares '' @ fmt_nat 10 n))
       else Inr (allowFullACE sid))"

definition BuildPrincipalSD :: "bytes \<Rightarrow> bytes list \<Rightarrow> bytes res" where
  "BuildPrincipalSD domainSID principalSIDs =
     bind_res (domainAdminsSID domainSID) (\<lambda>admins.
     bind_res (map_res principal_ace principalSIDs) (\<lambda>list.
       let acl = buildACL 2 list
       in Inr (serialize \<lparr>revision = 1, sbz1 = 0, control = controlDACLPresent OR controlSelfRel,
                          owner = admins, group = admins, sacl = [], dacl = acl\<rparr>)))"

text \<open>The loop over the entries read: only plain allow entries name a principal.\<close>

fun read_principals :: "bytes list \<Rightarrow> bytes list res" where
  "read_principals [] = Inr []"
| "read_principals (ace # list) =
     (if length ace < aceHeaderLen + 4 \<or> ace ! 0 \<noteq> aceTypeAccessAllowed
      then read_principals list
      else let sid = drop (aceHeaderLen + 4) ace in
        case sidLen sid of
          Inl _ \<Rightarrow> Inl (ErrMsg ''secdesc: malformed trustee SID in principal descriptor'')
        | Inr n \<Rightarrow>
            if length sid < n
            then Inl (ErrMsg ''secdesc: malformed trustee SID in principal descriptor'')
            else bind_res (read_principals list) (\<lambda>out. Inr (take n sid # out)))"

definition PrincipalSIDs :: "bytes \<Rightarrow> bytes list res" where
  "PrincipalSIDs sd =
     (if length sd = 0 then Inr []
      else bind_res (parse sd) (\<lambda>p.
        if length (dacl p) = 0 then Inr []
        else bind_res (aces (dacl p)) read_principals))"

section \<open>The entries written\<close>

lemma allowFullACE_ok: "length sid + 8 < 65536 \<Longrightarrow> ace_ok (allowFullACE sid)"
  by (simp add: ace_ok_def allowFullACE_def Let_def slice_def unat_of_nat del: of_nat_add)

lemma principal_ace_Inr: "principal_ace sid = Inr a \<longleftrightarrow> sid_ok sid \<and> a = allowFullACE sid"
  by (auto simp: principal_ace_def sid_ok_def split: if_splits)

lemma map_res_principal_ace:
  "map_res principal_ace sids = Inr l \<longleftrightarrow> list_all sid_ok sids \<and> l = map allowFullACE sids"
  by (induction sids arbitrary: l) (auto simp: principal_ace_Inr)

lemma domainAdminsSID_ok:
  assumes "domainAdminsSID d = Inr a"
  shows "sid_ok a" "length a = length d + 4" "drop (length d) a = le32 ridDomainAdmins"
proof -
  from assms have d: "sid_ok d" "\<not> 15 \<le> d ! 1"
    and a: "a = d[1 := d ! 1 + 1] @ le32 ridDomainAdmins"
    by (auto simp: domainAdminsSID_def sid_ok_def split: if_splits)
  from d(2) have "unat (d ! 1) < 15" by (simp add: word_le_nat_alt)
  then have "unat (d ! 1 + 1) = unat (d ! 1) + 1" by (simp add: unat_word_ariths)
  with d(1) show "sid_ok a" "length a = length d + 4" "drop (length d) a = le32 ridDomainAdmins"
    by (simp_all add: a sid_ok_iff nth_append)
qed

lemma read_principals_written:
  "list_all sid_ok sids \<Longrightarrow> read_principals (map allowFullACE sids) = Inr sids"
  by (induction sids) (auto simp: allowFullACE_def Let_def sid_ok_def aceTypeAccessAllowed_def)

lemma acl_size_allow: "acl_size (map allowFullACE sids) = 8 + sum_list (map (\<lambda>s. 8 + length s) sids)"
  by (induction sids) (auto simp: acl_size_def allowFullACE_def)

lemma list_all_allow:
  "list_all sid_ok sids \<Longrightarrow> list_all ace_ok (map allowFullACE sids)"
  using sid_ok_length by (fastforce simp: list_all_iff intro: allowFullACE_ok)

lemma sum_list_mono_nat: "(\<And>x. x \<in> set xs \<Longrightarrow> f x \<le> (b :: nat)) \<Longrightarrow> sum_list (map f xs) \<le> b * length xs"
  by (induction xs) (auto simp: add_mono)

lemma acl_size_allow_bound:
  "list_all sid_ok sids \<Longrightarrow> length sids \<le> 63 \<Longrightarrow> acl_size (map allowFullACE sids) < 65536"
proof -
  assume ok: "list_all sid_ok sids" and n: "length sids \<le> 63"
  have "sum_list (map (\<lambda>s. 8 + length s) sids) \<le> 1036 * length sids"
    by (rule sum_list_mono_nat) (use ok in \<open>auto simp: list_all_iff dest: sid_ok_length\<close>)
  with n show ?thesis by (simp add: acl_size_allow)
qed

lemma BuildPrincipalSD_Inr:
  assumes "BuildPrincipalSD d sids = Inr sd" "acl_size (map allowFullACE sids) < 65536"
  obtains a where "domainAdminsSID d = Inr a" "list_all sid_ok sids"
    "parse sd = Inr \<lparr>revision = 1, sbz1 = 0, control = controlDACLPresent OR controlSelfRel,
       owner = a, group = a, sacl = [], dacl = buildACL 2 (map allowFullACE sids)\<rparr>"
proof -
  from assms(1) obtain a where a: "domainAdminsSID d = Inr a" and ok: "list_all sid_ok sids"
    and sd: "sd = serialize \<lparr>revision = 1, sbz1 = 0,
       control = controlDACLPresent OR controlSelfRel, owner = a, group = a, sacl = [],
       dacl = buildACL 2 (map allowFullACE sids)\<rparr>"
    by (auto simp: BuildPrincipalSD_def map_res_principal_ace Let_def)
  have "(controlDACLPresent OR controlSelfRel) AND controlSelfRel \<noteq> 0"
    by (simp add: controlDACLPresent_def controlSelfRel_def)
  with domainAdminsSID_ok(1) [OF a] aces_buildACL(2) [OF list_all_allow [OF ok] assms(2)]
  show thesis by (intro that [OF a ok]) (simp add: sd parse_serialize parsed_ok_def)
qed

section \<open>Properties\<close>

text \<open>
  What \<open>BuildPrincipalSD\<close> writes is read back exactly: the principals, in their order, with owner
  and group the Domain Admins SID of the domain.  The descriptor's DACL is present also for no
  principal at all, so it denies everyone rather than granting everyone.
\<close>

theorem BuildPrincipalSD_roundtrip:
  assumes "BuildPrincipalSD domainSID sids = Inr sd"
    and "8 + sum_list (map (\<lambda>s. 8 + length s) sids) < 65536"
  shows "PrincipalSIDs sd = Inr sids \<and>
    (\<exists>p admins. parse sd = Inr p \<and> domainAdminsSID domainSID = Inr admins \<and>
       owner p = admins \<and> group p = admins \<and> dacl p \<noteq> [] \<and> control p AND controlDACLPresent \<noteq> 0)"
proof -
  from assms(2) have size: "acl_size (map allowFullACE sids) < 65536" by (simp add: acl_size_allow)
  from BuildPrincipalSD_Inr [OF assms(1) size] obtain a where a: "domainAdminsSID domainSID = Inr a"
    and ok: "list_all sid_ok sids"
    and p: "parse sd = Inr \<lparr>revision = 1, sbz1 = 0, control = controlDACLPresent OR controlSelfRel,
       owner = a, group = a, sacl = [], dacl = buildACL 2 (map allowFullACE sids)\<rparr>" .
  have ne: "buildACL 2 (map allowFullACE sids) \<noteq> []" by (simp add: buildACL_eq)
  from p have "sd \<noteq> []" by (auto simp: parse_def)
  with p ne show ?thesis
    using a aces_buildACL(1) [OF list_all_allow [OF ok] size] read_principals_written [OF ok]
    by (simp add: PrincipalSIDs_def controlDACLPresent_def controlSelfRel_def)
qed

text \<open>
  \<open>BuildPrincipalSD\<close> succeeds exactly when the domain SID is well formed with room for one more
  sub-authority and every principal is a SID of the length it declares.
\<close>

theorem BuildPrincipalSD_defined:
  "(\<exists>sd. BuildPrincipalSD domainSID sids = Inr sd) \<longleftrightarrow>
     sid_ok domainSID \<and> unat (domainSID ! 1) < 15 \<and> list_all sid_ok sids"
proof -
  have "(\<exists>a. domainAdminsSID domainSID = Inr a) \<longleftrightarrow> sid_ok domainSID \<and> unat (domainSID ! 1) < 15"
    by (auto simp: domainAdminsSID_def sid_ok_def word_le_nat_alt split: if_splits)
  then show ?thesis by (auto simp: BuildPrincipalSD_def map_res_principal_ace Let_def)
qed

definition sampleDomainSID :: bytes where
  "sampleDomainSID = [1, 4, 0, 0, 0, 0, 0, 5, 21, 0, 0, 0, 1, 0, 0, 0, 2, 0, 0, 0, 3, 0, 0, 0]"

theorem BuildPrincipalSD_roundtrip_witness:
  "\<exists>sd. BuildPrincipalSD sampleDomainSID [SIDEveryone, SIDSelf] = Inr sd \<and>
     PrincipalSIDs sd = Inr [SIDEveryone, SIDSelf]"
proof -
  have "sid_ok sampleDomainSID" "sid_ok SIDEveryone" "sid_ok SIDSelf" "\<not> 15 \<le> sampleDomainSID ! 1"
    by (simp_all add: sid_ok_iff sampleDomainSID_def SIDEveryone_def everyone_def SIDSelf_def)
  then obtain sd where "BuildPrincipalSD sampleDomainSID [SIDEveryone, SIDSelf] = Inr sd"
    by (simp add: BuildPrincipalSD_def domainAdminsSID_def principal_ace_def sid_ok_def)
  moreover have "8 + sum_list (map (\<lambda>s. 8 + length s) [SIDEveryone, SIDSelf]) < 65536"
    by (simp add: SIDEveryone_def everyone_def SIDSelf_def)
  ultimately show ?thesis using BuildPrincipalSD_roundtrip by blast
qed

end
