(* ===== verification/Ace.thy ===== *)
theory Ace
  imports Principals_SD
begin

text \<open>
  Package \<open>internal/secdesc\<close>, file \<open>ace.go\<close>: the entries of a DACL in decoded form.
  \<open>decodeACE\<close> and \<open>EncodeACE\<close> translate the four entry types the package understands,
  \<open>DecodeACEs\<close> reads a whole DACL, \<open>AddACEs\<close> and \<open>RemoveACEs\<close> edit it.  Both edits meet the
  contract \<open>dacl_edit\<close>.
\<close>

definition aceTypeAllowedObject :: byte where "aceTypeAllowedObject = 0x05"

definition AceFlagContainerInherit :: byte where "AceFlagContainerInherit = 0x02"
definition AceFlagNoPropagate :: byte where "AceFlagNoPropagate = 0x04"
definition AceFlagInheritOnly :: byte where "AceFlagInheritOnly = 0x08"
definition AceFlagInherited :: byte where "AceFlagInherited = 0x10"

lemmas ace_consts = aceTypeAccessAllowed_def aceTypeAccessDenied_def aceTypeAllowedObject_def
  aceTypeDeniedObject_def aceObjectTypePresent_def aceInheritedObjectTypePresent_def

record DecodedACE =
  TrusteeSID :: bytes
  Deny :: bool
  Mask :: u32
  ObjectType :: bytes
  InheritedObjectType :: bytes
  Flags :: byte
  Inherited :: bool

text \<open>
  \<open>decodeACE\<close> returns \<open>None\<close> for an entry type the package does not model (the Go result
  \<open>ok = false\<close>).  \<open>ace_guid\<close> is the read of one optional GUID of an object entry at an offset.
\<close>

definition ace_guid :: "bytes \<Rightarrow> u32 \<Rightarrow> u32 \<Rightarrow> string \<Rightarrow> nat \<Rightarrow> (bytes \<times> nat) res" where
  "ace_guid ace objFlags present what off =
     (if objFlags AND present \<noteq> 0
      then (if length ace < off + 16
            then Inl (ErrMsg (''secdesc: object ACE truncated before its '' @ what))
            else Inr (slice off (off + 16) ace, off + 16))
      else Inr ([], off))"

definition decodeACE :: "bytes \<Rightarrow> DecodedACE option res" where
  "decodeACE ace =
     (if length ace < aceHeaderLen + 4 then Inl (ErrMsg ''secdesc: ACE shorter than its header'')
      else let t = ace ! 0;
               deny = (t = aceTypeAccessDenied \<or> t = aceTypeDeniedObject);
               object = (t = aceTypeAllowedObject \<or> t = aceTypeDeniedObject)
        in if t \<notin> {aceTypeAccessAllowed, aceTypeAccessDenied, aceTypeAllowedObject, aceTypeDeniedObject}
           then Inr None
           else
             bind_res
               (if object
                then (if length ace < 8 + 4 then Inl (ErrMsg ''secdesc: object ACE has no flags word'')
                      else let objFlags = un_le32 (slice 8 12 ace) in
                        bind_res (ace_guid ace objFlags aceObjectTypePresent ''object type'' 12)
                          (\<lambda>(ot, off).
                        bind_res (ace_guid ace objFlags aceInheritedObjectTypePresent
                                    ''inherited object type'' off) (\<lambda>(iot, off).
                        Inr (ot, iot, off))))
                else Inr ([], [], 8))
               (\<lambda>(ot, iot, off).
             bind_res (sidLen (drop off ace)) (\<lambda>n.
             if length (drop off ace) < n then Inl (ErrMsg ''secdesc: ACE trustee SID truncated'')
             else Inr (Some \<lparr>TrusteeSID = take n (drop off ace), Deny = deny,
                   Mask = un_le32 (slice 4 8 ace), ObjectType = ot, InheritedObjectType = iot,
                   Flags = ace ! 1, Inherited = (ace ! 1 AND AceFlagInherited \<noteq> 0)\<rparr>))))"

fun decode_list :: "bytes list \<Rightarrow> DecodedACE list res" where
  "decode_list [] = Inr []"
| "decode_list (ace # l) =
     bind_res (decodeACE ace) (\<lambda>d.
     bind_res (decode_list l) (\<lambda>out.
     Inr (case d of None \<Rightarrow> out | Some d \<Rightarrow> d # out)))"

definition DecodeACEs :: "bytes \<Rightarrow> DecodedACE list res" where
  "DecodeACEs sd =
     (if sd = [] then Inr []
      else bind_res (parse sd) (\<lambda>p.
        if dacl p = [] then Inr []
        else bind_res (aces (dacl p)) decode_list))"

text \<open>\<open>adcore.Inheritance\<close>: the three values the source names, and any other value.\<close>

datatype inheritance =
  InheritanceThis | InheritanceChildren | InheritanceDescendants | InheritanceOther string

definition InheritanceOf :: "byte \<Rightarrow> inheritance" where
  "InheritanceOf flags =
     (if flags AND AceFlagContainerInherit = 0 then InheritanceThis
      else if flags AND AceFlagNoPropagate \<noteq> 0 then InheritanceChildren
      else InheritanceDescendants)"

fun FlagsFor :: "inheritance \<Rightarrow> byte" where
  "FlagsFor InheritanceDescendants = AceFlagContainerInherit OR AceFlagInheritOnly"
| "FlagsFor InheritanceChildren =
     AceFlagContainerInherit OR AceFlagNoPropagate OR AceFlagInheritOnly"
| "FlagsFor _ = 0"

definition EncodeACE :: "DecodedACE \<Rightarrow> bytes" where
  "EncodeACE a =
     (let object = (length (ObjectType a) = 16 \<or> length (InheritedObjectType a) = 16);
          t = (if object \<and> Deny a then aceTypeDeniedObject
               else if object then aceTypeAllowedObject
               else if Deny a then aceTypeAccessDenied
               else aceTypeAccessAllowed);
          body = le32 (Mask a);
          body = (if object
                  then let objFlags = (if length (ObjectType a) = 16 then aceObjectTypePresent else 0) OR
                             (if length (InheritedObjectType a) = 16 then aceInheritedObjectTypePresent else 0)
                       in body @ le32 objFlags @
                          (if length (ObjectType a) = 16 then ObjectType a else []) @
                          (if length (InheritedObjectType a) = 16 then InheritedObjectType a else [])
                  else body);
          body = body @ TrusteeSID a;
          size = aceHeaderLen + length body
      in [t, Flags a] @ le16 (word_of_nat size) @ body)"

fun aclRevisionFor :: "bytes list \<Rightarrow> byte res" where
  "aclRevisionFor [] = Inr 2"
| "aclRevisionFor ([] # l) = Inl (GoPanic ''index out of range'')"
| "aclRevisionFor ((t # _) # l) =
     (if t = aceTypeAllowedObject \<or> t = aceTypeDeniedObject then Inr aclRevisionDS
      else aclRevisionFor l)"

definition AddACEs :: "bytes \<Rightarrow> DecodedACE list \<Rightarrow> (bytes \<times> bool) res" where
  "AddACEs sd add =
     (if add = [] then Inr (sd, False)
      else bind_res (parse sd) (\<lambda>p.
        bind_res (aces (dacl p)) (\<lambda>l.
          let l = l @ map EncodeACE add in
          bind_res (aclRevisionFor l) (\<lambda>r.
            let p = p\<lparr>dacl := buildACL r l\<rparr>;
                p = p\<lparr>control := control p OR controlDACLPresent\<rparr>
            in Inr (serialize p, True)))))"

text \<open>The loop of \<open>RemoveACEs\<close>: the entries kept, and whether any was dropped.\<close>

fun remove_loop :: "(DecodedACE \<Rightarrow> bool) \<Rightarrow> bytes list \<Rightarrow> (bytes list \<times> bool) res" where
  "remove_loop match [] = Inr ([], False)"
| "remove_loop match (ace # l) =
     bind_res (decodeACE ace) (\<lambda>d.
     bind_res (remove_loop match l) (\<lambda>(kept, changed).
     case d of
       Some d \<Rightarrow> if \<not> Inherited d \<and> match d then Inr (kept, True) else Inr (ace # kept, changed)
     | None \<Rightarrow> Inr (ace # kept, changed)))"

definition RemoveACEs :: "bytes \<Rightarrow> (DecodedACE \<Rightarrow> bool) \<Rightarrow> (bytes \<times> bool) res" where
  "RemoveACEs sd match =
     bind_res (parse sd) (\<lambda>p.
     bind_res (aces (dacl p)) (\<lambda>l.
     bind_res (remove_loop match l) (\<lambda>(kept, changed).
       if \<not> changed then Inr (sd, False)
       else bind_res (aclRevisionFor kept) (\<lambda>r.
         let p = p\<lparr>dacl := buildACL r kept\<rparr>;
             p = p\<lparr>control := control p OR controlDACLPresent\<rparr>
         in Inr (serialize p, True)))))"

section \<open>Encoding and decoding one entry\<close>

definition decoded_ok :: "DecodedACE \<Rightarrow> bool" where
  "decoded_ok d \<longleftrightarrow> length (ObjectType d) \<in> {0, 16} \<and> length (InheritedObjectType d) \<in> {0, 16} \<and>
     sid_ok (TrusteeSID d)"

definition normal :: "DecodedACE \<Rightarrow> DecodedACE" where
  "normal d = d\<lparr>Inherited := (Flags d AND AceFlagInherited \<noteq> 0)\<rparr>"

lemma EncodeACE_length:
  "length (EncodeACE d) = 8 + length (TrusteeSID d) +
     (if length (ObjectType d) = 16 \<or> length (InheritedObjectType d) = 16
      then 4 + (if length (ObjectType d) = 16 then 16 else 0) +
           (if length (InheritedObjectType d) = 16 then 16 else 0)
      else 0)"
  by (simp add: EncodeACE_def Let_def)

lemma EncodeACE_nonempty: "EncodeACE d \<noteq> []"
  by (simp add: EncodeACE_def Let_def)

lemma EncodeACE_ok:
  assumes "length (EncodeACE d) < 65536"
  shows "ace_ok (EncodeACE d)"
proof -
  have "unat (un_le16 (slice 2 4 (EncodeACE d))) = length (EncodeACE d) mod 65536"
    unfolding EncodeACE_def Let_def by (simp add: slice_def unat_of_nat del: of_nat_add)
  with assms show ?thesis by (auto simp: ace_ok_def EncodeACE_length)
qed

lemma decoded_ok_small: "decoded_ok d \<Longrightarrow> length (EncodeACE d) < 65536"
  using sid_ok_length [of "TrusteeSID d"] by (simp add: decoded_ok_def EncodeACE_length)

lemma decodeACE_EncodeACE:
  assumes "decoded_ok d"
  shows "decodeACE (EncodeACE d) = Inr (Some (normal d))"
proof -
  have sid: "sidLen (TrusteeSID d) = Inr (length (TrusteeSID d))"
    using assms by (simp add: decoded_ok_def sid_ok_def)
  consider (plain) "ObjectType d = []" "InheritedObjectType d = []"
    | (ot) "length (ObjectType d) = 16" "InheritedObjectType d = []"
    | (iot) "ObjectType d = []" "length (InheritedObjectType d) = 16"
    | (both) "length (ObjectType d) = 16" "length (InheritedObjectType d) = 16"
    using assms by (auto simp: decoded_ok_def)
  then show ?thesis
    by cases (simp_all add: EncodeACE_def decodeACE_def Let_def ace_guid_def slice_def sid
        normal_def ace_consts)
qed

section \<open>The edits as DACL edits\<close>

definition revision_of :: "bytes list \<Rightarrow> byte" where
  "revision_of l = (if \<exists>a \<in> set l. hd a \<in> {aceTypeAllowedObject, aceTypeDeniedObject}
                    then aclRevisionDS else 2)"

lemma aclRevisionFor_nonempty: "[] \<notin> set l \<Longrightarrow> aclRevisionFor l = Inr (revision_of l)"
  by (induction l rule: aclRevisionFor.induct) (auto simp: revision_of_def)

lemma aclRevisionFor_Inr: "aclRevisionFor l = Inr r \<Longrightarrow> r = aclRevisionDS \<or> r = 2"
  by (induction l rule: aclRevisionFor.induct) (auto split: if_splits)

lemma ace_ok_nonempty: "list_all ace_ok l \<Longrightarrow> [] \<notin> set l"
  by (auto simp: list_all_iff ace_ok_def)

text \<open>
  The entry list an edit proposes, with the panic of \<open>aclRevisionFor\<close> kept as an error, and the
  revision it will be written with.
\<close>

definition propose :: "bytes list \<Rightarrow> bytes list option res" where
  "propose l = bind_res (aclRevisionFor l) (\<lambda>_. Inr (Some l))"

definition ds_or_2 :: "bytes \<Rightarrow> bytes list \<Rightarrow> byte" where
  "ds_or_2 d l = (case aclRevisionFor l of Inl _ \<Rightarrow> 0 | Inr r \<Rightarrow> r)"

definition remove_edit :: "(DecodedACE \<Rightarrow> bool) \<Rightarrow> bytes list \<Rightarrow> bytes list option res" where
  "remove_edit match l =
     bind_res (remove_loop match l) (\<lambda>(kept, changed). if changed then propose kept else Inr None)"

lemma propose_ok: "list_all ace_ok l \<Longrightarrow> propose l = Inr (Some l)"
  by (simp add: propose_def aclRevisionFor_nonempty ace_ok_nonempty)

lemma ds_or_2_ok: "list_all ace_ok l \<Longrightarrow> ds_or_2 d l = revision_of l"
  by (simp add: ds_or_2_def aclRevisionFor_nonempty ace_ok_nonempty)

lemma remove_loop_subset: "remove_loop match l = Inr (kept, ch) \<Longrightarrow> set kept \<subseteq> set l"
  by (induction l arbitrary: kept ch)
     (fastforce split: option.splits if_splits)+

interpretation add: dacl_edit "\<lambda>sd. AddACEs sd (a # as)"
  "\<lambda>l. propose (l @ map EncodeACE (a # as))" ds_or_2
  for a as
proof unfold_locales
  fix sd
  show "AddACEs sd (a # as) = bind_res (parse sd) (\<lambda>p. bind_res (aces (dacl p)) (\<lambda>l.
      bind_res (propose (l @ map EncodeACE (a # as))) (\<lambda>e. case e of None \<Rightarrow> Inr (sd, False)
      | Some k \<Rightarrow> Inr (serialize (with_dacl p (ds_or_2 (dacl p) k) k), True))))"
  proof -
    have "bind_res (aclRevisionFor k) (\<lambda>r. Inr (serialize (with_dacl p r k), True)) =
        bind_res (propose k) (\<lambda>e. case e of None \<Rightarrow> Inr (sd, False)
          | Some k \<Rightarrow> Inr (serialize (with_dacl p (ds_or_2 (dacl p) k) k), True))" for p k
      by (cases "aclRevisionFor k") (simp_all add: propose_def ds_or_2_def)
    then show ?thesis
      unfolding AddACEs_def Let_def with_dacl_def by simp
  qed
next
  fix l k
  assume l: "list_all ace_ok l" "acl_size k < 65536"
    and e: "propose (l @ map EncodeACE (a # as)) = Inr (Some k)"
  from e have k: "k = l @ map EncodeACE (a # as)" by (auto simp: propose_def)
  have "ace_ok (EncodeACE x)" if "x \<in> set (a # as)" for x
    using acl_size_mem [of "EncodeACE x" k] that l(2) by (intro EncodeACE_ok) (auto simp: k)
  with l(1) show "list_all ace_ok k" by (auto simp: k list_all_iff)
qed

interpretation remove: dacl_edit "\<lambda>sd. RemoveACEs sd match" "remove_edit match" ds_or_2
  for match
proof unfold_locales
  fix sd
  have eq: "(case r of (kept, changed) \<Rightarrow> if \<not> changed then Inr (sd, False)
          else bind_res (aclRevisionFor kept) (\<lambda>r. Inr (serialize (with_dacl p r kept), True))) =
        bind_res (case r of (kept, changed) \<Rightarrow> if changed then propose kept else Inr None)
          (\<lambda>e. case e of None \<Rightarrow> Inr (sd, False)
          | Some k \<Rightarrow> Inr (serialize (with_dacl p (ds_or_2 (dacl p) k) k), True))" for p r
    by (cases r; cases "aclRevisionFor (fst r)") (auto simp: propose_def ds_or_2_def)
  show "RemoveACEs sd match = bind_res (parse sd) (\<lambda>p. bind_res (aces (dacl p)) (\<lambda>l.
      bind_res (remove_edit match l) (\<lambda>e. case e of None \<Rightarrow> Inr (sd, False)
      | Some k \<Rightarrow> Inr (serialize (with_dacl p (ds_or_2 (dacl p) k) k), True))))"
    unfolding RemoveACEs_def remove_edit_def bind_res_assoc Let_def eq [symmetric]
    by (intro bind_res_cong refl) (simp add: with_dacl_def split: prod.split)
next
  fix l k
  assume "list_all ace_ok l" "remove_edit match l = Inr (Some k)"
  then show "list_all ace_ok k"
    using remove_loop_subset
    by (fastforce simp: remove_edit_def propose_def list_all_iff split: if_splits)
qed

section \<open>Reading what was written\<close>

lemma decode_list_append:
  "decode_list (l @ k) =
     bind_res (decode_list l) (\<lambda>x. bind_res (decode_list k) (\<lambda>y. Inr (x @ y)))"
  by (induction l) (auto simp: bind_res_assoc bind_res_def split: sum.splits option.splits)

lemma decode_list_EncodeACE:
  "list_all decoded_ok ds \<Longrightarrow> decode_list (map EncodeACE ds) = Inr (map normal ds)"
  by (induction ds) (simp_all add: decodeACE_EncodeACE)

lemma DecodeACEs_eq:
  assumes "parse sd = Inr p" "aces (dacl p) = Inr l"
  shows "DecodeACEs sd = decode_list l"
proof -
  have "sd \<noteq> []" using assms(1) by (auto simp: parse_def)
  moreover have "dacl p = [] \<Longrightarrow> l = []" using assms(2) by (simp add: aces_def)
  ultimately show ?thesis using assms by (simp add: DecodeACEs_def)
qed

definition removable :: "(DecodedACE \<Rightarrow> bool) \<Rightarrow> DecodedACE \<Rightarrow> bool" where
  "removable match d \<longleftrightarrow> \<not> Inherited d \<and> match d"

text \<open>What \<open>RemoveACEs\<close> keeps, entry by entry: everything that does not decode to a removable entry.\<close>

definition stays :: "(DecodedACE \<Rightarrow> bool) \<Rightarrow> bytes \<Rightarrow> bool" where
  "stays match ace \<longleftrightarrow> (\<forall>d. decodeACE ace = Inr (Some d) \<longrightarrow> \<not> removable match d)"

lemma remove_loop_eq:
  assumes "decode_list l = Inr ds"
  shows "remove_loop match l = Inr (filter (stays match) l, list_ex (removable match) ds) \<and>
    decode_list (filter (stays match) l) = Inr (filter (\<lambda>d. \<not> removable match d) ds)"
  using assms
proof (induction l arbitrary: ds)
  case (Cons a l)
  then obtain d ds' where d: "decodeACE a = Inr d" "decode_list l = Inr ds'"
    and ds: "ds = (case d of None \<Rightarrow> ds' | Some d \<Rightarrow> d # ds')" by auto
  with Cons.IH [OF d(2)] show ?case
    by (auto simp: stays_def removable_def split: option.splits)
qed simp

text \<open>
  What is added is what is read back: after \<open>AddACEs\<close> the DACL decodes to the old entries
  followed by the added ones (their \<open>Inherited\<close> field recomputed from the flags), the old entries'
  bytes stand unchanged in front, and the parts outside the DACL are kept.
\<close>

theorem AddACEs_DecodeACEs:
  assumes "parse sd = Inr p" "aces (dacl p) = Inr l" "decode_list l = Inr ds" "add \<noteq> []"
    "list_all decoded_ok add" "acl_size (l @ map EncodeACE add) < 65536"
  shows "\<exists>out p'. AddACEs sd add = Inr (out, True) \<and> DecodeACEs out = Inr (ds @ map normal add) \<and>
    parse out = Inr p' \<and> aces (dacl p') = Inr (l @ map EncodeACE add) \<and>
    owner p' = owner p \<and> group p' = group p \<and> sacl p' = sacl p"
proof -
  obtain a as where add: "add = a # as" using assms(4) by (cases add) auto
  let ?k = "l @ map EncodeACE add"
  have "list_all ace_ok l" using assms(1,2) by (rule parse_dacl_entries_ok)
  moreover have "list_all ace_ok (map EncodeACE add)"
    using assms(5) by (auto simp: list_all_iff intro: EncodeACE_ok decoded_ok_small)
  ultimately have "propose ?k = Inr (Some ?k)" by (simp add: propose_ok)
  then obtain out where out: "AddACEs sd add = Inr (out, True)"
      "parse out = Inr (with_dacl p (ds_or_2 (dacl p) ?k) ?k)"
      "aces (dacl (with_dacl p (ds_or_2 (dacl p) ?k) ?k)) = Inr ?k"
    using add.act_view [OF assms(1,2) _ assms(6), of a as] by (auto simp: add)
  have "DecodeACEs out = Inr (ds @ map normal add)"
    using DecodeACEs_eq [OF out(2,3)] assms(3,5)
    by (simp add: decode_list_append decode_list_EncodeACE)
  with out show ?thesis by auto
qed

text \<open>
  \<open>RemoveACEs\<close> removes exactly the entries that decode, are not inherited and match: the
  result decodes to the remaining entries in their order, an entry of a type the package does not
  model and an inherited entry keep their bytes, and a second call changes nothing.
\<close>

theorem RemoveACEs_DecodeACEs:
  assumes "parse sd = Inr p" "aces (dacl p) = Inr l" "decode_list l = Inr ds" "acl_size l < 65536"
  shows "\<exists>out. RemoveACEs sd match = Inr (out, list_ex (removable match) ds) \<and>
    DecodeACEs out = Inr (filter (\<lambda>d. \<not> removable match d) ds) \<and>
    (\<exists>p'. parse out = Inr p' \<and> aces (dacl p') = Inr (filter (stays match) l)) \<and>
    RemoveACEs out match = Inr (out, False)"
proof (cases "list_ex (removable match) ds")
  case False
  note r = remove_loop_eq [OF assms(3), of match]
  have "filter (\<lambda>d. \<not> removable match d) ds = ds"
    using False by (auto simp: filter_id_conv list_ex_iff)
  moreover have "filter (stays match) l = l"
  proof -
    have "d \<in> set ds" if "a \<in> set l" "decodeACE a = Inr (Some d)" for a d
      using that assms(3) by (induction l arbitrary: ds) (auto split: option.splits)
    with False show ?thesis by (auto simp: filter_id_conv stays_def list_ex_iff)
  qed
  moreover have "RemoveACEs sd match = Inr (sd, False)"
    using remove.act_cases [OF assms(1,2), of match None] r False by (simp add: remove_edit_def)
  ultimately show ?thesis
    using False assms DecodeACEs_eq [OF assms(1,2)] by auto
next
  case True
  let ?k = "filter (stays match) l" and ?r = "filter (\<lambda>d. \<not> removable match d) ds"
  note r = remove_loop_eq [OF assms(3), of match]
  have ok: "list_all ace_ok ?k" using parse_dacl_entries_ok [OF assms(1,2)] by simp
  have size: "acl_size ?k < 65536" using acl_size_filter [of "stays match" l] assms(4) by simp
  have e: "remove_edit match l = Inr (Some ?k)"
    using r True ok by (simp add: remove_edit_def propose_ok)
  have "remove_loop match ?k = Inr (filter (stays match) ?k, list_ex (removable match) ?r)"
    using remove_loop_eq [of ?k ?r match] r by simp
  then have "remove_edit match ?k = Inr None"
    by (simp add: remove_edit_def list_ex_iff)
  then obtain out where out: "RemoveACEs sd match = Inr (out, True)"
      "parse out = Inr (with_dacl p (ds_or_2 (dacl p) ?k) ?k)"
      "aces (dacl (with_dacl p (ds_or_2 (dacl p) ?k) ?k)) = Inr ?k"
      "RemoveACEs out match = Inr (out, False)"
    using remove.act_view [OF assms(1,2) e size] remove.act_again [OF assms(1,2) e size] by auto
  moreover have "DecodeACEs out = Inr ?r"
    using DecodeACEs_eq [OF out(2,3)] r by simp
  ultimately show ?thesis using True by auto
qed

lemma ace_guid_cases:
  "ace_guid ace f pr w off = Inr (g, off') \<Longrightarrow>
     (length g = 0 \<or> length g = 16 \<and> off + 16 \<le> length ace) \<and> off' = off + length g"
  by (auto simp: ace_guid_def slice_length split: if_splits)

lemma decodeACE_ok:
  assumes "decodeACE ace = Inr (Some d)"
  shows "decoded_ok d" "normal d = d"
proof -
  obtain ot iot off n where d: "sidLen (drop off ace) = Inr n" "TrusteeSID d = take n (drop off ace)"
      "ObjectType d = ot" "InheritedObjectType d = iot" "length ot \<in> {0, 16}" "length iot \<in> {0, 16}"
      "Inherited d = (Flags d AND AceFlagInherited \<noteq> 0)"
    using assms
    by (auto simp: decodeACE_def Let_def split: if_splits dest!: ace_guid_cases)
  then show "decoded_ok d" using sidLen_take by (auto simp: decoded_ok_def)
  show "normal d = d" using d(7) by (simp add: normal_def)
qed

text \<open>
  Entries survive translation both ways: an entry with GUIDs of zero or sixteen bytes and a
  well-formed SID encodes to a well-formed ACE that decodes to the same entry, and whatever
  \<open>decodeACE\<close> accepts re-encodes to bytes that decode to it again.
\<close>

theorem ACE_roundtrip:
  assumes "decoded_ok d" "decodeACE ace = Inr (Some e)"
  shows "ace_ok (EncodeACE d) \<and> decodeACE (EncodeACE d) = Inr (Some (normal d)) \<and>
    decodeACE (EncodeACE e) = Inr (Some e)"
  using assms decodeACE_ok [OF assms(2)]
  by (simp add: decodeACE_EncodeACE EncodeACE_ok decoded_ok_small)

text \<open>
  The inheritance vocabulary is a retract of the flag bits: the flags written for an
  inheritance read back as it, they never carry the inherited bit (so an entry written by this
  package is always removable), and reading depends on the two bits \<open>CONTAINER_INHERIT\<close> and
  \<open>NO_PROPAGATE\<close> only.
\<close>

theorem InheritanceOf_FlagsFor:
  "InheritanceOf (FlagsFor InheritanceThis) = InheritanceThis \<and>
   InheritanceOf (FlagsFor InheritanceChildren) = InheritanceChildren \<and>
   InheritanceOf (FlagsFor InheritanceDescendants) = InheritanceDescendants \<and>
   FlagsFor i AND AceFlagInherited = 0 \<and>
   InheritanceOf f = InheritanceOf (f AND (AceFlagContainerInherit OR AceFlagNoPropagate))"
proof (intro conjI)
  show "InheritanceOf (FlagsFor InheritanceThis) = InheritanceThis"
    "InheritanceOf (FlagsFor InheritanceChildren) = InheritanceChildren"
    "InheritanceOf (FlagsFor InheritanceDescendants) = InheritanceDescendants"
    by (simp_all add: InheritanceOf_def AceFlagContainerInherit_def
        AceFlagNoPropagate_def AceFlagInheritOnly_def)
  show "FlagsFor i AND AceFlagInherited = 0"
    by (cases i) (simp_all add: AceFlagContainerInherit_def AceFlagNoPropagate_def
        AceFlagInheritOnly_def AceFlagInherited_def)
  have "(f AND 6) AND 2 = f AND 2" "(f AND 6) AND 4 = f AND 4" by (simp_all add: and.assoc)
  then show "InheritanceOf f = InheritanceOf (f AND (AceFlagContainerInherit OR AceFlagNoPropagate))"
    by (simp add: InheritanceOf_def AceFlagContainerInherit_def AceFlagNoPropagate_def)
qed

lemma decodeACE_no_panic: "decodeACE ace \<noteq> Inl (GoPanic msg)"
proof -
  have "ace_guid a f pr w off \<noteq> Inl (GoPanic msg)" "sidLen b \<noteq> Inl (GoPanic msg)" for a f pr w off b
    by (simp_all add: ace_guid_def sidLen_def Let_def)
  then show ?thesis
    unfolding decodeACE_def Let_def
    by (simp add: bind_res_neq_Inl split: prod.split)
qed

lemma decode_list_no_panic: "decode_list l \<noteq> Inl (GoPanic msg)"
  by (induction l) (simp_all add: bind_res_neq_Inl decodeACE_no_panic)

lemma remove_loop_no_panic: "remove_loop match l \<noteq> Inl (GoPanic msg)"
  by (induction l) (simp_all add: bind_res_neq_Inl decodeACE_no_panic split: prod.split option.split)

lemma propose_no_panic: "[] \<notin> set l \<Longrightarrow> propose l \<noteq> Inl (GoPanic msg)"
  by (simp add: propose_def aclRevisionFor_nonempty)

lemma remove_edit_no_panic:
  assumes "[] \<notin> set l"
  shows "remove_edit match l \<noteq> Inl (GoPanic msg)"
  unfolding remove_edit_def
proof (rule bind_res_neq_Inl)
  show "remove_loop match l \<noteq> Inl (GoPanic msg)" by (rule remove_loop_no_panic)
  fix x
  assume x: "remove_loop match l = Inr x"
  have "set (fst x) \<subseteq> set l" using remove_loop_subset [of match l "fst x" "snd x"] x by simp
  then have "propose (fst x) \<noteq> Inl (GoPanic msg)" using assms by (intro propose_no_panic) blast
  then show "(case x of (kept, changed) \<Rightarrow> if changed then propose kept else Inr None) \<noteq> Inl (GoPanic msg)"
    by (cases x) simp
qed

lemma parse_entries_nonempty: "parse sd = Inr p \<Longrightarrow> aces (dacl p) = Inr l \<Longrightarrow> [] \<notin> set l"
  by (rule ace_ok_nonempty, rule parse_dacl_entries_ok)

text \<open>
  Neither reading nor editing the entries panics, whatever the bytes of the descriptor; in
  particular \<open>aclRevisionFor\<close> never indexes an empty entry.
\<close>

lemma ace_no_panic:
  "DecodeACEs sd \<noteq> Inl (GoPanic msg) \<and> AddACEs sd add \<noteq> Inl (GoPanic msg) \<and>
   RemoveACEs sd match \<noteq> Inl (GoPanic msg)"
proof (intro conjI)
  show "DecodeACEs sd \<noteq> Inl (GoPanic msg)"
    unfolding DecodeACEs_def
    by (simp add: bind_res_neq_Inl parse_no_panic parse_aces_no_panic decode_list_no_panic)
  show "AddACEs sd add \<noteq> Inl (GoPanic msg)"
  proof (cases add)
    case (Cons a as)
    have "propose (l @ map EncodeACE (a # as)) \<noteq> Inl (GoPanic msg)"
      if "parse sd = Inr p" "aces (dacl p) = Inr l" for p l
      using parse_entries_nonempty [OF that]
      by (intro propose_no_panic) (auto simp: EncodeACE_nonempty EncodeACE_nonempty [symmetric])
    then show ?thesis
      unfolding Cons add.act_error using parse_no_panic parse_aces_no_panic by blast
  qed (simp add: AddACEs_def)
  show "RemoveACEs sd match \<noteq> Inl (GoPanic msg)"
    unfolding remove.act_error
    using parse_no_panic parse_aces_no_panic parse_entries_nonempty remove_edit_no_panic by blast
qed


text \<open>A plain entry that allows Everyone to read properties.\<close>

definition sample :: DecodedACE where
  "sample = \<lparr>TrusteeSID = everyone, Deny = False, Mask = 16, ObjectType = [],
     InheritedObjectType = [], Flags = 0, Inherited = False\<rparr>"

lemma sample_length: "length (EncodeACE sample) = 20"
  by (simp add: sample_def EncodeACE_length length_everyone)

lemma sample_ok: "decoded_ok sample" "ace_ok (EncodeACE sample)"
  using EncodeACE_ok [of sample] sample_length
  by (simp_all add: decoded_ok_def sample_def sid_ok_iff everyone_def)

text \<open>
  The revision is recomputed from the two object types the package knows, so an edit can lower
  it: a revision-4 DACL whose only object entry is of another type (here a callback object entry,
  type 0x0B) is written back with revision 2 when a plain entry is added.
\<close>

theorem AddACEs_lowers_revision:
  "\<exists>sd p add out p'. parse sd = Inr p \<and> dacl p ! 0 = 4 \<and> aces (dacl p) = Inr [[0x0B, 0, 8, 0, 0, 0, 0, 0]] \<and>
     list_all decoded_ok add \<and> AddACEs sd add = Inr (out, True) \<and> parse out = Inr p' \<and> dacl p' ! 0 = 2"
proof -
  let ?cb = "[0x0B, 0, 8, 0, 0, 0, 0, 0] :: bytes"
  let ?k = "[?cb] @ map EncodeACE [sample]" and ?p = "fresh_with 4 [?cb]"
  have cb: "list_all ace_ok [?cb]" "acl_size [?cb] < 65536"
    by (simp_all add: ace_ok_def slice_def acl_size_def)
  note p = parse_fresh_with [OF cb, of 4]
  have size: "acl_size ?k < 65536" by (simp add: acl_size_def sample_length)
  have ok: "list_all ace_ok ?k" using cb(1) sample_ok(2) by simp
  have "hd (EncodeACE sample) = 0" by (simp add: EncodeACE_def sample_def aceTypeAccessAllowed_def)
  then have rev: "ds_or_2 (dacl ?p) ?k = 2"
    using ds_or_2_ok [OF ok] by (simp add: revision_of_def ace_consts)
  obtain out where "AddACEs (serialize ?p) [sample] = Inr (out, True)" "parse out = Inr (with_dacl ?p 2 ?k)"
    using add.act_view [OF p _ size, of sample "[]"] propose_ok [OF ok] rev by auto
  moreover have "dacl ?p ! 0 = 4" "dacl (with_dacl ?p 2 ?k) ! 0 = 2"
    by (simp_all add: fresh_with_def buildACL_eq)
  moreover have "list_all decoded_ok [sample]" using sample_ok(1) by simp
  ultimately show ?thesis using p by blast
qed

section \<open>Witnesses\<close>

theorem ACE_roundtrip_witness:
  "ace_ok (EncodeACE sample) \<and> decodeACE (EncodeACE sample) = Inr (Some sample)"
proof -
  have "normal sample = sample" by (simp add: normal_def sample_def)
  then show ?thesis
    using ACE_roundtrip [OF sample_ok(1), of "EncodeACE sample" sample] sample_ok(1)
    by (simp add: decodeACE_EncodeACE)
qed

theorem AddACEs_DecodeACEs_witness:
  "\<exists>out. AddACEs (serialize fresh) [sample] = Inr (out, True) \<and> DecodeACEs out = Inr [normal sample]"
proof -
  have "list_all decoded_ok [sample]" "acl_size ([] @ map EncodeACE [sample]) < 65536"
    using sample_ok(1) by (simp_all add: acl_size_def sample_length)
  then show ?thesis
    using AddACEs_DecodeACEs [OF parse_fresh _ _ , of "[]" "[sample]"] by auto
qed

theorem RemoveACEs_DecodeACEs_witness:
  "\<exists>out. RemoveACEs (serialize (fresh_with 2 [EncodeACE sample])) (\<lambda>d. Mask d = 16) = Inr (out, True) \<and>
     DecodeACEs out = Inr []"
proof -
  let ?l = "[EncodeACE sample]"
  have l: "list_all ace_ok ?l" "acl_size ?l < 65536"
    using sample_ok(2) by (simp_all add: acl_size_def sample_length)
  have d: "decode_list ?l = Inr [normal sample]"
    using sample_ok(1) by (simp add: decodeACE_EncodeACE)
  have "removable (\<lambda>d. Mask d = 16) (normal sample)"
    by (simp add: removable_def normal_def sample_def)
  then show ?thesis
    using RemoveACEs_DecodeACEs [OF parse_fresh_with [OF l, of 2] d l(2), of "\<lambda>d. Mask d = 16"] by auto
qed

end
