(* ===== verification/Attrs.thy ===== *)
theory Attrs
  imports GoBase
begin

text \<open>
  Package \<open>internal/attrs\<close>: the encodings of Active Directory attribute values.  \<open>attrs.go\<close> has the
  mixed-endian \<open>objectGUID\<close>, the \<open>objectSid\<close>, the FILETIME, the \<open>groupType\<close> bits and the signed
  decimal of a 32-bit attribute; \<open>enctypes.go\<close> has the encryption-type mask.

  A \<open>time.Time\<close> is the integer count of nanoseconds since the Unix epoch; \<open>time.Unix\<close> takes the
  count modulo \<open>2^64\<close>, the range of \<open>int64\<close>, which \<open>wrap64\<close> writes out, and so does \<open>UnixNano\<close>.
\<close>

section \<open>GUIDs and SIDs\<close>

definition hex_word :: "nat \<Rightarrow> 'a::len word \<Rightarrow> string" where
  "hex_word k w = pad_hex k (unat w)"

text \<open>\<open>%012x\<close> of a byte slice: two digits per byte (six bytes fill the width).\<close>

definition hex_bytes :: "bytes \<Rightarrow> string" where
  "hex_bytes b = concat (map hex_byte b)"

definition GUIDToString :: "bytes \<Rightarrow> string res" where
  "GUIDToString b =
     (if length b \<noteq> 16
      then Inl (ErrMsg (''attrs: objectGUID is '' @ fmt_nat 10 (length b) @ '' bytes, want 16''))
      else Inr (hex_word 8 (un_le32 (slice 0 4 b)) @ ''-'' @
                hex_word 4 (un_le16 (slice 4 6 b)) @ ''-'' @
                hex_word 4 (un_le16 (slice 6 8 b)) @ ''-'' @
                hex_word 4 (un_be16 (slice 8 10 b)) @ ''-'' @
                hex_bytes (slice 10 16 b)))"

text \<open>The loop over the sixteen pairs of digits.\<close>

fun hex_pairs :: "nat \<Rightarrow> string \<Rightarrow> bytes res" where
  "hex_pairs 0 h = Inr []"
| "hex_pairs (Suc n) h =
     bind_res (ParseUint (take 2 h) 16 8) (\<lambda>v.
     bind_res (hex_pairs n (drop 2 h)) (\<lambda>r. Inr (word_of_nat v # r)))"

definition GUIDToBytes :: "string \<Rightarrow> bytes res" where
  "GUIDToBytes s =
     (let hexs = remove_char CHR ''-'' (TrimSpace s) in
      if length hexs \<noteq> 32 then Inl (ErrMsg (''attrs: '' @ quote s @ '' is not a GUID''))
      else case hex_pairs 16 hexs of
          Inl e \<Rightarrow> Inl (ErrWrap (''attrs: '' @ quote s @ '' is not a GUID'') e)
        | Inr flat \<Rightarrow>
            let out = replicate 16 0;
                out = put_at 0 (le32 (un_be32 (slice 0 4 flat))) out;
                out = put_at 4 (le16 (un_be16 (slice 4 6 flat))) out;
                out = put_at 6 (le16 (un_be16 (slice 6 8 flat))) out
            in Inr (put_at 8 (slice 8 16 flat) out))"

definition authority_of :: "bytes \<Rightarrow> u64" where
  "authority_of b = foldl (\<lambda>a x. push_bit 8 a OR ucast x) 0 b"

fun sub_authorities :: "nat \<Rightarrow> bytes \<Rightarrow> u32 list" where
  "sub_authorities 0 b = []"
| "sub_authorities (Suc n) b = un_le32 (take 4 b) # sub_authorities n (drop 4 b)"

definition SIDToString :: "bytes \<Rightarrow> string res" where
  "SIDToString b =
     (if length b < 8
      then Inl (ErrMsg (''attrs: objectSid is '' @ fmt_nat 10 (length b) @ '' bytes, too short''))
      else let subCount = unat (b ! 1) in
        if length b \<noteq> 8 + 4 * subCount
        then Inl (ErrMsg (''attrs: objectSid is '' @ fmt_nat 10 (length b) @ '' bytes, want '' @
               fmt_nat 10 (8 + 4 * subCount) @ '' for '' @ fmt_nat 10 subCount @ '' sub-authorities''))
        else Inr (''S-'' @ fmt_nat 10 (unat (b ! 0)) @ ''-'' @
               fmt_nat 10 (unat (authority_of (slice 2 8 b))) @
               concat (map (\<lambda>v. ''-'' @ fmt_nat 10 (unat v)) (sub_authorities subCount (drop 8 b)))))"

text \<open>The loop over the sub-authorities of the text form.\<close>

fun parse_subs :: "string \<Rightarrow> string list \<Rightarrow> bytes res" where
  "parse_subs s [] = Inr []"
| "parse_subs s (sub # subs) =
     (case ParseUint sub 10 32 of
        Inl e \<Rightarrow> Inl (ErrWrap (''attrs: '' @ quote s @ '' has a bad sub-authority '' @ quote sub) e)
      | Inr v \<Rightarrow> bind_res (parse_subs s subs) (\<lambda>r. Inr (le32 (word_of_nat v) @ r)))"

definition SIDFromString :: "string \<Rightarrow> bytes res" where
  "SIDFromString s =
     (let parts = Split CHR ''-'' (TrimSpace s) in
      if length parts < 3 \<or> \<not> EqualFold (parts ! 0) ''S''
      then Inl (ErrMsg (''attrs: '' @ quote s @ '' is not a SID''))
      else case ParseUint (parts ! 1) 10 8 of
          Inl e \<Rightarrow> Inl (ErrWrap (''attrs: '' @ quote s @ '' has no revision'') e)
        | Inr rv \<Rightarrow> (case ParseUint (parts ! 2) 10 48 of
            Inl e \<Rightarrow> Inl (ErrWrap (''attrs: '' @ quote s @ '' has no identifier authority'') e)
          | Inr authority \<Rightarrow>
              let subs = drop 3 parts in
              if 15 < length subs
              then Inl (ErrMsg (''attrs: '' @ quote s @ '' has '' @ fmt_nat 10 (length subs) @
                     '' sub-authorities, at most 15 are allowed''))
              else bind_res (parse_subs s subs) (\<lambda>r.
                Inr ([word_of_nat rv, word_of_nat (length subs)] @
                     map (\<lambda>i. ucast (drop_bit (8 * (5 - i)) (word_of_nat authority :: u64))) [0..<6] @ r))))"

section \<open>FILETIME\<close>

definition wrap64 :: "int \<Rightarrow> int" where
  "wrap64 i = (i + 2 ^ 63) mod 2 ^ 64 - 2 ^ 63"

definition FileTimeNever :: int where "FileTimeNever = 0x7FFFFFFFFFFFFFFF"
definition fileTimeEpochOffset :: int where "fileTimeEpochOffset = 116444736000000000"

text \<open>Go's integer division truncates towards zero.\<close>

definition quot :: "int \<Rightarrow> int \<Rightarrow> int" where
  "quot a b = (if a < 0 then - ((- a) div b) else a div b)"

definition FileTimeToTime :: "string \<Rightarrow> int option res" where
  "FileTimeToTime s =
     (if s = [] then Inr None
      else case ParseInt s 10 64 of
          Inl e \<Rightarrow> Inl (ErrWrap (''attrs: '' @ quote s @ '' is not a FILETIME'') e)
        | Inr v \<Rightarrow> if v = 0 \<or> v = FileTimeNever then Inr None
            else Inr (Some (wrap64 (wrap64 (v - fileTimeEpochOffset) * 100))))"

definition TimeToFileTime :: "int \<Rightarrow> string" where
  "TimeToFileTime t = FormatInt (wrap64 (quot (wrap64 t) 100 + fileTimeEpochOffset))"

section \<open>userAccountControl and groupType\<close>

definition UACAccountDisable :: u32 where "UACAccountDisable = 0x0002"
definition UACNormalAccount :: u32 where "UACNormalAccount = 0x0200"
definition UACDontExpirePassword :: u32 where "UACDontExpirePassword = 0x10000"
definition UACWorkstationTrustAccount :: u32 where "UACWorkstationTrustAccount = 0x1000"
definition UACTrustedForDelegation :: u32 where "UACTrustedForDelegation = 0x80000"

definition GroupTypeSystem :: u32 where "GroupTypeSystem = 0x00000001"
definition GroupTypeGlobal :: u32 where "GroupTypeGlobal = 0x00000002"
definition GroupTypeDomainLocal :: u32 where "GroupTypeDomainLocal = 0x00000004"
definition GroupTypeUniversal :: u32 where "GroupTypeUniversal = 0x00000008"
definition GroupTypeSecurity :: u32 where "GroupTypeSecurity = 0x80000000"

definition groupTypeScopeMask :: u32 where
  "groupTypeScopeMask = GroupTypeGlobal OR GroupTypeDomainLocal OR GroupTypeUniversal"

lemmas group_type_defs = GroupTypeGlobal_def GroupTypeDomainLocal_def GroupTypeUniversal_def
  GroupTypeSecurity_def groupTypeScopeMask_def

text \<open>
  The string types \<open>adcore.GroupScope\<close> and \<open>adcore.GroupCategory\<close>: the constants the source names,
  and any other string.
\<close>

datatype group_scope = GroupScopeDomainLocal | GroupScopeGlobal | GroupScopeUniversal | GroupScopeOther string
datatype group_category = GroupCategorySecurity | GroupCategoryDistribution | GroupCategoryOther string

definition ScopeAndCategory :: "u32 \<Rightarrow> group_scope \<times> group_category" where
  "ScopeAndCategory v =
     (let category = (if v AND GroupTypeSecurity \<noteq> 0 then GroupCategorySecurity
                      else GroupCategoryDistribution);
          b = v AND groupTypeScopeMask;
          scope = (if b = GroupTypeDomainLocal then GroupScopeDomainLocal
                   else if b = GroupTypeUniversal then GroupScopeUniversal
                   else GroupScopeGlobal)
      in (scope, category))"

definition GroupTypeValue :: "group_scope \<Rightarrow> group_category \<Rightarrow> u32" where
  "GroupTypeValue scope category =
     (let v = (case scope of
                 GroupScopeDomainLocal \<Rightarrow> GroupTypeDomainLocal
               | GroupScopeUniversal \<Rightarrow> GroupTypeUniversal
               | _ \<Rightarrow> GroupTypeGlobal)
      in if category \<noteq> GroupCategoryDistribution then v OR GroupTypeSecurity else v)"

definition GroupTypeString :: "u32 \<Rightarrow> string" where
  "GroupTypeString v = FormatInt (sint v)"

definition ParseGroupType :: "string \<Rightarrow> u32 res" where
  "ParseGroupType s =
     (case ParseInt (TrimSpace s) 10 64 of
        Inl e \<Rightarrow> Inl (ErrWrap (''attrs: '' @ quote s @ '' is not a groupType'') e)
      | Inr v \<Rightarrow> Inr (word_of_int v))"

definition ParseUint32 :: "string \<Rightarrow> u32 res" where
  "ParseUint32 s =
     (case ParseInt (TrimSpace s) 10 64 of
        Inl e \<Rightarrow> Inl (ErrWrap (''attrs: '' @ quote s @ '' is not an integer attribute'') e)
      | Inr v \<Rightarrow> Inr (word_of_int v))"

definition Uint32String :: "u32 \<Rightarrow> string" where
  "Uint32String v = FormatInt (sint v)"

section \<open>Encryption types\<close>

definition encDESCBCCRC :: u32 where "encDESCBCCRC = 1"
definition encDESCBCMD5 :: u32 where "encDESCBCMD5 = 2"
definition encRC4 :: u32 where "encRC4 = 4"
definition encAES128 :: u32 where "encAES128 = 8"
definition encAES256 :: u32 where "encAES256 = 16"

definition encTypes :: "(u32 \<times> string) list" where
  "encTypes = [(encDESCBCCRC, ''DES-CBC-CRC''), (encDESCBCMD5, ''DES-CBC-MD5''),
     (encRC4, ''RC4''), (encAES128, ''AES128''), (encAES256, ''AES256'')]"

text \<open>The switch in the loop of \<open>EncTypeBits\<close>; no case leaves the mask as it is.\<close>

definition enc_bit :: "string \<Rightarrow> u32" where
  "enc_bit n =
     (let s = ToUpper (TrimSpace n) in
      if s = ''DES-CBC-CRC'' then encDESCBCCRC
      else if s = ''DES-CBC-MD5'' then encDESCBCMD5
      else if s = ''RC4'' \<or> HasPrefix s ''RC4-HMAC'' then encRC4
      else if HasPrefix s ''AES128'' then encAES128
      else if HasPrefix s ''AES256'' then encAES256
      else 0)"

definition EncTypeBits :: "string list \<Rightarrow> u32" where
  "EncTypeBits names = foldl (\<lambda>v n. v OR enc_bit n) 0 names"

definition EncTypeNames :: "u32 \<Rightarrow> string list" where
  "EncTypeNames v = map snd (filter (\<lambda>e. v AND fst e \<noteq> 0) encTypes)"

section \<open>Words as numbers\<close>

lemma or_push_bit: 
  assumes "n < 2 ^ k" shows "n OR push_bit k m = n + 2 ^ k * (m :: nat)"
proof -
  have "n AND push_bit k m = 0"
  proof (rule bit_eqI)
    fix i
    have "take_bit k n = n" using assms by (simp add: take_bit_nat_eq_self_iff)
    then have "bit n i \<Longrightarrow> i < k" by (metis bit_take_bit_iff)
    then show "bit (n AND push_bit k m) i = bit 0 i" by (auto simp: bit_simps)
  qed
  then show ?thesis by (simp add: push_bit_eq_mult mult.commute flip: disjunctive_add_eq_or)
qed

lemma unat_byte_or:
  assumes "k + 8 \<le> LENGTH('a::len)" "unat w < 2 ^ k"
  shows "unat (w OR push_bit k (ucast (b :: byte)) :: 'a word) = unat w + 2 ^ k * unat b"
proof -
  have "2 ^ k * unat b < 2 ^ (k + 8)" using byte_less [of b] by (simp add: power_add)
  also have "(2::nat) ^ (k + 8) \<le> 2 ^ LENGTH('a)" using assms by (intro power_increasing) auto
  finally have "2 ^ k * unat b < 2 ^ LENGTH('a)" .
  moreover have "unat b < 2 ^ LENGTH('a)"
  proof -
    have "(2::nat)^8 \<le> 2 ^ LENGTH('a)" using assms by (intro power_increasing) auto
    with byte_less [of b] show ?thesis by simp
  qed
  ultimately have "unat (push_bit k (ucast b) :: 'a word) = push_bit k (unat b)"
    by (simp add: unsigned_push_bit_eq unsigned_ucast_eq take_bit_nat_eq_self)
       (simp add: push_bit_eq_mult take_bit_nat_eq_self mult.commute)
  then show ?thesis using assms(2) by (simp add: unsigned_or_eq or_push_bit)
qed

lemma unat_ucast_byte: "8 \<le> LENGTH('a::len) \<Longrightarrow> unat (ucast (b :: byte) :: 'a word) = unat b"
proof -
  assume "8 \<le> LENGTH('a)"
  then have "(2::nat)^8 \<le> 2 ^ LENGTH('a)" by (intro power_increasing) auto
  with byte_less [of b] show ?thesis by (simp add: unsigned_ucast_eq take_bit_nat_eq_self)
qed

lemma unat_un_le16: "unat (un_le16 [a, b]) = unat a + 256 * unat b"
  using byte_less [of a] unat_byte_or [of 8 "ucast a :: u16" b] by (simp add: unat_ucast_byte)

lemma un_be16_le: "un_be16 [a, b] = un_le16 [b, a]" by (simp add: or.commute)
lemma un_be32_le: "un_be32 [a, b, c, d] = un_le32 [d, c, b, a]" by (simp add: or.commute or.left_commute)

lemma unat_un_le32: "unat (un_le32 [a, b, c, d]) = unat a + 256 * unat b + 65536 * unat c + 16777216 * unat d"
proof -
  note l = byte_less [of a] byte_less [of b] byte_less [of c] 
  have 1: "unat (ucast a OR push_bit 8 (ucast b) :: u32) = unat a + 256 * unat b"
    using l unat_byte_or [of 8 "ucast a :: u32" b] by (simp add: unat_ucast_byte)
  have 2: "unat (ucast a OR push_bit 8 (ucast b) OR push_bit 16 (ucast c) :: u32) = unat a + 256 * unat b + 65536 * unat c"
    using l unat_byte_or [of 16 "ucast a OR push_bit 8 (ucast b) :: u32" c] 1 by (simp add: or.assoc)
  show ?thesis
    using l unat_byte_or [of 24 "ucast a OR push_bit 8 (ucast b) OR push_bit 16 (ucast c) :: u32" d] 2 by (simp add: or.assoc)
qed


section \<open>The text of a GUID\<close>

lemma hex_word_le32: "hex_word 8 (un_le32 [a, b, c, d]) = hex_bytes [d, c, b, a]"
proof -
  let ?n = "unat a + 256 * unat b + 65536 * unat c + 16777216 * unat d"
  note l = byte_less [of a] byte_less [of b] byte_less [of c] byte_less [of d]
  have "pad_hex 8 ?n = fix_hex 8 ?n" using l by (intro pad_hex_fix_hex) simp_all
  also have "fix_hex 8 ?n = fix_hex 2 (unat d) @ fix_hex 6 (unat a + 256 * unat b + 65536 * unat c)"
    using fix_hex_append [of 2 6 ?n] l by simp
  also have "fix_hex 6 (unat a + 256 * unat b + 65536 * unat c) = fix_hex 2 (unat c) @ fix_hex 4 (unat a + 256 * unat b)"
    using fix_hex_append [of 2 4 "unat a + 256 * unat b + 65536 * unat c"] l by simp
  also have "fix_hex 4 (unat a + 256 * unat b) = fix_hex 2 (unat b) @ fix_hex 2 (unat a)"
    using fix_hex_append [of 2 2 "unat a + 256 * unat b"] l by simp
  finally show ?thesis by (simp add: hex_word_def unat_un_le32 hex_bytes_def hex_byte_def del: un_le32.simps)
qed

lemma hex_word_le16: "hex_word 4 (un_le16 [a, b]) = hex_bytes [b, a]"
proof -
  let ?n = "unat a + 256 * unat b"
  note l = byte_less [of a] byte_less [of b]
  have "pad_hex 4 ?n = fix_hex 4 ?n" using l by (intro pad_hex_fix_hex) simp_all
  also have "fix_hex 4 ?n = fix_hex 2 (unat b) @ fix_hex 2 (unat a)"
    using fix_hex_append [of 2 2 ?n] l by simp
  finally show ?thesis by (simp add: hex_word_def unat_un_le16 hex_bytes_def hex_byte_def del: un_le16.simps)
qed

lemma length_hex_byte [simp]: "length (hex_byte b) = 2"
  by (simp add: hex_byte_def)

lemma hex_bytes_simps [simp]:
  "hex_bytes [] = []" "hex_bytes (b # bs) = hex_byte b @ hex_bytes bs"
  "hex_bytes (bs @ cs) = hex_bytes bs @ hex_bytes cs"
  by (simp_all add: hex_bytes_def)

lemma length_hex_bytes [simp]: "length (hex_bytes b) = 2 * length b"
  by (induction b) simp_all

lemma hex_pairs_hex_bytes [simp]: "hex_pairs (length b) (hex_bytes b) = Inr b"
  by (induction b) (simp_all add: ParseUint_hex_byte)

lemma set_fix_hex: "c \<in> set (fix_hex k n) \<Longrightarrow> \<exists>d < 16. c = digit_char d"
proof (induction k arbitrary: n)
  case (Suc k)
  have "\<exists>d < 16. digit_char (n mod 16) = digit_char d" by (intro exI [of _ "n mod 16"]) simp
  with Suc show ?case by auto
qed simp

lemma set_hex_bytes: "c \<in> set (hex_bytes b) \<Longrightarrow> c \<noteq> CHR ''-'' \<and> \<not> is_space c"
proof -
  assume "c \<in> set (hex_bytes b)"
  then obtain d where "d < 16" "c = digit_char d"
    by (auto simp: hex_bytes_def hex_byte_def dest: set_fix_hex)
  then have "(of_char c :: nat) = (if d < 10 then 48 + d else 87 + d)"
    by (simp flip: digit_char_eq_iff)
  then show "c \<noteq> CHR ''-'' \<and> \<not> is_space c" by (auto simp: is_space_def split: if_splits)
qed

lemma remove_char_append [simp]: "remove_char d (s @ t) = remove_char d s @ remove_char d t"
  by (simp add: remove_char_def)

lemma remove_char_hex_bytes [simp]: "remove_char CHR ''-'' (hex_bytes b) = hex_bytes b"
  using set_hex_bytes by (auto simp: remove_char_def filter_id_conv)

lemma TrimSpace_hex:
  assumes "b \<noteq> []" "c \<noteq> []"
  shows "TrimSpace (hex_bytes b @ m @ hex_bytes c) = hex_bytes b @ m @ hex_bytes c"
proof -
  have ne: "hex_bytes b \<noteq> []" "hex_bytes c \<noteq> []"
    using assms by (cases b; cases c; simp add: hex_byte_def fix_hex_2)+
  then have "\<not> is_space (hd (hex_bytes b))" "\<not> is_space (last (hex_bytes c))"
    by (metis set_hex_bytes hd_in_set last_in_set)+
  with ne show ?thesis by (intro TrimSpace_id) simp
qed

lemma slices_16:
  assumes "length b = 16"
  shows "b = slice 0 4 b @ slice 4 6 b @ slice 6 8 b @ slice 8 10 b @ slice 10 16 b"
  using append_take_drop_id [of 4 b] append_take_drop_id [of 2 "drop 4 b"]
    append_take_drop_id [of 2 "drop 6 b"] append_take_drop_id [of 2 "drop 8 b"] assms
  by (simp add: slice_def)

lemma GUIDToString_eq:
  assumes "length p = 4" "length q = 2" "length r = 2" "length t = 2" "length u = 6"
  shows "GUIDToString (p @ q @ r @ t @ u) = Inr (hex_bytes (rev p) @ ''-'' @ hex_bytes (rev q) @ ''-'' @
    hex_bytes (rev r) @ ''-'' @ hex_bytes t @ ''-'' @ hex_bytes u)"
proof -
  from assms(1) obtain p0 p1 p2 p3 where p: "p = [p0, p1, p2, p3]" by (rule list_eq4)
  from assms(2) obtain q0 q1 where q: "q = [q0, q1]" by (rule list_eq2)
  from assms(3) obtain r0 r1 where r: "r = [r0, r1]" by (rule list_eq2)
  from assms(4) obtain t0 t1 where t: "t = [t0, t1]" by (rule list_eq2)
  have "slice 0 4 (p @ q @ r @ t @ u) = p" "slice 4 6 (p @ q @ r @ t @ u) = q"
    "slice 6 8 (p @ q @ r @ t @ u) = r" "slice 8 10 (p @ q @ r @ t @ u) = t"
    "slice 10 16 (p @ q @ r @ t @ u) = u"
    using assms by (simp_all add: slice_def)
  moreover have "hex_word 8 (un_le32 p) = hex_bytes (rev p)" "hex_word 4 (un_le16 q) = hex_bytes (rev q)"
    "hex_word 4 (un_le16 r) = hex_bytes (rev r)" "hex_word 4 (un_be16 t) = hex_bytes t"
    unfolding p q r t un_be16_le hex_word_le32 hex_word_le16 by simp_all
  ultimately show ?thesis using assms by (simp add: GUIDToString_def)
qed

lemma GUIDToBytes_hex:
  assumes "length p = 4" "length q = 2" "length r = 2" "length t = 2" "length u = 6"
  shows "GUIDToBytes (hex_bytes (rev p) @ ''-'' @ hex_bytes (rev q) @ ''-'' @ hex_bytes (rev r) @ ''-'' @
    hex_bytes t @ ''-'' @ hex_bytes u) = Inr (p @ q @ r @ t @ u)"
proof -
  let ?flat = "rev p @ rev q @ rev r @ t @ u"
  from assms(1) obtain p0 p1 p2 p3 where p: "p = [p0, p1, p2, p3]" by (rule list_eq4)
  from assms(2) obtain q0 q1 where q: "q = [q0, q1]" by (rule list_eq2)
  from assms(3) obtain r0 r1 where r: "r = [r0, r1]" by (rule list_eq2)
  have ne: "rev p \<noteq> []" "u \<noteq> []" using assms by auto
  have s: "slice 0 4 ?flat = rev p" "slice 4 6 ?flat = rev q" "slice 6 8 ?flat = rev r"
    "slice 8 16 ?flat = t @ u"
    using assms by (simp_all add: slice_def)
  have w: "le32 (un_be32 (rev p)) = p" "le16 (un_be16 (rev q)) = q" "le16 (un_be16 (rev r)) = r"
    using le32_un_le32 le16_un_le16 by (simp_all add: p q r un_be32_le un_be16_le del: un_be32.simps un_be16.simps un_le32.simps un_le16.simps)
  have h: "hex_pairs 16 (hex_bytes ?flat) = Inr ?flat"
    using hex_pairs_hex_bytes [of ?flat] assms by simp
  have put: "put_at 8 (t @ u) (put_at 6 r (put_at 4 q (put_at 0 p (replicate 16 0)))) = p @ q @ r @ t @ u"
    using assms by (simp add: put_at_def)
  have "remove_char CHR ''-'' (CHR ''-'' # x) = remove_char CHR ''-'' x" for x
    by (simp add: remove_char_def)
  then show ?thesis
    using assms h TrimSpace_hex [OF ne, of "''-'' @ hex_bytes (rev q) @ ''-'' @ hex_bytes (rev r) @ ''-'' @ hex_bytes t @ ''-''"]
    by (simp add: GUIDToBytes_def Let_def s w put)
qed

lemma GUID_print_parse:
  assumes "length b = 16"
  obtains s where "GUIDToString b = Inr s" "length s = 36" "GUIDToBytes s = Inr b"
proof -
  note l = slice_length [of 4 b 0] slice_length [of 6 b 4] slice_length [of 8 b 6]
    slice_length [of 10 b 8] slice_length [of 16 b 10]
  let ?s = "hex_bytes (rev (slice 0 4 b)) @ ''-'' @ hex_bytes (rev (slice 4 6 b)) @ ''-'' @
    hex_bytes (rev (slice 6 8 b)) @ ''-'' @ hex_bytes (slice 8 10 b) @ ''-'' @ hex_bytes (slice 10 16 b)"
  have "GUIDToString b = Inr ?s"
    using GUIDToString_eq [of "slice 0 4 b" "slice 4 6 b" "slice 6 8 b" "slice 8 10 b" "slice 10 16 b"]
      l assms slices_16 [OF assms] by simp
  moreover have "length ?s = 36" using l assms by simp
  moreover have "GUIDToBytes ?s = Inr b"
    using GUIDToBytes_hex [of "slice 0 4 b" "slice 4 6 b" "slice 6 8 b" "slice 8 10 b" "slice 10 16 b"]
      l assms slices_16 [OF assms] by simp
  ultimately show thesis by (rule that)
qed

section \<open>The text of a SID\<close>

lemma dash_concat_Join: "p @ concat (map (\<lambda>v. ''-'' @ f v) vs) = Join ''-'' (p # map f vs)"
proof (induction vs arbitrary: p)
  case (Cons v vs)
  then show ?case using Join_Cons_head [of "''-''" "CHR ''-''" "f v" "map f vs"] by simp
qed simp

lemma take_bit_unat_less:
  assumes "\<And>i. k \<le> i \<Longrightarrow> \<not> bit (w :: 'a::len word) i"
  shows "unat w < 2 ^ k"
proof -
  have "take_bit k w = w"
    by (rule bit_eqI) (use assms in \<open>auto simp: bit_take_bit_iff not_less [symmetric]\<close>)
  then have "unat w = take_bit k (unat w)" by (metis unsigned_take_bit_eq)
  then show ?thesis by (metis take_bit_nat_less_exp)
qed

lemma authority_bytes:
  assumes "length b = 6"
  shows "unat (authority_of b) < 2 ^ 48"
    "map (\<lambda>i. ucast (drop_bit (8 * (5 - i)) (authority_of b))) [0..<6] = b"
proof -
  from assms have "length (take 4 b) = 4" "length (drop 4 b) = 2" by simp_all
  then obtain b0 b1 b2 b3 b4 b5 where "take 4 b = [b0, b1, b2, b3]" "drop 4 b = [b4, b5]"
    by (metis list_eq4 list_eq2)
  then have b: "b = [b0, b1, b2, b3, b4, b5]" by (metis append_take_drop_id append_Cons append_Nil)
  show "unat (authority_of b) < 2 ^ 48"
    by (rule take_bit_unat_less) (auto simp: b authority_of_def bit_simps byte_bit_high)
  have "[0..<6] = [0, 1, 2, 3, 4, 5]" by (simp add: upt_rec)
  then show "map (\<lambda>i. ucast (drop_bit (8 * (5 - i)) (authority_of b))) [0..<6] = b"
    by (auto simp: b authority_of_def bit_simps byte_bit_high intro!: bit_word_eqI)
qed

lemma length_sub_authorities [simp]: "length (sub_authorities n b) = n"
  by (induction n arbitrary: b) simp_all

lemma concat_sub_authorities:
  "length b = 4 * n \<Longrightarrow> concat (map le32 (sub_authorities n b)) = b"
proof (induction n arbitrary: b)
  case (Suc n)
  then have "length (take 4 b) = 4" by simp
  then obtain w x y z where "take 4 b = [w, x, y, z]" by (rule list_eq4)
  then have "le32 (un_le32 (take 4 b)) = take 4 b" by (simp del: un_le32.simps)
  with Suc show ?case by simp
qed simp

lemma parse_subs_fmt:
  "parse_subs s (map (\<lambda>v. fmt_nat 10 (unat v)) vs) = Inr (concat (map le32 vs))"
proof (induction vs)
  case (Cons v vs)
  have "unat v < 2 ^ 32" using unsigned_less [of v, where ?'a = nat] by simp
  with Cons show ?case by (simp add: ParseUint_fmt_nat)
qed simp

lemma fmt_nat_10_ok: "CHR ''-'' \<notin> set (fmt_nat 10 n)" "c \<in> set (fmt_nat 10 n) \<Longrightarrow> \<not> is_space c"
proof -
  show "CHR ''-'' \<notin> set (fmt_nat 10 n)" by (rule fmt_nat_no_sign) simp_all
  assume "c \<in> set (fmt_nat 10 n)"
  then obtain d where "d < 10" "digit_char d = c" using set_fmt_nat [of 10 c n] by auto
  then show "\<not> is_space c" by (simp add: digit_char_eq_iff is_space_def)
qed

lemma set_Join: "c \<in> set (Join d ps) \<Longrightarrow> c \<in> set d \<or> (\<exists>p \<in> set ps. c \<in> set p)"
  by (induction d ps rule: Join.induct) auto

lemma TrimSpace_no_space: "\<forall>c \<in> set s. \<not> is_space c \<Longrightarrow> TrimSpace s = s"
  by (rule TrimSpace_id) auto

lemma SIDToString_Join:
  assumes "SIDToString b = Inr s"
  shows "length b = 8 + 4 * unat (b ! 1)"
    "s = Join ''-'' (''S'' # fmt_nat 10 (unat (b ! 0)) # fmt_nat 10 (unat (authority_of (slice 2 8 b))) #
       map (\<lambda>v. fmt_nat 10 (unat v)) (sub_authorities (unat (b ! 1)) (drop 8 b)))"
  using assms
  by (auto simp: SIDToString_def Let_def dash_concat_Join [simplified] split: if_splits)

lemma SID_print_parse:
  assumes "SIDToString b = Inr s" "unat (b ! 1) \<le> 15"
  shows "SIDFromString s = Inr b"
proof -
  let ?subs = "map (\<lambda>v. fmt_nat 10 (unat v)) (sub_authorities (unat (b ! 1)) (drop 8 b))"
  let ?auth = "authority_of (slice 2 8 b)"
  let ?ps = "''S'' # fmt_nat 10 (unat (b ! 0)) # fmt_nat 10 (unat ?auth) # ?subs"
  note s = SIDToString_Join [OF assms(1)]
  have part: "CHR ''-'' \<notin> set p \<and> (\<forall>c \<in> set p. \<not> is_space c)" if "p \<in> set ?ps" for p
    using that fmt_nat_10_ok by (auto simp: is_space_def)
  moreover have "\<not> is_space CHR ''-''" by (simp add: is_space_def)
  ultimately have "\<forall>c \<in> set s. \<not> is_space c"
    unfolding s(2) using set_Join [of _ "''-''" ?ps] by (metis empty_iff list.set(1) list.set(2) insert_iff)
  then have split: "Split CHR ''-'' (TrimSpace s) = ?ps"
    using part by (simp add: TrimSpace_no_space s(2) Split_Join del: Join.simps)
  have len: "length (slice 2 8 b) = 6" using s(1) by (simp add: slice_length)
  have "ParseUint (fmt_nat 10 (unat (b ! 0))) 10 8 = Inr (unat (b ! 0))"
    "ParseUint (fmt_nat 10 (unat ?auth)) 10 48 = Inr (unat ?auth)"
    using byte_less [of "b ! 0"] authority_bytes(1) [OF len] by (simp_all add: ParseUint_fmt_nat)
  moreover have "EqualFold ''S'' ''S''" by (simp add: EqualFold_def)
  moreover have "parse_subs s ?subs = Inr (drop 8 b)"
    using s(1) by (simp add: parse_subs_fmt concat_sub_authorities)
  moreover have "[b ! 0, b ! 1] @ slice 2 8 b @ drop 8 b = b"
  proof -
    have "2 \<le> length b" using s(1) by simp
    then obtain x y r where "b = x # y # r" by (auto simp: Suc_le_length_iff numeral_2_eq_2)
    then show ?thesis by (simp add: slice_def)
  qed
  ultimately show ?thesis
    using assms(2) authority_bytes(2) [OF len]
    by (simp add: SIDFromString_def split Let_def)
qed

lemma parse_subs_length: "parse_subs s subs = Inr r \<Longrightarrow> length r = 4 * length subs"
  by (induction s subs arbitrary: r rule: parse_subs.induct) (auto split: sum.splits)

lemma SIDFromString_wf:
  assumes "SIDFromString s = Inr b"
  shows "length b = 8 + 4 * unat (b ! 1)" "unat (b ! 1) \<le> 15"
proof -
  from assms obtain x n r where b: "b = [x, word_of_nat n] @ r" "n \<le> 15" "length r = 6 + 4 * n"
    by (auto simp: SIDFromString_def Let_def not_less simp del: of_nat_diff split: if_splits sum.splits
        dest!: parse_subs_length)
  from b(2) have "unat (word_of_nat n :: byte) = n" by (simp add: unat_of_nat)
  with b show "length b = 8 + 4 * unat (b ! 1)" "unat (b ! 1) \<le> 15" by simp_all
qed

section \<open>FILETIME\<close>

lemma wrap64_id: "- (2 ^ 63) \<le> i \<Longrightarrow> i < 2 ^ 63 \<Longrightarrow> wrap64 i = i"
  by (simp add: wrap64_def)

lemma wrap64_range: "- (2 ^ 63) \<le> wrap64 i \<and> wrap64 i < 2 ^ 63"
  using pos_mod_bound [of "2 ^ 64" "i + 2 ^ 63"] pos_mod_sign [of "2 ^ 64" "i + 2 ^ 63"]
  by (simp add: wrap64_def)

lemma quot_100: "quot a 100 = (if a < 0 then - (- a div 100) else a div 100)"
  "\<bar>quot a 100 * 100\<bar> \<le> \<bar>a\<bar>" "a < 0 \<Longrightarrow> quot a 100 \<le> 0" "\<bar>a - quot a 100 * 100\<bar> < 100"
  by (simp_all add: quot_def) arith+

lemma FileTimeToTime_FormatInt:
  assumes "- (2 ^ 63) \<le> v" "v < 2 ^ 63" "v \<noteq> 0" "v \<noteq> FileTimeNever"
  shows "FileTimeToTime (FormatInt v) =
    Inr (Some (wrap64 (wrap64 (v - fileTimeEpochOffset) * 100)))"
  using assms by (simp add: FileTimeToTime_def ParseInt_FormatInt) (simp add: FormatInt_def)

section \<open>groupType and integer attributes\<close>

lemma fmt_int_no_space: "c \<in> set (FormatInt i) \<Longrightarrow> \<not> is_space c"
  using fmt_nat_10_ok(2) by (auto simp: FormatInt_def is_space_def split: if_splits)

lemma sint_32_range: "- (2 ^ 63) \<le> sint (v :: u32) \<and> sint v < 2 ^ 63"
  using sint_greater_eq [of v] sint_less [of v] by simp

lemma parse_signed_word:
  "ParseInt (TrimSpace (FormatInt (sint (v :: u32)))) 10 64 = Inr (sint v)"
  using fmt_int_no_space sint_32_range [of v] by (simp add: TrimSpace_no_space ParseInt_FormatInt)

section \<open>Encryption types\<close>

lemma bit_foldl_or: "bit (foldl (\<lambda>v x. v OR f x) m xs) i \<longleftrightarrow> bit (m :: u32) i \<or> (\<exists>x \<in> set xs. bit (f x) i)"
  by (induction xs arbitrary: m) (auto simp: bit_simps)

lemma enc_bit_names: "e \<in> set encTypes \<Longrightarrow> enc_bit (snd e) = fst e"
proof -
  have "list_all (\<lambda>e. enc_bit (snd e) = fst e) encTypes"
    by (simp add: encTypes_def enc_bit_def TrimSpace_id is_space_def ToUpper_def upper_char_def
        is_lower_def HasPrefix_def)
  then show "e \<in> set encTypes \<Longrightarrow> enc_bit (snd e) = fst e" by (simp add: list_all_iff)
qed

lemma enc_types_bits: "fst ` set encTypes = (\<lambda>k. push_bit k 1) ` {..< 5}"
proof -
  have "{..< 5 :: nat} = {0, 1, 2, 3, 4}" by auto
  then show ?thesis
    by (simp add: encTypes_def encDESCBCCRC_def encDESCBCMD5_def encRC4_def encAES128_def
        encAES256_def push_bit_eq_mult)
qed

lemma and_single: "v AND push_bit k 1 \<noteq> 0 \<longleftrightarrow> bit (v :: u32) k"
  using bit_iff_and_push_bit_not_eq_0 [of v k] by simp

lemma EncTypeBits_EncTypeNames: "EncTypeBits (EncTypeNames v) = take_bit 5 v"
proof (rule bit_word_eqI)
  fix i
  have "bit (EncTypeBits (EncTypeNames v)) i \<longleftrightarrow> (\<exists>e \<in> set encTypes. v AND fst e \<noteq> 0 \<and> bit (fst e) i)"
    unfolding EncTypeBits_def EncTypeNames_def bit_foldl_or
    using enc_bit_names by (fastforce simp: Bex_def)
  also have "\<dots> \<longleftrightarrow> (\<exists>m \<in> fst ` set encTypes. v AND m \<noteq> 0 \<and> bit m i)" by simp
  also have "\<dots> \<longleftrightarrow> i < 5 \<and> bit v i"
    unfolding enc_types_bits using bit_imp_le_length [of v i]
    by (auto simp: and_single [simplified] bit_simps)
  finally show "bit (EncTypeBits (EncTypeNames v)) i = bit (take_bit 5 v) i" by (simp add: bit_simps)
qed

section \<open>Properties\<close>

lemma SID_parse_print:
  "SIDFromString t = Inr b \<Longrightarrow> \<exists>s. SIDToString b = Inr s \<and> SIDFromString s = Inr b"
proof -
  assume t: "SIDFromString t = Inr b"
  from SIDFromString_wf [OF t] obtain s where "SIDToString b = Inr s"
    by (auto simp: SIDToString_def Let_def)
  with SIDFromString_wf [OF t] show "\<exists>s. SIDToString b = Inr s \<and> SIDFromString s = Inr b"
    using SID_print_parse by blast
qed

text \<open>
  C40. Identifiers survive their text form.  Any sixteen bytes print to a GUID of 36 characters that parses back to the same
  bytes, so that the two mixed-endian conversions are inverse; the text of a SID with at most fifteen
  sub-authorities parses to its bytes, and whatever text parses as a SID gives bytes whose printed form parses to the
  same bytes.
\<close>

theorem identifiers_roundtrip:
  "(length g = 16 \<longrightarrow> (\<exists>s. GUIDToString g = Inr s \<and> length s = 36 \<and> GUIDToBytes s = Inr g)) \<and>
   (SIDToString b = Inr s \<and> unat (b ! 1) \<le> 15 \<longrightarrow> SIDFromString s = Inr b) \<and>
   (SIDFromString t = Inr b \<longrightarrow> (\<exists>s. SIDToString b = Inr s \<and> SIDFromString s = Inr b))"
  using GUID_print_parse [of g] SID_print_parse [of b s] SID_parse_print [of t b] by blast

theorem identifiers_roundtrip_witness:
  "(\<exists>s. GUIDToString (map word_of_nat [0..<16]) = Inr s \<and> GUIDToBytes s = Inr (map word_of_nat [0..<16])) \<and>
   (\<exists>s. SIDToString [1, 1, 0, 0, 0, 0, 0, 5, 18, 0, 0, 0] = Inr s \<and>
     SIDFromString s = Inr [1, 1, 0, 0, 0, 0, 0, 5, 18, 0, 0, 0])"
proof -
  have "\<exists>s. SIDToString [1, 1, 0, 0, 0, 0, 0, 5, 18, 0, 0, 0] = Inr s"
    by (simp add: SIDToString_def)
  then show ?thesis
    using identifiers_roundtrip [where g = "map word_of_nat [0..<16]" and b = "[1, 1, 0, 0, 0, 0, 0, 5, 18, 0, 0, 0]"] by auto
qed

text \<open>
  A time in the range of \<open>UnixNano\<close> survives the FILETIME attribute up to its 100-nanosecond
  resolution, and is never mistaken for \<open>never\<close>.
\<close>

theorem FileTime_roundtrip:
  assumes "- (2 ^ 63) \<le> t" "t < 2 ^ 63"
  shows "\<exists>t'. FileTimeToTime (TimeToFileTime t) = Inr (Some t') \<and> \<bar>t - t'\<bar> < 100 \<and> 100 dvd t'"
proof -
  let ?q = "quot t 100" and ?v = "quot t 100 + fileTimeEpochOffset"
  have q: "- (2 ^ 63) \<le> ?q * 100" "?q * 100 < 2 ^ 63" "\<bar>t - ?q * 100\<bar> < 100"
    using quot_100(2,3,4) [of t] assms by linarith+
  then have v: "- (2 ^ 63) \<le> ?v" "?v < 2 ^ 63" "?v \<noteq> 0" "?v \<noteq> FileTimeNever"
    by (simp_all add: fileTimeEpochOffset_def FileTimeNever_def)
  from q v have "wrap64 (wrap64 (?v - fileTimeEpochOffset) * 100) = ?q * 100"
    by (simp add: wrap64_id)
  then have "FileTimeToTime (TimeToFileTime t) = Inr (Some (?q * 100))"
    using FileTimeToTime_FormatInt [OF v] assms v by (simp add: TimeToFileTime_def wrap64_id)
  with q(3) show ?thesis by auto
qed

theorem FileTime_roundtrip_witness:
  "\<exists>t'. FileTimeToTime (TimeToFileTime 1700000000123456789) = Inr (Some t') \<and>
     \<bar>1700000000123456789 - t'\<bar> < 100"
  using FileTime_roundtrip [of 1700000000123456789] by auto

text \<open>
  A FILETIME is decoded to the instant it denotes exactly when that instant, in nanoseconds, is
  in the range of \<open>int64\<close> (about the years 1678 to 2262); any later expiry date wraps around.
\<close>

theorem FileTimeToTime_exact:
  assumes "0 < v" "v < FileTimeNever"
  shows "FileTimeToTime (FormatInt v) = Inr (Some ((v - fileTimeEpochOffset) * 100)) \<longleftrightarrow>
     - (2 ^ 63) \<le> (v - fileTimeEpochOffset) * 100 \<and> (v - fileTimeEpochOffset) * 100 < 2 ^ 63"
proof -
  from assms have v: "- (2 ^ 63) \<le> v" "v < 2 ^ 63" "v \<noteq> 0" "v \<noteq> FileTimeNever"
    "wrap64 (v - fileTimeEpochOffset) = v - fileTimeEpochOffset"
    by (simp_all add: FileTimeNever_def fileTimeEpochOffset_def wrap64_id)
  then show ?thesis
    using FileTimeToTime_FormatInt [OF v(1-4)] wrap64_range [of "(v - fileTimeEpochOffset) * 100"]
    by (auto simp: wrap64_id)
qed

theorem FileTimeToTime_exact_witness:
  "FileTimeToTime (FormatInt 150000000000000000) \<noteq> Inl (ErrMsg []) \<and>
   FileTimeToTime (FormatInt 150000000000000000) = Inr (Some 3355526400000000000) \<and>
   FileTimeToTime (FormatInt 221000000000000000) \<noteq> Inr (Some 10455526400000000000)"
  using FileTimeToTime_exact [of 150000000000000000] FileTimeToTime_exact [of 221000000000000000]
  by (simp add: FileTimeNever_def fileTimeEpochOffset_def)

text \<open>
  Both properties of a group survive \<open>groupType\<close>: building the value and reading scope and
  category back is the identity on the named constants, the wire text of any value, signed as AD
  wants it, parses back to the value, and the same holds of every integer attribute.
\<close>

theorem groupType_roundtrip:
  "ScopeAndCategory (GroupTypeValue GroupScopeDomainLocal GroupCategorySecurity) = (GroupScopeDomainLocal, GroupCategorySecurity) \<and>
   ScopeAndCategory (GroupTypeValue GroupScopeDomainLocal GroupCategoryDistribution) = (GroupScopeDomainLocal, GroupCategoryDistribution) \<and>
   ScopeAndCategory (GroupTypeValue GroupScopeGlobal GroupCategorySecurity) = (GroupScopeGlobal, GroupCategorySecurity) \<and>
   ScopeAndCategory (GroupTypeValue GroupScopeGlobal GroupCategoryDistribution) = (GroupScopeGlobal, GroupCategoryDistribution) \<and>
   ScopeAndCategory (GroupTypeValue GroupScopeUniversal GroupCategorySecurity) = (GroupScopeUniversal, GroupCategorySecurity) \<and>
   ScopeAndCategory (GroupTypeValue GroupScopeUniversal GroupCategoryDistribution) = (GroupScopeUniversal, GroupCategoryDistribution) \<and>
   ParseGroupType (GroupTypeString v) = Inr v \<and> ParseUint32 (Uint32String v) = Inr v"
  by (simp add: ScopeAndCategory_def GroupTypeValue_def group_type_defs ParseGroupType_def
      ParseUint32_def GroupTypeString_def Uint32String_def parse_signed_word)

text \<open>
  The encryption types that have a name survive: folding the names of a mask gives back its five
  named bits and no other.
\<close>

theorem EncType_roundtrip: "EncTypeBits (EncTypeNames v) = v AND 31"
proof -
  have "take_bit 5 v = v AND 31" by (simp add: take_bit_eq_mask mask_eq_exp_minus_1)
  then show ?thesis by (simp add: EncTypeBits_EncTypeNames)
qed

end
