(* ===== verification/Adcore.thy ===== *)
theory Adcore
  imports Ace Attrs
begin

text \<open>
  What the handlers of the root package use of \<open>go-adcore\<close>, which is not part of this repository.

  Its plain data (queries, specs, models, access-control entries) are records with the fields the source reads
  and sets; a pointer field is an \<open>option\<close>, and so is a slice for which the source tells \<open>nil\<close> from
  empty.  Its functions are the fields of the record \<open>adcore\<close>, arbitrary functions of which nothing is
  assumed unless a theorem says so: the filter and name escapers, identities, the DN helpers, the
  validators of the specs, secrets, the canonical key of an entry.
\<close>

datatype search_scope =
    SearchScopeBase
  | SearchScopeOneLevel
  | SearchScopeSubtree
  | SearchScopeOther string

record query =
  qFilter :: string
  qSearchBase :: string
  qScope :: search_scope
  qSizeLimit :: int

text \<open>The tri-state time of a spec: left alone, cleared (\<open>IsClear\<close>), or set (\<open>IsSet\<close>, \<open>Value\<close>).\<close>

datatype expiration = ExpirationKeep | ExpirationClear | ExpirationSet int

record ou_spec =
  osName :: string
  osContainer :: string
  osDescription :: "string option"
  osProtected :: "bool option"

record ou =
  ouGUID :: string
  ouDN :: string
  ouName :: string
  ouContainer :: string
  ouDescription :: string
  ouProtected :: bool

record group_spec =
  gsName :: string
  gsSamAccountName :: string
  gsContainer :: string
  gsScope :: group_scope
  gsCategory :: group_category
  gsDescription :: "string option"
  gsManagedBy :: "string option"

record group =
  gGUID :: string
  gDN :: string
  gName :: string
  gSamAccountName :: string
  gContainer :: string
  gScope :: group_scope
  gCategory :: group_category
  gDescription :: string
  gManagedBy :: string
  gSID :: string

record member =
  mbGUID :: string
  mbDN :: string
  mbClass :: string
  mbSID :: string

record user_spec =
  usName :: "string option"
  usSamAccountName :: string
  usContainer :: string
  usUserPrincipalName :: "string option"
  usDisplayName :: "string option"
  usGivenName :: "string option"
  usSurname :: "string option"
  usDescription :: "string option"
  usEnabled :: "bool option"
  usPasswordExpires :: "bool option"
  usChangePasswordAtLogon :: "bool option"
  usCanChangePassword :: "bool option"
  usPassword :: "string option"
  usAccountExpiration :: expiration

record user =
  uGUID :: string
  uDN :: string
  uName :: string
  uSamAccountName :: string
  uUserPrincipalName :: string
  uDisplayName :: string
  uGivenName :: string
  uSurname :: string
  uDescription :: string
  uContainer :: string
  uEnabled :: bool
  uPasswordExpires :: bool
  uChangePasswordAtLogon :: bool
  uCanChangePassword :: bool
  uAccountExpiration :: "int option"
  uSID :: string

record 'id computer_spec =
  csName :: string
  csSamAccountName :: string
  csContainer :: string
  csEnabled :: "bool option"
  csTrustedForDelegation :: "bool option"
  csDNSHostName :: "string option"
  csDescription :: "string option"
  csDisplayName :: "string option"
  csLocation :: "string option"
  csManagedBy :: "string option"
  csServicePrincipalNames :: "string list option"
  csAllowedToDelegateTo :: "string list option"
  csKerberosEncryptionType :: "string list option"
  csPrincipalsAllowed :: "'id list option"
  csAccountExpiration :: expiration

record computer =
  cGUID :: string
  cDN :: string
  cName :: string
  cSamAccountName :: string
  cContainer :: string
  cSID :: string
  cEnabled :: bool
  cDNSHostName :: string
  cDescription :: string
  cDisplayName :: string
  cLocation :: string
  cManagedBy :: string
  cTrustedForDelegation :: bool
  cServicePrincipalNames :: "string list"
  cAllowedToDelegateTo :: "string list"
  cKerberosEncryptionType :: "string list"
  cAccountExpiration :: "int option"
  cOperatingSystem :: string
  cOperatingSystemVersion :: string
  cPrincipalsAllowed :: "string list"

record 'id gmsa_spec =
  msName :: string
  msSamAccountName :: string
  msContainer :: string
  msEnabled :: "bool option"
  msTrustedForDelegation :: "bool option"
  msDNSHostName :: "string option"
  msDescription :: "string option"
  msDisplayName :: "string option"
  msServicePrincipalNames :: "string list option"
  msKerberosEncryptionType :: "string list option"
  msPrincipalsAllowed :: "'id list option"
  msManagedPasswordIntervalInDays :: "int option"
  msAccountExpiration :: expiration

record gmsa =
  saGUID :: string
  saDN :: string
  saName :: string
  saSamAccountName :: string
  saContainer :: string
  saSID :: string
  saDNSHostName :: string
  saDescription :: string
  saDisplayName :: string
  saEnabled :: bool
  saTrustedForDelegation :: bool
  saServicePrincipalNames :: "string list"
  saKerberosEncryptionType :: "string list"
  saManagedPasswordIntervalInDays :: int
  saAccountExpiration :: "int option"
  saPrincipalsAllowed :: "string list"

datatype ace_type = ACEAllow | ACEDeny | ACEOther string

record ace =
  aceTrustee :: string
  aceType :: ace_type
  aceRights :: "string list"
  aceObjectType :: string
  aceInheritedObjectType :: string
  aceInheritance :: inheritance
  aceInherited :: bool

datatype ref_kind = RefAttribute | RefClass | RefExtendedRight | RefOther string

record schema_ref =
  refKind :: ref_kind
  refName :: string

record 'id adcore =
  IdentityArg :: "'id \<Rightarrow> string"
  IdentityForm :: "'id \<Rightarrow> string"
  IdentityString :: "'id \<Rightarrow> string"
  ByDN :: "string \<Rightarrow> 'id"
  ByGUID :: "string \<Rightarrow> 'id"
  BySID :: "string \<Rightarrow> 'id"
  Equal :: "string \<Rightarrow> string \<Rightarrow> string"
  And :: "string \<Rightarrow> string \<Rightarrow> string"
  EscapeFilter :: "string \<Rightarrow> string"
  EscapeValue :: "string \<Rightarrow> string"
  ContainerOf :: "string \<Rightarrow> string res"
  SplitDN :: "string \<Rightarrow> string list res"
  EqualFoldDN :: "string \<Rightarrow> string \<Rightarrow> bool res"
  WithIdentity :: "go_error \<Rightarrow> string \<Rightarrow> 'id \<Rightarrow> go_error"
  WithDefaults :: "query \<Rightarrow> string \<Rightarrow> query"
  IsErrNotFound :: "go_error \<Rightarrow> bool"
  ValidateName :: "string \<Rightarrow> string \<Rightarrow> go_error option"
  ValidateContainer :: "string \<Rightarrow> string \<Rightarrow> go_error option"
  GroupValidate :: "group_spec \<Rightarrow> string \<Rightarrow> bool \<Rightarrow> go_error option"
  UserValidate :: "user_spec \<Rightarrow> string \<Rightarrow> go_error option"
  ComputerValidate :: "'id computer_spec \<Rightarrow> string \<Rightarrow> bool \<Rightarrow> go_error option"
  GMSAValidate :: "'id gmsa_spec \<Rightarrow> string \<Rightarrow> bool \<Rightarrow> go_error option"
  SecretIsZero :: "string \<Rightarrow> bool"
  RevealSecret :: "string \<Rightarrow> string"
  CanonicalACEKey :: "ace \<Rightarrow> string"
  RefKindString :: "ref_kind \<Rightarrow> string"

end
