(* ===== verification/Core.thy ===== *)
theory Core
  imports Exec Adcore
begin

text \<open>
  The client core: what the handlers of the root package share (\<open>exec.go\<close>'s \<open>core\<close>), and the
  sequencing of their calls.

  A handler is a function of the pool and the world; \<open>None\<close> is a call that waits for ever.
  The keyed mutex of \<open>core\<close> serializes handlers and has no effect within one.
\<close>

text \<open>\<open>ReplicationConfig\<close> of \<open>config.go\<close>; durations are in nanoseconds.\<close>

record repl_config =
  rWait :: bool
  rTargets :: "string list"
  rForceSync :: bool
  rTimeout :: int
  rPollInterval :: int

text \<open>
  The core of \<open>exec.go\<close>.  \<open>dialOther\<close> is the dialler for another controller; \<open>clock\<close> is \<open>time.Now\<close>
  and \<open>sleep\<close> the select between the context and a timer: \<open>Some err\<close> when the context ended first.
  The cache of the domain SID is a part of the world that \<open>dsidGet\<close> reads and \<open>dsidPut\<close> fills; \<open>None\<close> is
  a \<open>sync.Once\<close> that has not run.
\<close>

record ('w, 'id) core =
  exec :: "('w conn, 'w) exec_env"
  ad :: "'id adcore"
  server :: string
  dnc :: string
  schemaNC :: string
  configNC :: string
  repl :: repl_config
  dialOther :: "string \<Rightarrow> 'w \<Rightarrow> 'w conn res \<times> 'w"
  clock :: "'w \<Rightarrow> int \<times> 'w"
  sleep :: "int \<Rightarrow> 'w \<Rightarrow> go_error option \<times> 'w"
  dsidGet :: "'w \<Rightarrow> (bytes \<times> go_error option) option"
  dsidPut :: "bytes \<times> go_error option \<Rightarrow> 'w \<Rightarrow> 'w"

type_synonym ('w, 'a) prog = "'w conn pool \<Rightarrow> 'w \<Rightarrow> ('a res \<times> 'w conn pool \<times> 'w) option"

definition ret :: "'a \<Rightarrow> ('w, 'a) prog" where
  "ret x p w = Some (Inr x, p, w)"

definition fail :: "go_error \<Rightarrow> ('w, 'a) prog" where
  "fail e p w = Some (Inl e, p, w)"

text \<open>\<open>x, err := m\<close>, with \<open>err\<close> looked at by the continuation.\<close>

definition handle :: "('w, 'a) prog \<Rightarrow> ('a res \<Rightarrow> ('w, 'b) prog) \<Rightarrow> ('w, 'b) prog" where
  "handle m f p w = (case m p w of None \<Rightarrow> None | Some (r, p, w) \<Rightarrow> f r p w)"

text \<open>\<open>if err != nil { return err }\<close> after the call.\<close>

definition andThen :: "('w, 'a) prog \<Rightarrow> ('a \<Rightarrow> ('w, 'b) prog) \<Rightarrow> ('w, 'b) prog" where
  "andThen m f = handle m (\<lambda>r. case r of Inl e \<Rightarrow> fail e | Inr x \<Rightarrow> f x)"

text \<open>A pure step that may fail, and one whose error is wrapped.\<close>

definition lift :: "'a res \<Rightarrow> ('w, 'a) prog" where
  "lift r = (case r of Inl e \<Rightarrow> fail e | Inr x \<Rightarrow> ret x)"

definition ad_err :: "kind \<Rightarrow> string \<Rightarrow> go_error \<Rightarrow> go_error" where
  "ad_err k op e = ErrAd (AdError k op [] [] 0 [] False (Some e))"

text \<open>\<open>exec.go\<close>'s \<open>isNotFound\<close>, and \<open>asError\<close> of \<open>errors_internal.go\<close> with the test of a kind.\<close>

definition isNotFound :: "('w, 'id) core \<Rightarrow> go_error \<Rightarrow> bool" where
  "isNotFound c e = IsErrNotFound (ad c) e"

definition has_kind :: "kind \<Rightarrow> go_error \<Rightarrow> bool" where
  "has_kind k err = (case as_ad err of Some e \<Rightarrow> Kind e = k | None \<Rightarrow> False)"

text \<open>\<open>withConn\<close> on the core's pool.\<close>

definition run :: "('w, 'id) core \<Rightarrow> string \<Rightarrow> 'a \<Rightarrow> ('w conn \<Rightarrow> 'w \<Rightarrow> 'a res \<times> 'w) \<Rightarrow> ('w, 'a) prog" where
  "run c op d fn = withConn (exec c) op d fn"

text \<open>The closure that searches and keeps the entries.\<close>

definition search_entries :: "search_request \<Rightarrow> 'w conn \<Rightarrow> 'w \<Rightarrow> entry list res \<times> 'w" where
  "search_entries req cn w =
     (case cSearch cn req w of (Inl e, w) \<Rightarrow> (Inl e, w) | (Inr res, w) \<Rightarrow> (Inr (Entries res), w))"

text \<open>A closure that only changes the directory.\<close>

definition effect :: "(go_error option \<times> 'w) \<Rightarrow> unit res \<times> 'w" where
  "effect r = (case r of (Some e, w) \<Rightarrow> (Inl e, w) | (None, w) \<Rightarrow> (Inr (), w))"

text \<open>An error of a step is returned with the identity added.\<close>

definition identified :: "('w, 'id) core \<Rightarrow> string \<Rightarrow> 'id \<Rightarrow> ('w, 'a) prog \<Rightarrow> ('w, 'a) prog" where
  "identified c op i m =
     handle m (\<lambda>r. case r of Inl err \<Rightarrow> fail (WithIdentity (ad c) err op i) | Inr x \<Rightarrow> ret x)"

text \<open>The re-read that ends a delete.\<close>

definition confirm_gone ::
  "('w, 'id) core \<Rightarrow> string \<Rightarrow> 'id \<Rightarrow> string \<Rightarrow> ('w, 'm) prog \<Rightarrow> ('w, unit) prog" where
  "confirm_gone c op i dn get =
     handle get (\<lambda>r.
       case r of
         Inl err \<Rightarrow> if isNotFound c err then ret () else fail err
       | Inr _ \<Rightarrow> fail (ErrAd (AdError KindConstraint op (IdentityString (ad c) i) dn 0 [] False
             (Some (ErrMsg ''the delete returned success but the object is still readable'')))))"

named_theorems prog_simps \<open>definitions of the sequencing of handlers\<close>

lemmas [prog_simps] = ret_def fail_def handle_def andThen_def lift_def identified_def

text \<open>What a sequence that returns without an error went through.\<close>

lemma andThen_okD:
  "andThen m f p w = Some (Inr x, p', w') \<Longrightarrow> \<exists>y p1 w1. m p w = Some (Inr y, p1, w1) \<and> f y p1 w1 = Some (Inr x, p', w')"
  by (auto simp: andThen_def handle_def fail_def split: option.split_asm sum.split_asm)

lemma handle_okD:
  "handle m f p w = Some (r, p', w') \<Longrightarrow> \<exists>y p1 w1. m p w = Some (y, p1, w1) \<and> f y p1 w1 = Some (r, p', w')"
  by (auto simp: handle_def split: option.split_asm)

text \<open>What a delete may report success on.\<close>

definition confirmed ::
  "('w, 'id) core \<Rightarrow> ('id \<Rightarrow> ('w, 'm) prog) \<Rightarrow> ('m \<Rightarrow> string) \<Rightarrow> 'id \<Rightarrow> 'w conn pool \<Rightarrow> 'w \<Rightarrow>
     'w conn pool \<Rightarrow> 'w \<Rightarrow> bool" where
  "confirmed c get guidOf i p w p' w' \<longleftrightarrow>
     (\<exists>e. get i p w = Some (Inl e, p', w') \<and> isNotFound c e) \<or>
     (\<exists>m p1 w1 p2 w2 e. get i p w = Some (Inr m, p1, w1) \<and>
        get (ByGUID (ad c) (guidOf m)) p2 w2 = Some (Inl e, p', w') \<and> isNotFound c e)"

lemma confirm_gone_ok:
  "confirm_gone c op i dn get p w = Some (Inr x, p', w') \<Longrightarrow> \<exists>e. get p w = Some (Inl e, p', w') \<and> isNotFound c e"
  by (auto simp: confirm_gone_def prog_simps split: option.split_asm sum.split_asm if_split_asm)

section \<open>Reasoning about a call\<close>

text \<open>
  A property \<open>G\<close> of connections that every dialled connection has and the idle ones have holds of
  every connection an operation runs on.
\<close>

definition pool_of :: "('c \<Rightarrow> bool) \<Rightarrow> ('c, 'w) pool_options \<Rightarrow> 'c pool \<Rightarrow> bool" where
  "pool_of G opts p \<longleftrightarrow> list_all G (idle p) \<and> (\<forall>w c w'. oDial opts w = (Inr c, w') \<longrightarrow> G c)"

lemma pool_of_Acquire:
  assumes "pool_of G opts p" "Acquire opts p w = Some (r, p', w')"
  shows "pool_of G opts p' \<and> (\<forall>l. r = Inr l \<longrightarrow> G (leaseConn l))"
proof -
  have "list_all G (idle p) \<Longrightarrow> idle p \<noteq> [] \<Longrightarrow> G (last (idle p))"
    "list_all G (idle p) \<Longrightarrow> list_all G (butlast (idle p))"
    by (auto simp: list_all_iff dest: in_set_butlastD)
  then show ?thesis
    using assms
    by (auto simp: pool_of_def Acquire_def acquire_slot_def
        split: if_split_asm prod.split_asm sum.split_asm option.split_asm) blast+
qed

lemma pool_of_Release:
  "pool_of G opts p \<Longrightarrow> G (leaseConn l) \<Longrightarrow> Release opts l p w = (l', p', w') \<Longrightarrow> pool_of G opts p'"
  "pool_of G opts p \<Longrightarrow> Discard opts l p w = (l', p', w') \<Longrightarrow> pool_of G opts p'"
  by (auto simp: pool_of_def Release_def Discard_def split: if_split_asm)

lemma pool_of_hand_back:
  "pool_of G (poolOpts env) p \<Longrightarrow> G (leaseConn l) \<Longrightarrow> hand_back env e l p w = (l', p', w') \<Longrightarrow>
     pool_of G (poolOpts env) p'"
  unfolding hand_back_def by (metis pool_of_Release)

text \<open>Errors of \<open>withConn\<close> that do not come from the operation.\<close>

definition no_conn :: "('c, 'w) exec_env \<Rightarrow> string \<Rightarrow> go_error \<Rightarrow> bool" where
  "no_conn env op e \<longleftrightarrow>
     (\<exists>p w err p' w'. Acquire (poolOpts env) p w = Some (Inl err, p', w') \<and> e = ErrAd (acquire_error env op err)) \<or>
     (\<exists>n w b w'. backoff env n w = (Some b, w') \<and> e = b)"

text \<open>A property \<open>I\<close> of the world that neither the dialler, the binder, a close nor a pause changes.\<close>

definition io_inv :: "('w \<Rightarrow> bool) \<Rightarrow> ('c, 'w) exec_env \<Rightarrow> bool" where
  "io_inv I env \<longleftrightarrow> (\<forall>w. I w \<longrightarrow> I (snd (oDial (poolOpts env) w)) \<and>
     (\<forall>c. I (snd (oBind (poolOpts env) c w)) \<and> I (snd (oClose (poolOpts env) c w))) \<and>
     (\<forall>n. I (snd (backoff env n w))))"

lemma io_inv_Release:
  "io_inv I env \<Longrightarrow> I w \<Longrightarrow> Release (poolOpts env) l p w = (l', p', w') \<Longrightarrow> I w'"
  "io_inv I env \<Longrightarrow> I w \<Longrightarrow> Discard (poolOpts env) l p w = (l', p', w') \<Longrightarrow> I w'"
  by (auto simp: Release_def Discard_def io_inv_def split: if_split_asm)

lemma io_inv_hand_back: "io_inv I env \<Longrightarrow> I w \<Longrightarrow> hand_back env e l p w = (l', p', w') \<Longrightarrow> I w'"
  unfolding hand_back_def by (metis io_inv_Release)

lemma io_inv_backoff: "io_inv I env \<Longrightarrow> I w \<Longrightarrow> backoff env n w = (b, w') \<Longrightarrow> I w'"
  unfolding io_inv_def by (metis snd_conv)

lemma io_inv_acquire_slot:
  assumes "io_inv I env" "I w" "acquire_slot (poolOpts env) p w = (a, p', w')"
  shows "I w'"
proof -
  obtain d w1 where d: "oDial (poolOpts env) w = (d, w1)" by (cases "oDial (poolOpts env) w")
  with assms(1,2) have w1: "I w1" unfolding io_inv_def by (metis snd_conv)
  have b: "I w2" if "oBind (poolOpts env) c w1 = (x, w2)" for c x w2
    using assms(1) w1 that unfolding io_inv_def by (metis snd_conv)
  have "I (snd (oClose (poolOpts env) c w2))" if "I w2" for c w2
    using assms(1) that by (simp add: io_inv_def)
  with assms(2,3) d w1 b show ?thesis
    by (auto simp: acquire_slot_def split: if_split_asm sum.split_asm prod.split_asm option.split_asm)
qed

lemma io_inv_Acquire:
  "io_inv I env \<Longrightarrow> I w \<Longrightarrow> Acquire (poolOpts env) p w = Some (a, p', w') \<Longrightarrow> I w'"
  using io_inv_acquire_slot [of I env w "p\<lparr>sem := sem p + 1\<rparr>" a p' w']
  by (auto simp: Acquire_def split: if_split_asm)

text \<open>
  The rule for a call: from a world with the invariant \<open>I\<close>, which a failed attempt keeps, an attempt on
  any connection of the pool that succeeds with \<open>x\<close> leaves a world with \<open>J x\<close>, and one that fails does
  so with an error in \<open>E\<close>; then so does the call, its error classified.
\<close>

lemma withConn_loop_rule:
  assumes "withConn_loop env op d fn lastErr n k p w = Some (r, p', w')"
    and "pool_of G (poolOpts env) p" "0 < k" "I w"
    and ok: "\<And>c w x w'. G c \<Longrightarrow> I w \<Longrightarrow> fn c w = (Inr x, w') \<Longrightarrow> J x w'"
    and err: "\<And>c w e w'. G c \<Longrightarrow> I w \<Longrightarrow> fn c w = (Inl e, w') \<Longrightarrow> E e \<and> I w'"
    and io: "io_inv I env" "\<And>x. io_inv (J x) env"
  shows "pool_of G (poolOpts env) p' \<and>
    (case r of Inr x \<Rightarrow> J x w'
     | Inl e \<Rightarrow> I w' \<and>
         (no_conn env op e \<or> (\<exists>err. E err \<and> e = ErrAd (Classify_err (classifyCode env) op err))))"
  using assms(1-4)
proof (induction k arbitrary: lastErr n p w)
  case (Suc k)
  note I_acq = io_inv_Acquire [OF io(1) Suc.prems(4)]
  note acq = pool_of_Acquire [OF Suc.prems(2)]
  show ?case
  proof (cases rule: attempt_cases [of env p w op d fn lastErr n k])
    case wait
    with Suc.prems show ?thesis by simp
  next
    case (refused err p1 w1)
    then have "r = Inl (ErrAd (acquire_error env op err))" "p' = p1" "w' = w1" using Suc.prems(1) by simp_all
    moreover have "no_conn env op (ErrAd (acquire_error env op err))"
      unfolding no_conn_def using refused(1) by blast
    ultimately show ?thesis using acq [OF refused(1)] I_acq [OF refused(1)] by simp
  next
    case (success l p1 w1 x w2 l' p2 w3)
    then have r: "r = Inr x" "p' = p2" "w' = w3" using Suc.prems(1) by simp_all
    from acq [OF success(1)] have a: "pool_of G (poolOpts env) p1" and g: "G (leaseConn l)" by simp_all
    from ok [OF g I_acq [OF success(1)] success(2)] have "J x w2" .
    with pool_of_Release(1) [OF a g success(3)] io_inv_Release(1) [OF io(2) _ success(3)]
    show ?thesis by (simp add: r)
  next
    case (failure l p1 w1 err1 w2 l' p2 w3)
    then have r: "r = Inl (ErrAd (Classify_err (classifyCode env) op err1))" "p' = p2" "w' = w3"
      using Suc.prems(1) by simp_all
    from acq [OF failure(1)] have a: "pool_of G (poolOpts env) p1" and g: "G (leaseConn l)" by simp_all
    from err [OF g I_acq [OF failure(1)] failure(2)] have f: "E err1" "I w2" by simp_all
    show ?thesis
      using f pool_of_hand_back [OF a g failure(3)] io_inv_hand_back [OF io(1) f(2) failure(3)]
      by (simp add: r) blast
  next
    case (cancelled l p1 w1 err1 w2 l' p2 w3 b w4)
    then have r: "r = Inl b" "p' = p2" "w' = w4" using Suc.prems(1) by simp_all
    from acq [OF cancelled(1)] have a: "pool_of G (poolOpts env) p1" and g: "G (leaseConn l)" by simp_all
    from err [OF g I_acq [OF cancelled(1)] cancelled(2)] have f: "I w2" by simp
    have "no_conn env op b" using cancelled(4) unfolding no_conn_def by blast
    with pool_of_hand_back [OF a g cancelled(3)]
      io_inv_backoff [OF io(1) io_inv_hand_back [OF io(1) f cancelled(3)] cancelled(4)]
    show ?thesis by (simp add: r)
  next
    case (retry l p1 w1 err1 w2 l' p2 w3 w4)
    from acq [OF retry(1)] have a: "pool_of G (poolOpts env) p1" and g: "G (leaseConn l)" by simp_all
    from err [OF g I_acq [OF retry(1)] retry(2)] have f: "I w2" by simp
    from retry(5) have "0 < k" by simp
    from Suc.IH [OF Suc.prems(1) [unfolded retry(7)] pool_of_hand_back [OF a g retry(3)] this
        io_inv_backoff [OF io(1) io_inv_hand_back [OF io(1) f retry(3)] retry(6)]]
    show ?thesis .
  qed
qed simp

lemma io_inv_conj: "io_inv I env \<Longrightarrow> io_inv (\<lambda>w. P \<and> I w) env"
  by (simp add: io_inv_def)

lemma run_rule:
  assumes "run c op d fn p w = Some (r, p', w')"
    and "pool_of G (poolOpts (exec c)) p" "1 \<le> maxAttempts (exec c)" "I w" "io_inv I (exec c)"
    and fn: "\<And>cn w r w'. G cn \<Longrightarrow> I w \<Longrightarrow> fn cn w = (r, w') \<Longrightarrow> Q r \<and> I w'"
  shows "pool_of G (poolOpts (exec c)) p' \<and> I w' \<and>
    (case r of Inr x \<Rightarrow> Q (Inr x)
     | Inl e \<Rightarrow> no_conn (exec c) op e \<or>
         (\<exists>err. Q (Inl err) \<and> e = ErrAd (Classify_err (classifyCode (exec c)) op err)))"
  using withConn_loop_rule [where J = "\<lambda>x w. Q (Inr x) \<and> I w" and E = "\<lambda>e. Q (Inl e)" and I = I and G = G,
      OF assms(1) [unfolded run_def withConn_def] assms(2) _ assms(4) _ _ assms(5) io_inv_conj [OF assms(5)]]
    assms(3) fn by (fastforce split: sum.split_asm)

section \<open>Triples\<close>

text \<open>
  Total correctness of a handler: from a pool with a free slot whose connections satisfy \<open>G\<close> and a
  world with \<open>P\<close> it returns, the pool still in that state, and \<open>Q\<close> holds of its result and the world.
\<close>

definition ready :: "('w, 'id) core \<Rightarrow> ('w conn \<Rightarrow> bool) \<Rightarrow> 'w conn pool \<Rightarrow> bool" where
  "ready c G p \<longleftrightarrow> pool_of G (poolOpts (exec c)) p \<and> sem p < Size p \<and> 1 \<le> maxAttempts (exec c)"

definition triple ::
  "('w, 'id) core \<Rightarrow> ('w conn \<Rightarrow> bool) \<Rightarrow> ('w \<Rightarrow> bool) \<Rightarrow> ('w, 'a) prog \<Rightarrow> ('a res \<Rightarrow> 'w \<Rightarrow> bool) \<Rightarrow> bool" where
  "triple c G P m Q \<longleftrightarrow>
     (\<forall>p w. ready c G p \<longrightarrow> P w \<longrightarrow> (\<exists>r p' w'. m p w = Some (r, p', w') \<and> ready c G p' \<and> Q r w'))"

lemma tripleD:
  assumes "triple c G P m Q" "ready c G p" "P w" "m p w = Some (r, p', w')"
  shows "ready c G p' \<and> Q r w'"
  using assms unfolding triple_def by fastforce

lemma triple_ret [intro]: "(\<And>w. P w \<Longrightarrow> Q (Inr x) w) \<Longrightarrow> triple c G P (ret x) Q"
  by (auto simp: triple_def ret_def)

lemma triple_fail [intro]: "(\<And>w. P w \<Longrightarrow> Q (Inl e) w) \<Longrightarrow> triple c G P (fail e) Q"
  by (auto simp: triple_def fail_def)

lemma triple_handle:
  assumes "triple c G P m R" "\<And>r. triple c G (R r) (f r) Q"
  shows "triple c G P (handle m f) Q"
  unfolding triple_def
proof (intro allI impI)
  fix p w assume "ready c G p" "P w"
  with assms(1) obtain r p1 w1 where "m p w = Some (r, p1, w1)" "ready c G p1" "R r w1"
    unfolding triple_def by blast
  moreover from this assms(2) [of r] obtain s p2 w2 where "f r p1 w1 = Some (s, p2, w2)" "ready c G p2" "Q s w2"
    unfolding triple_def by blast
  ultimately show "\<exists>r p' w'. handle m f p w = Some (r, p', w') \<and> ready c G p' \<and> Q r w'"
    by (simp add: handle_def)
qed

lemma triple_andThen:
  assumes "triple c G P m R" "\<And>x. triple c G (R (Inr x)) (f x) Q" "\<And>e w. R (Inl e) w \<Longrightarrow> Q (Inl e) w"
  shows "triple c G P (andThen m f) Q"
  unfolding andThen_def
  by (rule triple_handle [OF assms(1)]) (auto split: sum.split intro: assms(2,3))

lemma triple_conseq:
  "triple c G P' m Q' \<Longrightarrow> (\<And>w. P w \<Longrightarrow> P' w) \<Longrightarrow> (\<And>r w. Q' r w \<Longrightarrow> Q r w) \<Longrightarrow> triple c G P m Q"
  unfolding triple_def by meson

lemma triple_False: "(\<And>w. \<not> P w) \<Longrightarrow> triple c G P m Q"
  by (simp add: triple_def)

lemma triple_run:
  assumes "io_inv I (exec c)" "\<And>x. io_inv (J x) (exec c)"
    and "\<And>cn w x w'. G cn \<Longrightarrow> I w \<Longrightarrow> fn cn w = (Inr x, w') \<Longrightarrow> J x w'"
    and "\<And>cn w e w'. G cn \<Longrightarrow> I w \<Longrightarrow> fn cn w = (Inl e, w') \<Longrightarrow> E e \<and> I w'"
  shows "triple c G I (run c op d fn)
    (\<lambda>r w. case r of Inr x \<Rightarrow> J x w
       | Inl e \<Rightarrow> I w \<and> (no_conn (exec c) op e \<or>
           (\<exists>err. E err \<and> e = ErrAd (Classify_err (classifyCode (exec c)) op err))))"
  unfolding triple_def
proof (intro allI impI)
  fix p w assume p: "ready c G p" and w: "I w"
  let ?k = "nat (maxAttempts (exec c))"
  from p have k: "0 < ?k" and free: "sem p < Size p" and g: "pool_of G (poolOpts (exec c)) p"
    by (simp_all add: ready_def)
  from withConn_loop_returns [OF free, of "exec c" op d fn None 1 ?k w]
  obtain r p' w' where eq: "withConn_loop (exec c) op d fn None 1 ?k p w = Some (r, p', w')" by auto
  from withConn_loop_rule [where I = I and J = J and E = E and G = G, OF eq g k w assms(3,4,1,2)]
    withConn_loop_slots [OF eq] p eq
  show "\<exists>r p' w'. run c op d fn p w = Some (r, p', w') \<and> ready c G p' \<and> (case r of Inr x \<Rightarrow> J x w'
       | Inl e \<Rightarrow> I w' \<and> (no_conn (exec c) op e \<or>
           (\<exists>err. E err \<and> e = ErrAd (Classify_err (classifyCode (exec c)) op err))))"
    by (auto simp: run_def withConn_def ready_def)
qed

text \<open>A call whose operation keeps \<open>I\<close> keeps it.\<close>

lemma triple_run_inv:
  assumes "io_inv I (exec c)" "\<And>cn w r w'. G cn \<Longrightarrow> I w \<Longrightarrow> fn cn w = (r, w') \<Longrightarrow> Q r \<and> I w'"
  shows "triple c G I (run c op d fn)
    (\<lambda>r w. I w \<and> (case r of Inr x \<Rightarrow> Q (Inr x)
       | Inl e \<Rightarrow> no_conn (exec c) op e \<or>
           (\<exists>err. Q (Inl err) \<and> e = ErrAd (Classify_err (classifyCode (exec c)) op err))))"
  by (rule triple_conseq [OF triple_run [where J = "\<lambda>x w. Q (Inr x) \<and> I w" and E = "\<lambda>e. Q (Inl e)" and I = I]])
     (use assms in \<open>auto intro: io_inv_conj split: sum.split_asm\<close>)

section \<open>A client over connections that never fail to open\<close>

text \<open>
  What \<open>NewWithConn\<close> makes of a dialler that always gives the connection \<open>cn\<close>: no call is refused,
  so that each runs its operation on \<open>cn\<close>.
\<close>

definition quiet :: "('w, 'id) core \<Rightarrow> 'w conn \<Rightarrow> bool" where
  "quiet c cn \<longleftrightarrow> (\<forall>w. oDial (poolOpts (exec c)) w = (Inr cn, w)) \<and>
     (\<forall>x w. oBind (poolOpts (exec c)) x w = (None, w)) \<and> (\<forall>w. snd (oClose (poolOpts (exec c)) cn w) = w) \<and>
     (\<forall>w. oCtx (poolOpts (exec c)) w = None) \<and> 1 \<le> maxAttempts (exec c)"

definition open_pool :: "'w conn \<Rightarrow> 'w conn pool \<Rightarrow> bool" where
  "open_pool cn p \<longleftrightarrow> \<not> closed p \<and> sem p < Size p \<and> set (idle p) \<subseteq> {cn}"

lemma open_pool_NewPool [simp]: "open_pool cn (NewPool n)"
  by (simp add: open_pool_def NewPool_def)

lemma quiet_Acquire:
  assumes "quiet c cn" "open_pool cn p"
  shows "\<exists>l p'. Acquire (poolOpts (exec c)) p w = Some (Inr l, p', w) \<and> leaseConn l = cn \<and> \<not> once l \<and>
    \<not> closed p' \<and> sem p' = Suc (sem p) \<and> Size p' = Size p \<and> set (idle p') \<subseteq> {cn}"
proof -
  have "idle p \<noteq> [] \<Longrightarrow> last (idle p) = cn" "set (butlast (idle p)) \<subseteq> {cn}"
    using assms(2) by (auto simp: open_pool_def dest: in_set_butlastD last_in_set)
  then show ?thesis
    using assms by (auto simp: quiet_def open_pool_def Acquire_def acquire_slot_def)
qed

lemma run_quiet:
  assumes "quiet c cn" "open_pool cn p" "fn cn w = (r, w')"
    and "\<And>e. r = Inl e \<Longrightarrow> \<not> retryable (exec c) (Kind (Classify_err (classifyCode (exec c)) op e))"
  shows "\<exists>p'. open_pool cn p' \<and> run c op d fn p w =
    Some (case r of Inr x \<Rightarrow> Inr x | Inl e \<Rightarrow> Inl (ErrAd (Classify_err (classifyCode (exec c)) op e)), p', w')"
proof -
  from assms(1) obtain k where k: "nat (maxAttempts (exec c)) = Suc k"
    by (cases "nat (maxAttempts (exec c))") (auto simp: quiet_def)
  from quiet_Acquire [OF assms(1,2)] obtain l p1 where acq: "Acquire (poolOpts (exec c)) p w = Some (Inr l, p1, w)"
    "leaseConn l = cn" "\<not> once l" "\<not> closed p1" "sem p1 = Suc (sem p)" "Size p1 = Size p" "set (idle p1) \<subseteq> {cn}"
    by blast
  with assms k show ?thesis
    by (cases r)
       (auto simp: run_def withConn_def Release_def Discard_def Let_def open_pool_def quiet_def)
qed

end
