(* ===== verification/Search.thy ===== *)
theory Search
  imports Core
begin

text \<open>
  The root package, file \<open>search.go\<close>: class-scoped searches that never return a truncated result,
  and the lookup of exactly one object by its identity.
\<close>

definition ControlPaging :: string where "ControlPaging = ''1.2.840.113556.1.4.319''"
definition ControlShowDeleted :: string where "ControlShowDeleted = ''1.2.840.113556.1.4.417''"
definition ControlSDFlags :: string where "ControlSDFlags = ''1.2.840.113556.1.4.801''"
definition ControlExtendedDN :: string where "ControlExtendedDN = ''1.2.840.113556.1.4.529''"
definition MatchingRuleInChain :: string where "MatchingRuleInChain = ''1.2.840.113556.1.4.1941''"

fun scopeOf :: "search_scope \<Rightarrow> scope" where
  "scopeOf SearchScopeBase = ScopeBase"
| "scopeOf SearchScopeOneLevel = ScopeOneLevel"
| "scopeOf _ = ScopeSubtree"

definition tooMany :: "string \<Rightarrow> int \<Rightarrow> go_error" where
  "tooMany op limit = ad_err KindTooManyResults op
     (ErrMsg (''more than '' @ FormatInt limit @ '' objects matched; narrow the filter or raise the limit''))"

definition classTerm :: "'id adcore \<Rightarrow> string \<Rightarrow> string" where
  "classTerm a objectClass =
     (if objectClass = ''*'' then ''(objectClass=*)'' else Equal a ''objectClass'' objectClass)"

text \<open>The request of \<open>searchEntries\<close>, with the defaults of the query filled in.\<close>

definition search_request_of ::
  "('w, 'id) core \<Rightarrow> query \<Rightarrow> string \<Rightarrow> string list \<Rightarrow> control list \<Rightarrow> search_request" where
  "search_request_of c q objectClass want controls =
     (let filter = classTerm (ad c) objectClass;
          filter = (if qFilter q \<noteq> [] then And (ad c) filter (qFilter q) else filter)
      in \<lparr>BaseDN = qSearchBase q, Scope = scopeOf (qScope q), Filter = filter, Attributes = want,
          SizeLimit = qSizeLimit q + 1, Controls = controls\<rparr>)"

definition searchEntries ::
  "('w, 'id) core \<Rightarrow> string \<Rightarrow> query \<Rightarrow> string \<Rightarrow> string list \<Rightarrow> control list \<Rightarrow> ('w, entry list) prog" where
  "searchEntries c op q objectClass want controls =
     (let q = WithDefaults (ad c) q (dnc c) in
      handle (run c op [] (search_entries (search_request_of c q objectClass want controls))) (\<lambda>r.
        case r of
          Inl err \<Rightarrow>
            if has_kind KindTooManyResults err then fail (tooMany op (qSizeLimit q)) else fail err
        | Inr entries \<Rightarrow>
            if qSizeLimit q < int (length entries) then fail (tooMany op (qSizeLimit q))
            else ret entries))"

definition nibble :: "byte \<Rightarrow> char" where
  "nibble x = ''0123456789abcdef'' ! unat x"

definition escapeBinary :: "bytes \<Rightarrow> string" where
  "escapeBinary b =
     concat (map (\<lambda>x. [char_of (92 :: nat), nibble (drop_bit 4 x), nibble (x AND 0x0f)]) b)"

definition identityFilter :: "'id adcore \<Rightarrow> 'id \<Rightarrow> string res" where
  "identityFilter a i =
     (let arg = IdentityArg a i; form = IdentityForm a i in
      if form = ''guid''
      then bind_res (GUIDToBytes arg) (\<lambda>b. Inr (''(objectGUID='' @ escapeBinary b @ '')''))
      else if form = ''sid'' then Inr (Equal a ''objectSid'' arg)
      else if form = ''sam'' then Inr (Equal a ''sAMAccountName'' arg)
      else Inr (Equal a ''distinguishedName'' arg))"

definition notFound :: "'id adcore \<Rightarrow> string \<Rightarrow> 'id \<Rightarrow> string \<Rightarrow> go_error" where
  "notFound a op i objectClass =
     (let what = (if objectClass = ''*'' then ''object'' else objectClass) in
      ErrAd (AdError KindNotFound op (IdentityString a i) [] 0 [] False
        (Some (ErrMsg (''no '' @ what @ '' matches '' @ IdentityString a i)))))"

definition one_request ::
  "('w, 'id) core \<Rightarrow> string \<Rightarrow> string \<Rightarrow> string list \<Rightarrow> control list \<Rightarrow> search_request" where
  "one_request c f objectClass want controls =
     \<lparr>BaseDN = dnc c, Scope = ScopeSubtree, Filter = And (ad c) (classTerm (ad c) objectClass) f,
      Attributes = want, SizeLimit = 2, Controls = controls\<rparr>"

definition getOne ::
  "('w, 'id) core \<Rightarrow> string \<Rightarrow> 'id \<Rightarrow> string \<Rightarrow> string list \<Rightarrow> control list \<Rightarrow> ('w, entry) prog" where
  "getOne c op i objectClass want controls =
     (case identityFilter (ad c) i of
        Inl err \<Rightarrow> fail (ErrAd (AdError KindConstraint op (IdentityString (ad c) i) [] 0 [] False (Some err)))
      | Inr f \<Rightarrow>
          handle (run c op [] (search_entries (one_request c f objectClass want controls))) (\<lambda>r.
            case r of
              Inl err \<Rightarrow>
                if has_kind KindNotFound err then fail (notFound (ad c) op i objectClass)
                else fail (WithIdentity (ad c) err op i)
            | Inr [e] \<Rightarrow> ret e
            | Inr [] \<Rightarrow> fail (notFound (ad c) op i objectClass)
            | Inr entries \<Rightarrow>
                fail (ErrAd (AdError KindConstraint op (IdentityString (ad c) i) [] 0 [] False
                  (Some (ErrMsg (fmt_nat 10 (length entries) @ '' objects match '' @
                     IdentityString (ad c) i @ ''; the identity is ambiguous'')))))))"

definition resolveDN :: "('w, 'id) core \<Rightarrow> string \<Rightarrow> 'id \<Rightarrow> ('w, string) prog" where
  "resolveDN c op i =
     (if IdentityForm (ad c) i = ''dn'' then ret (IdentityArg (ad c) i)
      else andThen (getOne c op i ''*'' [''distinguishedName''] []) (\<lambda>e. ret (DN e)))"

lemma SizeLimit_requests [simp]:
  "SizeLimit (search_request_of c q cls want controls) = qSizeLimit q + 1"
  "SizeLimit (one_request c f cls want controls) = 2"
  by (simp_all add: search_request_of_def one_request_def Let_def)

section \<open>Servers\<close>

text \<open>
  A server that answers a search from the objects \<open>M\<close> that match it: it returns them all when they fit
  the size limit of the request; otherwise it either cuts them at the limit or answers
  \<open>sizeLimitExceeded\<close> with a diagnostic whose Win32 code, if any, \<open>adcore\<close> does not know.
\<close>

definition answers :: "(int \<Rightarrow> kind option) \<Rightarrow> search_request \<Rightarrow> entry list \<Rightarrow> 'w conn \<Rightarrow> bool" where
  "answers C req M cn \<longleftrightarrow>
     (\<forall>w. if SizeLimit req \<le> 0 \<or> int (length M) \<le> SizeLimit req
          then \<exists>cs. cSearch cn req w = (Inr \<lparr>Entries = M, RespControls = cs\<rparr>, w)
          else (\<exists>cs. cSearch cn req w =
                  (Inr \<lparr>Entries = take (nat (SizeLimit req)) M, RespControls = cs\<rparr>, w)) \<or>
               (\<exists>d. cSearch cn req w = (Inl (ErrRaw 4 d None), w) \<and>
                  (\<forall>code. ExtractWin32Code d = Some code \<longrightarrow> C code = None)))"

lemma Classify_sizeLimit:
  assumes "\<forall>code. ExtractWin32Code d = Some code \<longrightarrow> C code = None"
  shows "Kind (Classify_err C op (ErrRaw 4 d None)) = KindTooManyResults"
  using assms
  by (simp add: Classify_err_def errors_Is_def as_raw_def is_raw_def byResultCode_def Let_def
      split: option.split)

lemma search_entries_answers:
  assumes "answers C req M cn" "search_entries req cn w = (r, w')"
  shows "r = Inr M \<and> (SizeLimit req \<le> 0 \<or> int (length M) \<le> SizeLimit req) \<or>
    0 < SizeLimit req \<and> SizeLimit req < int (length M) \<and>
      (r = Inr (take (nat (SizeLimit req)) M) \<or>
       (\<exists>d. r = Inl (ErrRaw 4 d None) \<and> (\<forall>code. ExtractWin32Code d = Some code \<longrightarrow> C code = None)))"
proof -
  have "if SizeLimit req \<le> 0 \<or> int (length M) \<le> SizeLimit req
          then \<exists>cs. cSearch cn req w = (Inr \<lparr>Entries = M, RespControls = cs\<rparr>, w)
          else (\<exists>cs. cSearch cn req w =
                  (Inr \<lparr>Entries = take (nat (SizeLimit req)) M, RespControls = cs\<rparr>, w)) \<or>
               (\<exists>d. cSearch cn req w = (Inl (ErrRaw 4 d None), w) \<and>
                  (\<forall>code. ExtractWin32Code d = Some code \<longrightarrow> C code = None))"
    using assms(1) unfolding answers_def by blast
  with assms(2) show ?thesis
    by (auto simp: search_entries_def split: if_split_asm)
qed

lemma io_inv_True: "io_inv (\<lambda>_. True) env"
  by (simp add: io_inv_def)

lemma run_answers:
  assumes "run c op [] (search_entries req) p w = Some (r, p', w')"
    and "pool_of (answers (classifyCode (exec c)) req M) (poolOpts (exec c)) p"
    and "1 \<le> maxAttempts (exec c)"
  shows "case r of
      Inr es \<Rightarrow> es = M \<and> (SizeLimit req \<le> 0 \<or> int (length M) \<le> SizeLimit req) \<or>
        es = take (nat (SizeLimit req)) M \<and> 0 < SizeLimit req \<and> SizeLimit req < int (length M)
    | Inl e \<Rightarrow> no_conn (exec c) op e \<or>
        has_kind KindTooManyResults e \<and> 0 < SizeLimit req \<and> SizeLimit req < int (length M)"
proof -
  let ?C = "classifyCode (exec c)"
  let ?Q = "\<lambda>r. r = Inr M \<and> (SizeLimit req \<le> 0 \<or> int (length M) \<le> SizeLimit req) \<or>
    0 < SizeLimit req \<and> SizeLimit req < int (length M) \<and>
      (r = Inr (take (nat (SizeLimit req)) M) \<or>
       (\<exists>d. r = Inl (ErrRaw 4 d None) \<and> (\<forall>code. ExtractWin32Code d = Some code \<longrightarrow> ?C code = None)))"
  have "case r of Inr x \<Rightarrow> ?Q (Inr x) | Inl e \<Rightarrow> no_conn (exec c) op e \<or>
      (\<exists>err. ?Q (Inl err) \<and> e = ErrAd (Classify_err ?C op err))"
    by (rule run_rule [where I = "\<lambda>_. True" and Q = ?Q, OF assms(1-3) TrueI io_inv_True,
          THEN conjunct2, THEN conjunct2]) (rule conjI [OF search_entries_answers TrueI])
  then show ?thesis
    by (auto simp: has_kind_def Classify_sizeLimit split: sum.split_asm)
qed

section \<open>Properties\<close>

text \<open>
  C13. A search never returns a silently truncated set: against a server that holds the objects \<open>M\<close> for
  the request, and that may itself cut the answer or refuse it at the size limit, \<open>searchEntries\<close>
  returns exactly \<open>M\<close>, which then fits the caller's limit, or fails; and where more objects match
  than the limit, it fails with \<open>KindTooManyResults\<close> unless no connection could be had.
\<close>

theorem searchEntries_complete:
  assumes "searchEntries c op q objectClass want controls p w = Some (r, p', w')"
    and "qd = WithDefaults (ad c) q (dnc c)" "0 \<le> qSizeLimit qd"
    and "pool_of (answers (classifyCode (exec c)) (search_request_of c qd objectClass want controls) M)
           (poolOpts (exec c)) p"
    and "1 \<le> maxAttempts (exec c)"
  shows "case r of
      Inr es \<Rightarrow> es = M \<and> int (length M) \<le> qSizeLimit qd
    | Inl e \<Rightarrow> (qSizeLimit qd < int (length M) \<and> e = tooMany op (qSizeLimit qd)) \<or>
        (\<exists>e'. no_conn (exec c) op e' \<and> (e = e' \<or> e = tooMany op (qSizeLimit qd)))"
proof -
  let ?req = "search_request_of c qd objectClass want controls"
  from assms(1,2) obtain r1 p1 w1 where r1: "run c op [] (search_entries ?req) p w = Some (r1, p1, w1)"
    by (auto simp: searchEntries_def Let_def prog_simps split: option.split_asm)
  note a = run_answers [OF r1 assms(4,5)]
  show ?thesis
    using assms(1-3) r1 a
    by (cases r1) (auto simp: searchEntries_def Let_def prog_simps split: if_split_asm)
qed

text \<open>
  C12. An identity lookup returns an object only if it is the one object that matches: with no match it
  fails with \<open>KindNotFound\<close>, with two or more it fails, never with a silent first match.
\<close>

theorem getOne_unique:
  assumes "getOne c op i objectClass want controls p w = Some (r, p', w')"
    and "identityFilter (ad c) i = Inr f"
    and "pool_of (answers (classifyCode (exec c)) (one_request c f objectClass want controls) M)
           (poolOpts (exec c)) p"
    and "1 \<le> maxAttempts (exec c)"
  shows "case r of
      Inr e \<Rightarrow> M = [e]
    | Inl err \<Rightarrow> (M = [] \<and> err = notFound (ad c) op i objectClass) \<or> 2 \<le> length M \<or>
        (\<exists>e'. no_conn (exec c) op e' \<and>
           (err = WithIdentity (ad c) e' op i \<or> err = notFound (ad c) op i objectClass))"
proof -
  let ?req = "one_request c f objectClass want controls"
  from assms(1,2) obtain r1 p1 w1 where r1: "run c op [] (search_entries ?req) p w = Some (r1, p1, w1)"
    by (auto simp: getOne_def prog_simps split: option.split_asm)
  note a = run_answers [OF r1 assms(3,4)]
  show ?thesis
  proof (cases r1)
    case (Inl e)
    with a assms(1,2) r1 show ?thesis
      by (auto simp: getOne_def prog_simps has_kind_def split: if_split_asm option.split_asm)
  next
    case (Inr es)
    with a have es: "es = M \<and> length M \<le> 2 \<or> es = take 2 M \<and> 2 < length M" by auto
    then have one: "es = [e] \<Longrightarrow> M = [e]" for e by (auto dest: arg_cong [where f = length])
    consider "es = []" | e where "es = [e]" | x y zs where "es = x # y # zs"
      by (metis neq_Nil_conv)
    then show ?thesis
      using es one assms(1,2) r1 Inr by cases (auto simp: getOne_def prog_simps)
  qed
qed

section \<open>A client of a fixed server\<close>

text \<open>An \<open>adcore\<close> whose identities are pairs of form and argument, and a server of fixed objects.\<close>

definition sample_ad :: "(string \<times> string) adcore" where
  "sample_ad = \<lparr>IdentityArg = snd, IdentityForm = fst, IdentityString = snd,
     ByDN = (\<lambda>s. (''dn'', s)), ByGUID = (\<lambda>s. (''guid'', s)), BySID = (\<lambda>s. (''sid'', s)),
     Equal = (\<lambda>a v. ''('' @ a @ ''='' @ v @ '')''), And = (\<lambda>f g. ''(&'' @ f @ g @ '')''),
     EscapeFilter = (\<lambda>s. s), EscapeValue = (\<lambda>s. s),
     ContainerOf = (\<lambda>s. case Index s '','' of None \<Rightarrow> Inl (ErrMsg ''no parent'') | Some i \<Rightarrow> Inr (drop (Suc i) s)),
     SplitDN = (\<lambda>s. Inr (Split CHR '','' s)),
     EqualFoldDN = (\<lambda>s t. Inr (EqualFold s t)), WithIdentity = (\<lambda>e op i. e),
     WithDefaults = (\<lambda>q d. if qSearchBase q = [] then q\<lparr>qSearchBase := d\<rparr> else q),
     IsErrNotFound = has_kind KindNotFound,
     ValidateName = (\<lambda>op n. if n = [] then Some (ad_err KindConstraint op (ErrMsg ''name'')) else None),
     ValidateContainer = (\<lambda>op n. if n = [] then Some (ad_err KindConstraint op (ErrMsg ''container'')) else None),
     GroupValidate = (\<lambda>s op b. None), UserValidate = (\<lambda>s op. None), ComputerValidate = (\<lambda>s op b. None),
     GMSAValidate = (\<lambda>s op b. None), SecretIsZero = (\<lambda>s. s = []), RevealSecret = (\<lambda>s. s),
     CanonicalACEKey = aceTrustee, RefKindString = (\<lambda>k. [])\<rparr>"

definition fixed_conn :: "entry list \<Rightarrow> unit conn" where
  "fixed_conn M =
     \<lparr>cSearch = (\<lambda>req w. (Inr \<lparr>Entries = (if SizeLimit req \<le> 0 then M else take (nat (SizeLimit req)) M),
                            RespControls = []\<rparr>, w)),
      cAdd = (\<lambda>dn as w. (Some (ErrRaw 53 [] None), w)),
      cModify = (\<lambda>dn ms cs w. (Some (ErrRaw 53 [] None), w)),
      cModifyDN = (\<lambda>dn r del sup w. (Some (ErrRaw 53 [] None), w)),
      cDelete = (\<lambda>dn w. (Some (ErrRaw 53 [] None), w)), cClose = (\<lambda>w. (None, w)), cLdap = None\<rparr>"

definition client_of :: "'w conn \<Rightarrow> ('w, string \<times> string) core" where
  "client_of cn =
     \<lparr>exec = \<lparr>poolOpts = \<lparr>oDial = (\<lambda>w. (Inr cn, w)), oBind = (\<lambda>c w. (None, w)),
                oClose = (\<lambda>c w. cClose c w), oCtx = (\<lambda>w. None), oPick = (\<lambda>w. True)\<rparr>,
              classifyCode = (\<lambda>_. None), retryable = (\<lambda>k. k = KindTransient),
              backoff = (\<lambda>n w. (None, w)), maxAttempts = 1\<rparr>,
      ad = sample_ad, server = ''dc01'', dnc = ''DC=corp'', schemaNC = [], configNC = [],
      repl = \<lparr>rWait = False, rTargets = [], rForceSync = False, rTimeout = 0, rPollInterval = 0\<rparr>,
      dialOther = (\<lambda>h w. (Inr cn, w)), clock = (\<lambda>w. (0, w)), sleep = (\<lambda>d w. (None, w)),
      dsidGet = (\<lambda>w. Some (replicate 8 0, None)), dsidPut = (\<lambda>x w. w)\<rparr>"

lemma client_of_simps [simp]:
  "ad (client_of cn) = sample_ad" "dnc (client_of cn) = ''DC=corp''"
  "classifyCode (exec (client_of cn)) = (\<lambda>_. None)" "maxAttempts (exec (client_of cn)) = 1"
  "rWait (repl (client_of cn)) = False"
  by (simp_all add: client_of_def)

lemma run_client_of:
  "run (client_of cn) op d fn (NewPool 1) w =
     (case fn cn w of
        (Inr x, w) \<Rightarrow> Some (Inr x, NewPool 1\<lparr>idle := [cn]\<rparr>, w)
      | (Inl e, w) \<Rightarrow>
          if Kind (Classify_err (\<lambda>_. None) op e) = KindTransport
          then Some (Inl (ErrAd (Classify_err (\<lambda>_. None) op e)), NewPool 1, snd (cClose cn w))
          else Some (Inl (ErrAd (Classify_err (\<lambda>_. None) op e)), NewPool 1\<lparr>idle := [cn]\<rparr>, w))"
  by (auto simp: run_def withConn_def client_of_def Acquire_def acquire_slot_def NewPool_def Release_def
      Discard_def Let_def split: prod.split sum.split)

lemma quiet_client_of: "(\<And>w. snd (cClose cn w) = w) \<Longrightarrow> quiet (client_of cn) cn"
  by (simp add: quiet_def client_of_def)

lemma pool_of_client: "G cn \<Longrightarrow> pool_of G (poolOpts (exec (client_of cn))) (NewPool 1)"
  by (simp add: pool_of_def NewPool_def client_of_def)

lemma answers_fixed: "answers C req M (fixed_conn M)"
  by (auto simp: answers_def fixed_conn_def)

lemma pool_of_fixed:
  "pool_of (answers C req M) (poolOpts (exec (client_of (fixed_conn M)))) (NewPool 1)"
  by (rule pool_of_client) (rule answers_fixed)

definition sample_entry :: entry where
  "sample_entry = \<lparr>DN = ''OU=a,DC=corp'', Attrs = [(''name'', [bytes_of ''a''])]\<rparr>"

definition sample_query :: query where
  "sample_query = \<lparr>qFilter = [], qSearchBase = ''DC=corp'', qScope = SearchScopeSubtree, qSizeLimit = 5\<rparr>"

theorem searchEntries_complete_witness:
  "\<exists>p' w'. searchEntries (client_of (fixed_conn [sample_entry])) ''OU.Search'' sample_query ''user'' [] []
       (NewPool 1) () = Some (Inr [sample_entry], p', w') \<and> int (length [sample_entry]) \<le> 5"
proof -
  let ?c = "client_of (fixed_conn [sample_entry])"
  have q: "sample_query = WithDefaults (ad ?c) sample_query (dnc ?c)" "0 \<le> qSizeLimit sample_query"
    "1 \<le> maxAttempts (exec ?c)"
    by (simp_all add: sample_ad_def sample_query_def)
  have run: "searchEntries ?c ''OU.Search'' sample_query ''user'' [] [] (NewPool 1) () =
      Some (Inr [sample_entry], NewPool 1\<lparr>idle := [fixed_conn [sample_entry]]\<rparr>, ())"
    using q(1) by (simp add: searchEntries_def Let_def prog_simps run_client_of search_entries_def fixed_conn_def)
      (simp add: sample_query_def)
  show ?thesis
    using searchEntries_complete [OF run q(1,2) pool_of_fixed q(3)] run
    by (auto simp: sample_query_def)
qed

definition sample_objects :: "entry list" where
  "sample_objects = [sample_entry]"

theorem getOne_unique_witness:
  "\<exists>p' w'. getOne (client_of (fixed_conn sample_objects)) ''OU.Get'' (''dn'', ''OU=a,DC=corp'') ''*'' [] []
       (NewPool 1) () = Some (Inr sample_entry, p', w') \<and> sample_objects = [sample_entry]"
proof -
  let ?c = "client_of (fixed_conn sample_objects)" and ?i = "(''dn'', ''OU=a,DC=corp'')"
  obtain f where f: "identityFilter (ad ?c) ?i = Inr f" by (simp add: identityFilter_def sample_ad_def)
  then have run: "getOne ?c ''OU.Get'' ?i ''*'' [] [] (NewPool 1) () =
      Some (Inr sample_entry, NewPool 1\<lparr>idle := [fixed_conn sample_objects]\<rparr>, ())"
    by (simp add: getOne_def prog_simps run_client_of search_entries_def fixed_conn_def sample_objects_def)
  have "1 \<le> maxAttempts (exec ?c)" by simp
  then show ?thesis
    using getOne_unique [OF run f pool_of_fixed] run by auto
qed

end
