(* ===== verification/Matcher.thy ===== *)
theory Matcher
  imports Search
begin

text \<open>
  Package \<open>internal/adtest\<close>: how the directories of the harness compare names and evaluate filters
  (\<open>server.go\<close>, \<open>handlers.go\<close>, \<open>sid.go\<close>).  An entry's attributes are a map whose iteration order is the
  order of an association list.
\<close>

section \<open>Names\<close>

definition normalizeDN :: "string \<Rightarrow> string" where
  "normalizeDN dn = Join '','' (map TrimSpace (Split CHR '','' dn))"

definition equalFoldDN :: "string \<Rightarrow> string \<Rightarrow> bool" where
  "equalFoldDN a b = EqualFold (normalizeDN a) (normalizeDN b)"

definition isUnder :: "string \<Rightarrow> string \<Rightarrow> bool" where
  "isUnder dn base \<longleftrightarrow> equalFoldDN dn base \<or>
     HasSuffix (ToLower (normalizeDN dn)) ('','' @ ToLower (normalizeDN base))"

definition isChildOf :: "string \<Rightarrow> string \<Rightarrow> bool" where
  "isChildOf dn base \<longleftrightarrow> isUnder dn base \<and> \<not> equalFoldDN dn base \<and>
     \<not> Contains (take (length (normalizeDN dn) - length (normalizeDN base) - 1) (normalizeDN dn)) '',''"

section \<open>Security identifiers\<close>

definition DomainSID :: bytes where
  "DomainSID = [1, 4, 0, 0, 0, 0, 0, 5, 21, 0, 0, 0, 1, 0, 0, 0, 2, 0, 0, 0, 3, 0, 0, 0]"

definition principalSID :: "u32 \<Rightarrow> bytes" where
  "principalSID rid = DomainSID[1 := DomainSID ! 1 + 1] @ le32 rid"

definition principalClasses :: "string list" where
  "principalClasses = [''user'', ''computer'', ''group'', ''msds-groupmanagedserviceaccount'']"

definition stampSID :: "attr_map \<Rightarrow> u32 \<Rightarrow> attr_map" where
  "stampSID entry rid =
     (if list_ex (\<lambda>c. ToLower (str_of c) \<in> set principalClasses) (map_get entry ''objectClass'')
      then map_put ''objectSid'' [principalSID rid] entry else entry)"

definition sidMatches :: "bytes \<Rightarrow> string \<Rightarrow> bool" where
  "sidMatches have_sid want =
     (case SIDToString have_sid of Inl _ \<Rightarrow> False | Inr s \<Rightarrow> EqualFold s want)"

section \<open>Assertion values\<close>

definition unhex :: "char \<Rightarrow> nat option" where
  "unhex c =
     (let n = of_char c in
      if 48 \<le> n \<and> n \<le> 57 then Some (n - 48)
      else if 97 \<le> n \<and> n \<le> 102 then Some (n - 97 + 10)
      else if 65 \<le> n \<and> n \<le> 70 then Some (n - 65 + 10)
      else None)"

fun unescape_loop :: "string \<Rightarrow> string" where
  "unescape_loop (c # a # b # s) =
     (if c \<noteq> CHR 0x5C then c # unescape_loop (a # b # s)
      else case (unhex a, unhex b) of
          (Some hi, Some lo) \<Rightarrow> char_of (16 * hi + lo) # unescape_loop s
        | _ \<Rightarrow> c # unescape_loop (a # b # s))"
| "unescape_loop (c # s) = c # unescape_loop s"
| "unescape_loop [] = []"

definition unescapeFilterValue :: "string \<Rightarrow> string" where
  "unescapeFilterValue s = (if \<not> Contains s [CHR 0x5C] then s else unescape_loop s)"

text \<open>The middle parts of a substring assertion, in order.\<close>

fun match_mids :: "string \<Rightarrow> string list \<Rightarrow> bool" where
  "match_mids h [] = True"
| "match_mids h (m # ms) =
     (if m = [] then match_mids h ms
      else case Index h m of None \<Rightarrow> False | Some i \<Rightarrow> match_mids (drop (i + length m) h) ms)"

definition matchValue :: "string \<Rightarrow> string \<Rightarrow> bool" where
  "matchValue have_val want =
     (if \<not> Contains want ''*'' then EqualFold have_val want
      else let parts = Split CHR ''*'' (ToLower want);
               h = ToLower have_val;
               pre = hd parts;
               final = last parts;
               h1 = drop (length pre) h;
               h2 = take (length h1 - length final) h1
        in HasPrefix h pre \<and> HasSuffix h1 final \<and> match_mids h2 (butlast (tl parts)))"

definition lookupFold :: "attr_map \<Rightarrow> string \<Rightarrow> bytes list option" where
  "lookupFold attrs name = map_option snd (find (\<lambda>kv. EqualFold (fst kv) name) attrs)"

section \<open>Filters\<close>

text \<open>The loop of \<open>splitTerms\<close>: \<open>i\<close> is the index of the rest of \<open>s\<close>.\<close>

fun split_terms :: "string \<Rightarrow> nat \<Rightarrow> int \<Rightarrow> nat \<Rightarrow> string \<Rightarrow> string list" where
  "split_terms s i depth start [] = []"
| "split_terms s i depth start (c # r) =
     (if c = CHR ''('' then split_terms s (i + 1) (depth + 1) (if depth = 0 then i else start) r
      else if c = CHR '')'' then
        (if depth - 1 = 0 then [slice start (i + 1) s] else []) @ split_terms s (i + 1) (depth - 1) start r
      else split_terms s (i + 1) depth start r)"

definition splitTerms :: "string \<Rightarrow> string list" where
  "splitTerms s = split_terms s 0 0 0 s"

text \<open>A loop over the terms that stops at the first one whose value is \<open>b\<close>.\<close>

fun any_term :: "bool \<Rightarrow> ('a \<Rightarrow> bool res) \<Rightarrow> 'a list \<Rightarrow> bool res" where
  "any_term b f [] = Inr (\<not> b)"
| "any_term b f (t # ts) = bind_res (f t) (\<lambda>v. if v = b then Inr b else any_term b f ts)"

lemma any_term_cong [fundef_cong]:
  "b = b' \<Longrightarrow> ts = ts' \<Longrightarrow> (\<And>t. t \<in> set ts' \<Longrightarrow> f t = f' t) \<Longrightarrow> any_term b f ts = any_term b' f' ts'"
  by (induction ts' arbitrary: ts) (auto intro: bind_res_cong)

text \<open>The comparison of one attribute: the body of a filter without its parentheses.\<close>

definition match_assertion :: "string \<Rightarrow> attr_map \<Rightarrow> bool" where
  "match_assertion body0 attrs =
     (let body = (case (Index body0 '':'', Index body0 '':='') of
                    (Some j, Some k) \<Rightarrow> if 0 < j then take j body0 @ drop (k + 1) body0 else body0
                  | _ \<Rightarrow> body0)
      in case Index body ''='' of
           None \<Rightarrow> False
         | Some i \<Rightarrow>
             let attr = take i body; want = drop (i + 1) body in
             case lookupFold attrs attr of
               None \<Rightarrow> False
             | Some vals \<Rightarrow>
                 if want = ''*'' then 0 < length vals
                 else let unescaped = unescapeFilterValue want in
                   list_ex (\<lambda>v. if EqualFold attr ''objectSid'' then sidMatches v unescaped
                                 else matchValue (str_of v) unescaped) vals)"

lemma length_TrimSpace: "length (TrimSpace s) \<le> length s"
  by (simp add: TrimSpace_def) (metis length_dropWhile_le length_rev le_trans)

lemma split_terms_length: "t \<in> set (split_terms s i d st r) \<Longrightarrow> length t \<le> length s"
  by (induction s i d st r rule: split_terms.induct) (auto simp: slice_def split: if_split_asm)

function matchFilter :: "string \<Rightarrow> attr_map \<Rightarrow> bool res" where
  "matchFilter filter0 attrs =
     (let f = TrimSpace filter0; inner = slice 2 (length f - 1) f in
      if f = [] then Inr True
      else if HasPrefix f ''(&'' then
        (if length f < 3 then Inl (GoPanic ''slice bounds out of range'')
         else any_term False (\<lambda>t. matchFilter t attrs) (splitTerms inner))
      else if HasPrefix f ''(|'' then
        (if length f < 3 then Inl (GoPanic ''slice bounds out of range'')
         else any_term True (\<lambda>t. matchFilter t attrs) (splitTerms inner))
      else if HasPrefix f ''(!'' then
        (if length f < 3 then Inl (GoPanic ''slice bounds out of range'')
         else bind_res (matchFilter inner attrs) (\<lambda>b. Inr (\<not> b)))
      else if \<not> HasPrefix f ''('' \<or> \<not> HasSuffix f '')'' then Inr False
      else Inr (match_assertion (slice 1 (length f - 1) f) attrs))"
  by pat_completeness auto
termination
proof (relation "measure (\<lambda>(f, _). length f)", goal_cases)
  case 1
  then show ?case by simp
next
  case (2 filter0 attrs f inner t)
  then have "length t \<le> length inner" "length inner < length f" "length f \<le> length filter0"
    by (auto simp: splitTerms_def slice_def length_TrimSpace dest: split_terms_length)
  then show ?case by simp
next
  case (3 filter0 attrs f inner t)
  then have "length t \<le> length inner" "length inner < length f" "length f \<le> length filter0"
    by (auto simp: splitTerms_def slice_def length_TrimSpace dest: split_terms_length)
  then show ?case by simp
next
  case (4 filter0 attrs f inner)
  then have "length inner < length f" "length f \<le> length filter0"
    by (auto simp: slice_def length_TrimSpace)
  then show ?case by simp
qed

declare matchFilter.simps [simp del]

end
