(* ===== verification/Ranged.thy ===== *)
theory Ranged
  imports Search
begin

text \<open>
  The root package, file \<open>ranged.go\<close>: reading a multi-valued attribute that the domain controller
  hands out in pages, and the paging of the in-memory directory (\<open>internal/adtest/memory.go\<close>), which
  answers the way a domain controller does.

  The loop of \<open>rangedValues\<close> has no bound of its own; the model gives it fuel, one unit per page, and
  \<open>None\<close> is a loop that has not ended.
\<close>

section \<open>The reader\<close>

definition findRangedAttr :: "entry \<Rightarrow> string \<Rightarrow> (string \<times> bool) res" where
  "findRangedAttr e attr =
     (if map_of (Attrs e) attr \<noteq> None then Inr (attr, True)
      else let prefix = ToLower attr @ '';range='' in
        case find (\<lambda>kv. HasPrefix (ToLower (fst kv)) prefix) (Attrs e) of
          None \<Rightarrow> Inr (attr, True)
        | Some kv \<Rightarrow>
            let k = fst kv; spec = drop (length prefix) (ToLower k) in
            case Index spec ''-'' of
              None \<Rightarrow> Inl (ErrMsg (''malformed range option '' @ quote spec @ '' on '' @ attr))
            | Some i \<Rightarrow>
                let hi = drop (i + 1) spec in
                if hi = ''*'' then Inr (k, True)
                else case ParseInt hi 10 64 of
                    Inl _ \<Rightarrow> Inl (ErrMsg (''malformed range upper bound '' @ quote hi @ '' on '' @ attr))
                  | Inr _ \<Rightarrow> Inr (k, False))"

definition range_want :: "string \<Rightarrow> nat \<Rightarrow> string" where
  "range_want attr lo = attr @ '';range='' @ fmt_nat 10 lo @ ''-*''"

definition range_request :: "string \<Rightarrow> string \<Rightarrow> nat \<Rightarrow> search_request" where
  "range_request dn attr lo =
     \<lparr>BaseDN = dn, Scope = ScopeBase, Filter = ''(objectClass=*)'', Attributes = [range_want attr lo],
      SizeLimit = 1, Controls = []\<rparr>"

text \<open>The closure of the loop: one page.\<close>

definition range_page :: "string \<Rightarrow> string \<Rightarrow> string \<Rightarrow> nat \<Rightarrow> 'w conn \<Rightarrow> 'w \<Rightarrow> entry res \<times> 'w" where
  "range_page op dn attr lo cn w =
     (case cSearch cn (range_request dn attr lo) w of
        (Inl e, w) \<Rightarrow> (Inl e, w)
      | (Inr res, w) \<Rightarrow>
          (case Entries res of
             [] \<Rightarrow> (Inl (ErrAd (AdError KindNotFound op [] dn 0 [] False
                      (Some (ErrMsg (''the object disappeared while its '' @ attr @ '' was being read''))))), w)
           | e # _ \<Rightarrow> (Inr e, w)))"

fun ranged_loop ::
  "nat \<Rightarrow> ('w, 'id) core \<Rightarrow> string \<Rightarrow> string \<Rightarrow> string \<Rightarrow> nat \<Rightarrow> bytes list \<Rightarrow> ('w, bytes list) prog" where
  "ranged_loop 0 c op dn attr lo out = (\<lambda>p w. None)"
| "ranged_loop (Suc fuel) c op dn attr lo out =
     andThen (run c op \<lparr>DN = [], Attrs = []\<rparr> (range_page op dn attr lo)) (\<lambda>e.
       case findRangedAttr e attr of
         Inl err \<Rightarrow> fail (ErrAd (AdError KindConstraint op [] dn 0 [] False (Some err)))
       | Inr (key, final) \<Rightarrow>
           let vals = (case map_of (Attrs e) key of Some v \<Rightarrow> v | None \<Rightarrow> []) in
           if final \<or> vals = [] then ret (out @ vals)
           else ranged_loop fuel c op dn attr (lo + length vals) (out @ vals))"

definition rangedValues ::
  "nat \<Rightarrow> ('w, 'id) core \<Rightarrow> string \<Rightarrow> string \<Rightarrow> string \<Rightarrow> ('w, bytes list) prog" where
  "rangedValues fuel c op dn attr = ranged_loop fuel c op dn attr 0 []"

section \<open>The paging of the in-memory directory\<close>

definition baseAttr :: "string \<Rightarrow> string" where
  "baseAttr desc = (case Index desc '';'' of Some i \<Rightarrow> take i desc | None \<Rightarrow> desc)"

text \<open>The first value a request asks for; what does not parse is 0.\<close>

definition range_start :: "string \<Rightarrow> int" where
  "range_start w =
     (case Index (ToLower w) '';range='' of
        None \<Rightarrow> 0
      | Some i \<Rightarrow>
          let spec = drop (i + length '';range='') w in
          case Index spec ''-'' of
            None \<Rightarrow> 0
          | Some j \<Rightarrow> (case ParseInt (take j spec) 10 64 of Inl _ \<Rightarrow> 0 | Inr n \<Rightarrow> n))"

text \<open>
  The loop over the requested attributes.  A negative start, which no request of this module
  carries, is out of range for the slice.
\<close>

fun range_pages_loop ::
  "(string \<times> bytes list) list \<Rightarrow> nat \<Rightarrow> string list \<Rightarrow> (string \<times> bytes list) list \<Rightarrow>
     (string \<times> bytes list) list res" where
  "range_pages_loop attrs limit [] out = Inr out"
| "range_pages_loop attrs limit (w # ws) out =
     (let base = baseAttr w in
      case map_of attrs base of
        None \<Rightarrow> range_pages_loop attrs limit ws out
      | Some vals \<Rightarrow>
          if length vals \<le> limit then range_pages_loop attrs limit ws out
          else if range_start w < 0 then Inl (GoPanic ''slice bounds out of range'')
          else let lo = min (nat (range_start w)) (length vals);
                   hi = lo + limit;
                   out = filter (\<lambda>kv. fst kv \<noteq> base) out
            in if length vals \<le> hi
               then range_pages_loop attrs limit ws
                      (map_put (base @ '';range='' @ fmt_nat 10 lo @ ''-*'') (drop lo vals) out)
               else range_pages_loop attrs limit ws
                      (map_put (base @ '';range='' @ fmt_nat 10 lo @ ''-'' @ fmt_nat 10 (hi - 1))
                               (slice lo hi vals) out))"

definition rangePages ::
  "(string \<times> bytes list) list \<Rightarrow> string list \<Rightarrow> int \<Rightarrow> (string \<times> bytes list) list res" where
  "rangePages attrs want limit =
     (if limit \<le> 0 then Inr attrs else range_pages_loop attrs (nat limit) want attrs)"

section \<open>Range options as text\<close>

lemma Index_first: "d \<notin> set a \<Longrightarrow> Index (a @ d # b) [d] = Some (length a)"
  by (induction a) (auto simp: HasPrefix_def)

lemma Index_none: "d \<notin> set a \<Longrightarrow> Index a [d] = None"
  by (induction a) (auto simp: HasPrefix_def)

lemma lower_char_digit: "d < 10 \<Longrightarrow> lower_char (digit_char d) = digit_char d"
proof -
  assume "d < 10"
  then have "(of_char (digit_char d) :: nat) = 48 + d" using digit_char_eq_iff [of d "digit_char d"] by simp
  with \<open>d < 10\<close> show ?thesis by (simp add: lower_char_def is_upper_def)
qed

lemma ToLower_fmt_nat [simp]: "ToLower (fmt_nat 10 n) = fmt_nat 10 n"
proof -
  have "lower_char c = c" if "c \<in> set (fmt_nat 10 n)" for c
    using set_fmt_nat [of 10 c n] that lower_char_digit by auto
  then show ?thesis by (simp add: ToLower_def map_idI)
qed

lemma ToLower_append [simp]: "ToLower (a @ b) = ToLower a @ ToLower b"
  by (simp add: ToLower_def)

lemma ToLower_range [simp]: "ToLower '';range='' = '';range=''" "ToLower ''-*'' = ''-*''" "ToLower ''-'' = ''-''"
  by (simp_all add: ToLower_def lower_char_def is_upper_def)

lemma ParseInt_fmt_nat: "n < 2 ^ 63 \<Longrightarrow> ParseInt (fmt_nat 10 n) 10 64 = Inr (int n)"
  using ParseInt_FormatInt [of "int n"] by (simp add: FormatInt_def)

text \<open>An attribute name without options and without upper-case trouble.\<close>

definition plain_attr :: "string \<Rightarrow> bool" where
  "plain_attr a \<longleftrightarrow> CHR '';'' \<notin> set (ToLower a) \<and> CHR '';'' \<notin> set a"

lemma baseAttr_want: "plain_attr attr \<Longrightarrow> baseAttr (range_want attr lo) = attr"
  using Index_first [of "CHR '';''" attr "''range='' @ fmt_nat 10 lo @ ''-*''"]
  by (simp add: baseAttr_def range_want_def plain_attr_def)

lemma Index_append_first:
  "d \<notin> set a \<Longrightarrow> HasPrefix (d # b) (d # p) \<Longrightarrow> Index (a @ d # b) (d # p) = Some (length a)"
  by (induction a) (auto simp: HasPrefix_def)

lemma map_lower_fmt_nat: "map lower_char (fmt_nat 10 n) = fmt_nat 10 n"
  using ToLower_fmt_nat by (simp add: ToLower_def)

lemma ToLower_key:
  "ToLower (attr @ '';range='' @ fmt_nat 10 lo @ ''-*'') = ToLower attr @ '';range='' @ fmt_nat 10 lo @ ''-*''"
  "ToLower (attr @ '';range='' @ fmt_nat 10 lo @ ''-'' @ fmt_nat 10 hi) =
     ToLower attr @ '';range='' @ fmt_nat 10 lo @ ''-'' @ fmt_nat 10 hi"
  by (simp_all add: ToLower_def map_lower_fmt_nat lower_char_def is_upper_def)

lemma Index_digits: "Index (fmt_nat 10 lo @ CHR ''-'' # r) ''-'' = Some (length (fmt_nat 10 lo))"
  by (rule Index_first) (simp add: fmt_nat_no_sign)

lemma range_start_want:
  assumes "plain_attr attr" "lo < 2 ^ 63"
  shows "range_start (range_want attr lo) = int lo"
proof -
  let ?r = "''range='' @ fmt_nat 10 lo @ ''-*''"
  have "HasPrefix (CHR '';'' # ?r) '';range=''" by (simp add: HasPrefix_def)
  then have "Index (ToLower attr @ CHR '';'' # ?r) '';range='' = Some (length attr)"
    using assms(1) Index_append_first [of "CHR '';''" "ToLower attr" ?r "''range=''"]
    by (simp add: plain_attr_def ToLower_def)
  then have "Index (ToLower (range_want attr lo)) '';range='' = Some (length attr)"
    unfolding range_want_def ToLower_key by simp
  moreover have "drop (length attr + length '';range='') (range_want attr lo) = fmt_nat 10 lo @ CHR ''-'' # ''*''"
    by (simp add: range_want_def)
  ultimately show ?thesis
    using assms(2) Index_digits [of lo "''*''"] by (simp add: range_start_def ParseInt_fmt_nat)
qed

text \<open>The two shapes of the name under which a page comes back.\<close>

definition last_key :: "string \<Rightarrow> nat \<Rightarrow> string" where
  "last_key attr lo = attr @ '';range='' @ fmt_nat 10 lo @ ''-*''"

definition more_key :: "string \<Rightarrow> nat \<Rightarrow> nat \<Rightarrow> string" where
  "more_key attr lo hi = attr @ '';range='' @ fmt_nat 10 lo @ ''-'' @ fmt_nat 10 hi"

lemma find_page:
  "findRangedAttr \<lparr>DN = dn, Attrs = [(last_key attr lo, v)]\<rparr> attr = Inr (last_key attr lo, True)"
  "hi < 2 ^ 63 \<Longrightarrow> findRangedAttr \<lparr>DN = dn, Attrs = [(more_key attr lo hi, v)]\<rparr> attr = Inr (more_key attr lo hi, False)"
proof -
  let ?last = "last_key attr lo" and ?more = "more_key attr lo hi"
  have len: "length (ToLower attr) = length attr" by (simp add: ToLower_def)
  have pre: "HasPrefix (ToLower ?last) (ToLower attr @ '';range='')"
    "HasPrefix (ToLower ?more) (ToLower attr @ '';range='')"
    unfolding last_key_def more_key_def ToLower_key HasPrefix_def by simp_all
  have ne: "attr \<noteq> ?last" "attr \<noteq> ?more" by (simp_all add: last_key_def more_key_def)
  have dr: "drop (length (ToLower attr @ '';range='')) (ToLower ?last) = fmt_nat 10 lo @ CHR ''-'' # ''*''"
    "drop (length (ToLower attr @ '';range='')) (ToLower ?more) = fmt_nat 10 lo @ CHR ''-'' # fmt_nat 10 hi"
    unfolding last_key_def more_key_def ToLower_key by simp_all
  have star: "fmt_nat 10 hi \<noteq> ''*''"
  proof
    assume "fmt_nat 10 hi = ''*''"
    then have "CHR ''*'' \<in> set (fmt_nat 10 hi)" by simp
    from set_fmt_nat [OF _ _ this] obtain d where "d < 10" "digit_char d = CHR ''*''" by auto
    then show False by (simp add: digit_char_eq_iff)
  qed
  show "findRangedAttr \<lparr>DN = dn, Attrs = [(?last, v)]\<rparr> attr = Inr (?last, True)"
    using pre(1) ne(1) dr(1) Index_digits [of lo "''*''"]
    by (simp add: findRangedAttr_def Let_def del: length_append)
  show "findRangedAttr \<lparr>DN = dn, Attrs = [(?more, v)]\<rparr> attr = Inr (?more, False)" if "hi < 2 ^ 63"
    using that pre(2) ne(2) dr(2) Index_digits [of lo "fmt_nat 10 hi"] star
    by (simp add: findRangedAttr_def Let_def ParseInt_fmt_nat del: length_append)
qed

section \<open>Completeness\<close>

text \<open>The page of \<open>vals\<close> that the directory hands out from \<open>lo\<close> on.\<close>

definition page_of :: "string \<Rightarrow> bytes list \<Rightarrow> int \<Rightarrow> nat \<Rightarrow> (string \<times> bytes list) list" where
  "page_of attr vals limit lo =
     (case rangePages [(attr, vals)] [range_want attr lo] limit of Inr a \<Rightarrow> a | Inl _ \<Rightarrow> [])"

definition paging_server ::
  "string \<Rightarrow> string \<Rightarrow> bytes list \<Rightarrow> int \<Rightarrow> 'w conn \<Rightarrow> bool" where
  "paging_server dn attr vals limit cn \<longleftrightarrow>
     (\<forall>lo w. \<exists>cs. cSearch cn (range_request dn attr lo) w =
        (Inr \<lparr>Entries = [\<lparr>DN = dn, Attrs = page_of attr vals limit lo\<rparr>], RespControls = cs\<rparr>, w))"

lemma page_of_cases [consumes 3, case_names all final more]:
  assumes "plain_attr attr" "lo \<le> length vals" "length vals < 2 ^ 63"
  obtains (all) "page_of attr vals limit lo = [(attr, vals)]" "limit \<le> 0 \<or> int (length vals) \<le> limit"
  | (final) "page_of attr vals limit lo = [(last_key attr lo, drop lo vals)]"
  | (more) n where "0 < n" "lo + n < length vals"
    "page_of attr vals limit lo =
       [(more_key attr lo (lo + n - 1), slice lo (lo + n) vals)]"
proof (cases "limit \<le> 0 \<or> int (length vals) \<le> limit")
  case True
  then have "page_of attr vals limit lo = [(attr, vals)]"
    using baseAttr_want [OF assms(1)] by (auto simp: page_of_def rangePages_def)
  then show thesis by (rule all [OF _ True])
next
  case False
  have "range_start (range_want attr lo) = int lo" using assms by (intro range_start_want) simp_all
  moreover have "\<not> length vals \<le> nat limit" using False by linarith
  ultimately have eq: "page_of attr vals limit lo =
      (if length vals \<le> lo + nat limit
       then [(last_key attr lo, drop lo vals)]
       else [(more_key attr lo (lo + nat limit - 1),
              slice lo (lo + nat limit) vals)])"
    using False assms(2) baseAttr_want [OF assms(1), of lo]
    by (simp add: page_of_def rangePages_def Let_def map_put_def last_key_def more_key_def)
  show thesis
  proof (cases "length vals \<le> lo + nat limit")
    case True
    with eq show thesis by (intro final) simp
  next
    case more_left: False
    with eq False show thesis by (intro more [of "nat limit"]) simp_all
  qed
qed

text \<open>Every page of the loop is the directory's page, or the call failed for want of a connection.\<close>

lemma run_page:
  fixes c :: "('w, 'id) core"
  assumes "run c op d (range_page op dn attr lo) p w = Some (r, p', w')"
    and "pool_of (paging_server dn attr vals limit) (poolOpts (exec c)) p" "1 \<le> maxAttempts (exec c)"
  shows "pool_of (paging_server dn attr vals limit) (poolOpts (exec c)) p' \<and>
    (case r of Inr e \<Rightarrow> e = \<lparr>DN = dn, Attrs = page_of attr vals limit lo\<rparr> | Inl e \<Rightarrow> no_conn (exec c) op e)"
proof -
  let ?e = "\<lparr>DN = dn, Attrs = page_of attr vals limit lo\<rparr>"
  have "range_page op dn attr lo cn w = (Inr ?e, w)" if "paging_server dn attr vals limit cn" for cn :: "'w conn" and w
  proof -
    from that obtain cs where "cSearch cn (range_request dn attr lo) w =
        (Inr \<lparr>Entries = [?e], RespControls = cs\<rparr>, w)" unfolding paging_server_def by blast
    then show ?thesis by (simp add: range_page_def)
  qed
  then have pg: "paging_server dn attr vals limit cn \<Longrightarrow> range_page op dn attr lo cn w = (r, w') \<Longrightarrow>
      r = Inr ?e \<and> True" for cn :: "'w conn" and w r w' by simp
  note rule = run_rule [where I = "\<lambda>_. True" and Q = "\<lambda>r. r = Inr ?e", OF assms(1,2,3) TrueI io_inv_True]
  have "pool_of (paging_server dn attr vals limit) (poolOpts (exec c)) p'"
    by (rule rule [THEN conjunct1]) (rule pg)
  moreover have "case r of Inr x \<Rightarrow> Inr x = (Inr ?e :: entry res) | Inl e \<Rightarrow> no_conn (exec c) op e \<or>
      (\<exists>err. Inl err = (Inr ?e :: entry res) \<and> e = ErrAd (Classify_err (classifyCode (exec c)) op err))"
    by (rule rule [THEN conjunct2, THEN conjunct2]) (rule pg)
  ultimately show ?thesis by (auto split: sum.split_asm)
qed

lemma run_returns:
  assumes "sem p < Size p"
  obtains r p' w' where "run c op d fn p w = Some (r, p', w')" "sem p' < Size p'"
proof -
  have "run c op d fn p w \<noteq> None"
    unfolding run_def withConn_def using assms by (rule withConn_loop_returns)
  then obtain r p' w' where r: "run c op d fn p w = Some (r, p', w')" by (cases "run c op d fn p w") auto
  then have "sem p' = sem p \<and> Size p' = Size p"
    unfolding run_def withConn_def by (rule withConn_loop_slots)
  with r assms that show thesis by simp
qed

lemma ranged_loop_complete:
  assumes "plain_attr attr" "length vals < 2 ^ 63" "1 \<le> maxAttempts (exec c)"
    and "pool_of (paging_server dn attr vals limit) (poolOpts (exec c)) p" "sem p < Size p"
    and "lo \<le> length vals" "length vals - lo < fuel" "0 < lo \<Longrightarrow> \<not> (limit \<le> 0 \<or> int (length vals) \<le> limit)"
  shows "\<exists>r p' w'. ranged_loop fuel c op dn attr lo (take lo vals) p w = Some (r, p', w') \<and>
    (case r of Inr out \<Rightarrow> out = vals | Inl e \<Rightarrow> no_conn (exec c) op e)"
  using assms(4-8)
proof (induction fuel arbitrary: lo p w)
  case (Suc fuel)
  let ?d = "\<lparr>DN = [], Attrs = []\<rparr>"
  obtain r p1 w1 where r: "run c op ?d (range_page op dn attr lo) p w = Some (r, p1, w1)"
    and sl: "sem p1 < Size p1" by (rule run_returns [OF Suc.prems(2)])
  note pg = run_page [OF r Suc.prems(1) assms(3)]
  show ?case
  proof (cases r)
    case (Inl e)
    with r pg show ?thesis by (simp add: prog_simps)
  next
    case (Inr e)
    with pg have e: "e = \<lparr>DN = dn, Attrs = page_of attr vals limit lo\<rparr>" by simp
    note step = r [unfolded Inr e]
    from assms(1) Suc.prems(3) assms(2) show ?thesis
    proof (cases rule: page_of_cases [where limit = limit])
      case all
      with Suc.prems(5) have "lo = 0" by auto
      with all step show ?thesis by (simp add: prog_simps findRangedAttr_def)
    next
      case final
      with step show ?thesis by (simp add: prog_simps find_page(1) Let_def)
    next
      case (more n)
      have v: "slice lo (lo + n) vals \<noteq> []" "length (slice lo (lo + n) vals) = n"
        "take lo vals @ slice lo (lo + n) vals = take (lo + n) vals"
        using more(1,2) by (auto simp: slice_def take_add)
      have "\<not> (limit \<le> 0 \<or> int (length vals) \<le> limit)"
      proof
        assume "limit \<le> 0 \<or> int (length vals) \<le> limit"
        then have "page_of attr vals limit lo = [(attr, vals)]"
          using baseAttr_want [OF assms(1)] by (auto simp: page_of_def rangePages_def)
        with more(3) show False by (simp add: more_key_def)
      qed
      then have IH: "\<exists>r p' w'. ranged_loop fuel c op dn attr (lo + n) (take (lo + n) vals) p1 w1 = Some (r, p', w') \<and>
          (case r of Inr out \<Rightarrow> out = vals | Inl e \<Rightarrow> no_conn (exec c) op e)"
        using Suc.IH [OF pg [THEN conjunct1] sl, of "lo + n"] Suc.prems(4) more by simp
      have "lo + n - 1 < 2 ^ 63" using more(2) assms(2) by simp
      note fp = find_page(2) [OF this]
      show ?thesis
        using IH step more(3) v fp by (simp add: prog_simps Let_def)
    qed
  qed
qed simp

section \<open>Properties\<close>

text \<open>
  C14. A paged attribute is read completely: against a directory that hands the values out in pages of
  any size, the last page full or not, \<open>rangedValues\<close> ends within one page more than there are
  values and returns exactly the values, in order, unless no connection could be had.
\<close>

theorem rangedValues_complete:
  assumes "plain_attr attr" "length vals < 2 ^ 63" "1 \<le> maxAttempts (exec c)"
    and "pool_of (paging_server dn attr vals limit) (poolOpts (exec c)) p" "sem p < Size p"
    and "length vals < fuel"
  shows "\<exists>r p' w'. rangedValues fuel c op dn attr p w = Some (r, p', w') \<and>
    (case r of Inr out \<Rightarrow> out = vals | Inl e \<Rightarrow> no_conn (exec c) op e)"
  using ranged_loop_complete [OF assms(1-5), of 0 fuel op w] assms(6)
  by (simp add: rangedValues_def)


definition page_conn :: "string \<Rightarrow> bytes list \<Rightarrow> int \<Rightarrow> unit conn" where
  "page_conn attr vals limit = fixed_conn []
     \<lparr>cSearch := \<lambda>req w. (Inr \<lparr>Entries = [\<lparr>DN = BaseDN req,
        Attrs = (case rangePages [(attr, vals)] (Attributes req) limit of Inr a \<Rightarrow> a | Inl _ \<Rightarrow> [])\<rparr>],
        RespControls = []\<rparr>, w)\<rparr>"

lemma paging_server_page_conn: "paging_server dn attr vals limit (page_conn attr vals limit)"
  by (simp add: paging_server_def page_conn_def page_of_def range_request_def)

theorem rangedValues_complete_witness:
  "\<exists>r p' w'. rangedValues 4 (client_of (page_conn ''member'' [[1], [2], [3]] 2)) ''op'' ''CN=g'' ''member''
       (NewPool 1) () = Some (r, p', w') \<and>
     (case r of Inr out \<Rightarrow> out = [[1], [2], [3]]
      | Inl e \<Rightarrow> no_conn (exec (client_of (page_conn ''member'' [[1], [2], [3]] 2))) ''op'' e)"
proof -
  have "plain_attr ''member''"
    by (simp add: plain_attr_def ToLower_def lower_char_def is_upper_def)
  moreover have "pool_of (paging_server ''CN=g'' ''member'' [[1], [2], [3]] 2)
      (poolOpts (exec (client_of (page_conn ''member'' [[1], [2], [3]] 2)))) (NewPool 1)"
    by (rule pool_of_client) (rule paging_server_page_conn)
  moreover have "sem (NewPool 1 :: unit conn pool) < Size (NewPool 1 :: unit conn pool)" by (simp add: NewPool_def)
  ultimately show ?thesis by (intro rangedValues_complete) simp_all
qed

end
