(* ===== verification/Memory.thy ===== *)
theory Memory
  imports Matcher Ranged
begin

text \<open>
  Package \<open>internal/adtest\<close>, file \<open>memory.go\<close>: the in-memory directory behind a \<open>conn.Conn\<close>.

  The directory is a map from DNs to attribute maps; the order of the association lists is the order
  in which \<open>range\<close> visits them.  The mutex makes each operation one step.  \<open>ModifyDN\<close> changes the map
  while it ranges over it; the model visits the keys the map has when the loop starts and skips those
  that are gone when their turn comes, which is one of the orders Go allows.
\<close>

record mem_server =
  entries :: "(string \<times> attr_map) list"
  seq :: u32
  rangeLimit :: int

definition DNC :: string where "DNC = ''DC=corp,DC=local''"

definition Seed :: "string \<Rightarrow> attr_map \<Rightarrow> mem_server \<Rightarrow> mem_server" where
  "Seed dn attrs m = m\<lparr>entries := map_put dn attrs (entries m)\<rparr>"

definition StartMemory :: mem_server where
  "StartMemory =
     Seed DNC
       [(''objectClass'', [bytes_of ''top'', bytes_of ''domainDNS'']),
        (''distinguishedName'', [bytes_of DNC]),
        (''objectSid'', [DomainSID])]
       \<lparr>entries = [], seq = 0, rangeLimit = 0\<rparr>"

definition RangeLimit :: "int \<Rightarrow> mem_server \<Rightarrow> mem_server" where
  "RangeLimit n m = m\<lparr>rangeLimit := n\<rparr>"

definition nextGUID :: "mem_server \<Rightarrow> bytes \<times> mem_server" where
  "nextGUID m = (let s = seq m + 1 in (le32 s @ replicate 12 0, m\<lparr>seq := s\<rparr>))"

definition raw :: "u16 \<Rightarrow> string \<Rightarrow> go_error" where
  "raw code diagnostic = ErrRaw code diagnostic None"

definition diagNoObject :: string where
  "diagNoObject = ''0000208D: NameErr: DSID-03100238, problem 2001 (NO_OBJECT), data 0''"
definition diagEntryExists :: string where
  "diagEntryExists = ''00002071: UpdErr: DSID-030F1173, problem 6005 (ENTRY_EXISTS), data 0''"
definition diagNotOnNonLeaf :: string where
  "diagNotOnNonLeaf = ''00002015: UpdErr: DSID-030F1219, problem 6003 (NOT_ALLOWED_ON_NON_LEAF), data 0''"
definition diagSizeLimitHint :: string where
  "diagSizeLimitHint = ''00000004: SizeLimit exceeded''"

section \<open>Reading\<close>

definition existsLocked :: "mem_server \<Rightarrow> string \<Rightarrow> bool" where
  "existsLocked m dn = list_ex (\<lambda>e. equalFoldDN (fst e) dn) (entries m)"

definition keyLocked :: "mem_server \<Rightarrow> string \<Rightarrow> string" where
  "keyLocked m dn = (case find (\<lambda>e. equalFoldDN (fst e) dn) (entries m) of Some e \<Rightarrow> fst e | None \<Rightarrow> [])"

definition project :: "attr_map \<Rightarrow> string list \<Rightarrow> attr_map" where
  "project attrs want =
     filter (\<lambda>kv. want = [] \<or> list_ex (\<lambda>w. w = ''*'' \<or> EqualFold (baseAttr w) (fst kv)) want) attrs"

fun inScopeMem :: "string \<Rightarrow> string \<Rightarrow> scope \<Rightarrow> bool" where
  "inScopeMem dn base ScopeBase = equalFoldDN dn base"
| "inScopeMem dn base ScopeOneLevel = isChildOf dn base"
| "inScopeMem dn base ScopeSubtree = isUnder dn base"

definition hasControl :: "control list \<Rightarrow> string \<Rightarrow> bool" where
  "hasControl controls oid = list_ex (\<lambda>c. OID c = oid) controls"

definition isTombstone :: "attr_map \<Rightarrow> bool" where
  "isTombstone attrs =
     (case lookupFold attrs ''isDeleted'' of
        Some (v # _) \<Rightarrow> EqualFold (str_of v) ''TRUE''
      | _ \<Rightarrow> False)"

definition root_dse :: entry where
  "root_dse =
     \<lparr>DN = [],
      Attrs = [(''defaultNamingContext'', [bytes_of DNC]),
               (''dnsHostName'', [bytes_of ''dc01.corp.local'']),
               (''schemaNamingContext'', [bytes_of (''CN=Schema,CN=Configuration,'' @ DNC)]),
               (''configurationNamingContext'', [bytes_of (''CN=Configuration,'' @ DNC)])]\<rparr>"

text \<open>The loop over the entries.\<close>

fun mem_hits :: "search_request \<Rightarrow> int \<Rightarrow> (string \<times> attr_map) list \<Rightarrow> entry list res" where
  "mem_hits req limit [] = Inr []"
| "mem_hits req limit ((dn, attrs) # es) =
     (if \<not> inScopeMem dn (BaseDN req) (Scope req) then mem_hits req limit es
      else if isTombstone attrs \<and> \<not> hasControl (Controls req) ControlShowDeleted then mem_hits req limit es
      else bind_res (matchFilter (Filter req) attrs) (\<lambda>b.
        if \<not> b then mem_hits req limit es
        else bind_res (rangePages (project attrs (Attributes req)) (Attributes req) limit) (\<lambda>page.
          bind_res (mem_hits req limit es) (\<lambda>out. Inr (\<lparr>DN = dn, Attrs = page\<rparr> # out)))))"

definition mem_Search :: "search_request \<Rightarrow> mem_server \<Rightarrow> search_result res \<times> mem_server" where
  "mem_Search req m =
     (if BaseDN req = [] \<and> Scope req = ScopeBase
      then (Inr \<lparr>Entries = [root_dse], RespControls = []\<rparr>, m)
      else case mem_hits req (rangeLimit m) (entries m) of
          Inl e \<Rightarrow> (Inl e, m)
        | Inr out \<Rightarrow>
            if out = [] \<and> Scope req = ScopeBase \<and> \<not> existsLocked m (BaseDN req)
            then (Inl (raw 32 diagNoObject), m)
            else if 0 < SizeLimit req \<and> SizeLimit req < int (length out)
            then (Inl (raw 4 diagSizeLimitHint), m)
            else (Inr \<lparr>Entries = out, RespControls = []\<rparr>, m))"

section \<open>Writing\<close>

text \<open>\<open>strings.ReplaceAll(s, "\\", "")\<close> removes the character.\<close>

definition rdnValue :: "'id adcore \<Rightarrow> string \<Rightarrow> string" where
  "rdnValue a dn =
     (case SplitDN a dn of
        Inr (part # _) \<Rightarrow>
          (case Index part ''='' of
             None \<Rightarrow> []
           | Some i \<Rightarrow> remove_char CHR 0x5C (drop (i + 1) part))
      | _ \<Rightarrow> [])"

definition emptyDescriptor :: bytes where
  "emptyDescriptor =
     put_at 16 (le32 20) (put_at 2 (le16 (0x8000 OR 0x4)) ((replicate 20 0)[0 := 1])) @
     put_at 4 (le16 0) (put_at 2 (le16 8) ((replicate 8 0)[0 := 2]))"

definition mem_Add :: "'id adcore \<Rightarrow> string \<Rightarrow> attribute list \<Rightarrow> mem_server \<Rightarrow> go_error option \<times> mem_server" where
  "mem_Add a dn add m =
     (if existsLocked m dn then (Some (raw 68 diagEntryExists), m)
      else
        let attrs = fold (\<lambda>x. map_put (aType x) (aVals x)) add [];
            (guid, m) = nextGUID m;
            attrs = map_put ''objectGUID'' [guid] attrs;
            attrs = map_put ''nTSecurityDescriptor'' [emptyDescriptor] attrs;
            attrs = map_put ''distinguishedName'' [bytes_of dn] attrs;
            attrs = map_put ''name'' [bytes_of (rdnValue a dn)] attrs;
            attrs = stampSID attrs (1000 + seq m)
        in (None, m\<lparr>entries := map_put dn attrs (entries m)\<rparr>))"

definition attrKey :: "attr_map \<Rightarrow> string \<Rightarrow> string" where
  "attrKey attrs name = (case find (\<lambda>kv. EqualFold (fst kv) name) attrs of Some kv \<Rightarrow> fst kv | None \<Rightarrow> name)"

definition without :: "bytes list \<Rightarrow> bytes list \<Rightarrow> bytes list" where
  "without have_vals gone =
     filter (\<lambda>h. \<not> list_ex (\<lambda>d. EqualFold (str_of h) (str_of d)) gone) have_vals"

text \<open>One modification of one entry's attributes.\<close>

definition apply_mod :: "modification \<Rightarrow> attr_map \<Rightarrow> attr_map" where
  "apply_mod md attrs =
     (let name = attrKey attrs (mType md) in
      case mOp md of
        ModAdd \<Rightarrow> map_put name (map_get attrs name @ mVals md) attrs
      | ModDelete \<Rightarrow>
          if mVals md = [] then map_delete name attrs
          else map_put name (without (map_get attrs name) (mVals md)) attrs
      | ModReplace \<Rightarrow>
          if mVals md = [] then map_delete name attrs else map_put name (mVals md) attrs)"

definition mem_Modify ::
  "string \<Rightarrow> modification list \<Rightarrow> control list \<Rightarrow> mem_server \<Rightarrow> go_error option \<times> mem_server" where
  "mem_Modify dn mods controls m =
     (let key = keyLocked m dn in
      if key = [] then (Some (raw 32 diagNoObject), m)
      else (None, m\<lparr>entries := map_put key (fold apply_mod mods (map_get (entries m) key)) (entries m)\<rparr>))"

text \<open>The reparenting loop; a DN shorter than the key it is under makes the slice expression panic.\<close>

fun reparent :: "string \<Rightarrow> string \<Rightarrow> string list \<Rightarrow> (string \<times> attr_map) list \<Rightarrow>
     go_error option \<times> (string \<times> attr_map) list" where
  "reparent key target [] es = (None, es)"
| "reparent key target (childDN # dns) es =
     (case map_of es childDN of
        None \<Rightarrow> reparent key target dns es
      | Some childAttrs \<Rightarrow>
          if childDN = target \<or> \<not> isUnder childDN key then reparent key target dns es
          else if length childDN < length key then (Some (GoPanic ''slice bounds out of range''), es)
          else let moved = take (length childDN - length key) childDN @ target in
            reparent key target dns
              (map_put moved (map_put ''distinguishedName'' [bytes_of moved] childAttrs) (map_delete childDN es)))"

definition mem_ModifyDN ::
  "'id adcore \<Rightarrow> string \<Rightarrow> string \<Rightarrow> bool \<Rightarrow> string \<Rightarrow> mem_server \<Rightarrow> go_error option \<times> mem_server" where
  "mem_ModifyDN a dn newRDN deleteOldRDN newSuperior m =
     (let key = keyLocked m dn in
      if key = [] then (Some (raw 32 diagNoObject), m)
      else case (if newSuperior = [] then ContainerOf a key else Inr newSuperior) of
          Inl _ \<Rightarrow> (Some (raw 34 ''00000034: invalid DN syntax''), m)
        | Inr parent \<Rightarrow>
            let target = newRDN @ '','' @ parent in
            if \<not> equalFoldDN target key \<and> existsLocked m target then (Some (raw 68 diagEntryExists), m)
            else
              let attrs = map_put ''name'' [bytes_of (rdnValue a target)]
                            (map_put ''distinguishedName'' [bytes_of target] (map_get (entries m) key));
                  es = map_put target attrs (map_delete key (entries m));
                  (err, es) = reparent key target (map fst es) es
              in (err, m\<lparr>entries := es\<rparr>))"

definition mem_Delete :: "string \<Rightarrow> mem_server \<Rightarrow> go_error option \<times> mem_server" where
  "mem_Delete dn m =
     (let key = keyLocked m dn in
      if key = [] then (Some (raw 32 diagNoObject), m)
      else if list_ex (\<lambda>e. fst e \<noteq> key \<and> isUnder (fst e) key) (entries m)
      then (Some (raw 66 diagNotOnNonLeaf), m)
      else (None, m\<lparr>entries := map_delete key (entries m)\<rparr>))"

definition memConn :: "'id adcore \<Rightarrow> mem_server conn" where
  "memConn a =
     \<lparr>cSearch = mem_Search, cAdd = mem_Add a, cModify = mem_Modify, cModifyDN = mem_ModifyDN a,
      cDelete = mem_Delete, cClose = (\<lambda>m. (None, m)), cLdap = None\<rparr>"

lemma memConn_simps [simp]:
  "cSearch (memConn a) = mem_Search" "cAdd (memConn a) = mem_Add a" "cModify (memConn a) = mem_Modify"
  "cModifyDN (memConn a) = mem_ModifyDN a" "cDelete (memConn a) = mem_Delete"
  "cClose (memConn a) m = (None, m)"
  by (simp_all add: memConn_def)

section \<open>Names and entries\<close>

lemma matchFilter_present:
  "matchFilter ''(objectClass=*)'' attrs =
     Inr (case lookupFold attrs ''objectClass'' of None \<Rightarrow> False | Some vals \<Rightarrow> vals \<noteq> [])"
proof -
  have t: "TrimSpace ''(objectClass=*)'' = ''(objectClass=*)''"
    by (rule TrimSpace_id) (simp_all add: is_space_def)
  show ?thesis
    by (subst matchFilter.simps)
       (simp add: t Let_def HasPrefix_def HasSuffix_def slice_def match_assertion_def Index.simps split: option.split)
qed

lemma mem_hits_append:
  "\<forall>e \<in> set xs. \<not> inScopeMem (fst e) (BaseDN req) (Scope req) \<Longrightarrow>
     mem_hits req limit (xs @ es) = mem_hits req limit es"
  by (induction xs) auto

lemma mem_hits_none:
  "\<forall>e \<in> set es. \<not> inScopeMem (fst e) (BaseDN req) (Scope req) \<Longrightarrow> mem_hits req limit es = Inr []"
  using mem_hits_append [of es req limit "[]"] by simp

definition mem_ok :: "mem_server \<Rightarrow> bool" where
  "mem_ok m \<longleftrightarrow> distinct (map (\<lambda>e. ToLower (normalizeDN (fst e))) (entries m)) \<and>
     (\<forall>(dn, attrs) \<in> set (entries m). dn \<noteq> [] \<and> distinct (map (\<lambda>kv. ToLower (fst kv)) attrs))"

text \<open>The entry a DN names.\<close>

definition entry_of :: "mem_server \<Rightarrow> string \<Rightarrow> (string \<times> attr_map) option" where
  "entry_of m dn = find (\<lambda>e. equalFoldDN (fst e) dn) (entries m)"

lemma mem_ok_eq:
  assumes "mem_ok m" "x \<in> set (entries m)" "y \<in> set (entries m)" "equalFoldDN (fst x) dn" "equalFoldDN (fst y) dn"
  shows "x = y"
proof -
  have "inj_on (\<lambda>e. ToLower (normalizeDN (fst e))) (set (entries m))"
    using assms(1) unfolding mem_ok_def distinct_map by blast
  then show ?thesis
    using assms(2-5) unfolding equalFoldDN_def EqualFold_def inj_on_def by metis
qed

lemma entry_of_unique:
  assumes "mem_ok m" "(k, attrs) \<in> set (entries m)" "equalFoldDN k dn"
  shows "entry_of m dn = Some (k, attrs)"
  unfolding entry_of_def
proof (rule find_unique)
  show "y = (k, attrs)" if "y \<in> set (entries m)" "equalFoldDN (fst y) dn" for y
    using mem_ok_eq [OF assms(1) that(1) assms(2) that(2)] assms(3) by simp
qed (use assms in simp_all)

lemma entry_of_Some: "entry_of m dn = Some (k, attrs) \<Longrightarrow> (k, attrs) \<in> set (entries m) \<and> equalFoldDN k dn"
  unfolding entry_of_def find_Some_iff by (metis fst_conv nth_mem)

text \<open>A base search sees the entry its DN names, and no other.\<close>

lemma mem_hits_base:
  assumes "mem_ok m" "entry_of m (BaseDN req) = Some (k, attrs)" "Scope req = ScopeBase"
  shows "mem_hits req limit (entries m) = mem_hits req limit [(k, attrs)]"
proof -
  from entry_of_Some [OF assms(2)] have e: "(k, attrs) \<in> set (entries m)" "equalFoldDN k (BaseDN req)" by simp_all
  then obtain xs ys where s: "entries m = xs @ (k, attrs) # ys" by (meson split_list)
  have d: "distinct (entries m)" using assms(1) unfolding mem_ok_def distinct_map by blast
  have out: "\<not> equalFoldDN (fst x) (BaseDN req)" if "x \<in> set xs \<or> x \<in> set ys" for x
  proof
    assume "equalFoldDN (fst x) (BaseDN req)"
    moreover have "x \<in> set (entries m)" using that s by auto
    ultimately have "x = (k, attrs)" using mem_ok_eq [OF assms(1) _ e(1)] e(2) by fastforce
    with that d s show False by auto
  qed
  have "mem_hits req limit ys = Inr []" by (rule mem_hits_none) (use out assms(3) in auto)
  moreover have "mem_hits req limit (entries m) = mem_hits req limit ((k, attrs) # ys)"
    unfolding s by (rule mem_hits_append) (use out assms(3) in auto)
  ultimately show ?thesis by (simp only: mem_hits.simps)
qed


section \<open>Attribute maps\<close>

definition attrs_ok :: "attr_map \<Rightarrow> bool" where
  "attrs_ok attrs \<longleftrightarrow> distinct (map (\<lambda>kv. ToLower (fst kv)) attrs)"

lemma attrs_ok_put:
  assumes "attrs_ok attrs" "\<forall>kv \<in> set attrs. EqualFold (fst kv) k \<longrightarrow> fst kv = k"
  shows "attrs_ok (map_put k v attrs)"
proof -
  have "ToLower k \<notin> (\<lambda>kv. ToLower (fst kv)) ` {kv \<in> set attrs. fst kv \<noteq> k}"
    using assms(2) by (auto simp: EqualFold_def)
  then show ?thesis
    using assms(1) by (auto simp: attrs_ok_def map_put_def distinct_map intro: inj_on_subset)
qed

lemma attrKey_fold:
  assumes "attrs_ok attrs"
  shows "EqualFold (attrKey attrs name) name"
    "\<forall>kv \<in> set attrs. EqualFold (fst kv) name \<longrightarrow> fst kv = attrKey attrs name"
proof -
  have inj: "inj_on (\<lambda>kv. ToLower (fst kv)) (set attrs)" using assms by (simp add: attrs_ok_def distinct_map)
  show "EqualFold (attrKey attrs name) name"
    unfolding attrKey_def by (cases "find (\<lambda>kv. EqualFold (fst kv) name) attrs") (auto dest: find_SomeD simp: EqualFold_def)
  show "\<forall>kv \<in> set attrs. EqualFold (fst kv) name \<longrightarrow> fst kv = attrKey attrs name"
  proof (intro ballI impI)
    fix kv assume kv: "kv \<in> set attrs" "EqualFold (fst kv) name"
    have "find (\<lambda>kv. EqualFold (fst kv) name) attrs = Some kv"
    proof (rule find_unique [where P = "\<lambda>kv. EqualFold (fst kv) name"])
      show "y = kv" if "y \<in> set attrs" "EqualFold (fst y) name" for y
        using inj_onD [OF inj, of y kv] that kv by (simp add: EqualFold_def)
    qed (use kv in simp_all)
    then show "fst kv = attrKey attrs name" by (simp add: attrKey_def)
  qed
qed

lemma lookupFold_Some:
  assumes "attrs_ok attrs" "(k, v) \<in> set attrs" "EqualFold k name"
  shows "lookupFold attrs name = Some v"
proof -
  have inj: "inj_on (\<lambda>kv. ToLower (fst kv)) (set attrs)" using assms(1) by (simp add: attrs_ok_def distinct_map)
  have "find (\<lambda>kv. EqualFold (fst kv) name) attrs = Some (k, v)"
  proof (rule find_unique [where P = "\<lambda>kv. EqualFold (fst kv) name"])
    show "y = (k, v)" if "y \<in> set attrs" "EqualFold (fst y) name" for y
      using inj_onD [OF inj, of y "(k, v)"] that assms(2,3) by (simp add: EqualFold_def)
  qed (use assms in simp_all)
  then show ?thesis by (simp add: lookupFold_def)
qed

lemma lookupFold_SomeD: "lookupFold attrs name = Some v \<Longrightarrow> \<exists>k. (k, v) \<in> set attrs \<and> EqualFold k name"
  unfolding lookupFold_def map_option_eq_Some find_Some_iff by (metis nth_mem prod.collapse)

lemma lookupFold_None: "lookupFold attrs name = None \<longleftrightarrow> (\<forall>kv \<in> set attrs. \<not> EqualFold (fst kv) name)"
  by (auto simp: lookupFold_def find_None_iff)


text \<open>A replace puts its values where every spelling of the name reads them and touches no other.\<close>

lemma apply_replace:
  assumes "attrs_ok attrs" "vs \<noteq> []"
    and attrs': "attrs' = apply_mod \<lparr>mOp = ModReplace, mType = name, mVals = vs\<rparr> attrs"
  shows "attrs_ok attrs'"
    "lookupFold attrs' name' = (if EqualFold name' name then Some vs else lookupFold attrs name')"
proof -
  let ?k = "attrKey attrs name"
  note k = attrKey_fold [OF assms(1), of name]
  have a: "attrs' = map_put ?k vs attrs" using assms(2) by (simp add: attrs' apply_mod_def Let_def)
  show ok: "attrs_ok attrs'"
    unfolding a using attrs_ok_put [OF assms(1)] k EqualFold_trans [OF k(1)] by (metis EqualFold_def)
  show "lookupFold attrs' name' = (if EqualFold name' name then Some vs else lookupFold attrs name')"
  proof (cases "EqualFold name' name")
    case True
    with k(1) have "EqualFold ?k name'" by (simp add: EqualFold_def)
    with lookupFold_Some [OF ok, of ?k vs name'] True show ?thesis by (simp add: a map_put_def)
  next
    case False
    then have n: "\<not> EqualFold ?k name'" using k(1) by (simp add: EqualFold_def)
    show ?thesis
    proof (cases "lookupFold attrs name'")
      case None
      with n have "lookupFold attrs' name' = None" by (auto simp: lookupFold_None a map_put_def)
      with None False show ?thesis by simp
    next
      case (Some v)
      then obtain k' where k': "(k', v) \<in> set attrs" "EqualFold k' name'" using lookupFold_SomeD by blast
      with n have "k' \<noteq> ?k" by auto
      with k' have "(k', v) \<in> set attrs'" by (simp add: a map_put_def)
      from lookupFold_Some [OF ok this k'(2)] Some False show ?thesis by simp
    qed
  qed
qed

section \<open>Replacing the attributes of an entry\<close>

lemma mem_ok_put:
  assumes "mem_ok m" "(k, attrs) \<in> set (entries m)" "attrs_ok attrs'"
    and m': "m' = m\<lparr>entries := map_put k attrs' (entries m)\<rparr>"
  shows "mem_ok m'" "entry_of m' dn = (if equalFoldDN k dn then Some (k, attrs') else entry_of m dn)"
proof -
  let ?f = "\<lambda>e :: string \<times> attr_map. ToLower (normalizeDN (fst e))"
  have inj: "inj_on ?f (set (entries m))" using assms(1) unfolding mem_ok_def distinct_map by blast
  have "?f (k, attrs') \<notin> ?f ` {e \<in> set (entries m). fst e \<noteq> k}"
  proof
    assume "?f (k, attrs') \<in> ?f ` {e \<in> set (entries m). fst e \<noteq> k}"
    then obtain e where e: "e \<in> set (entries m)" "fst e \<noteq> k" "?f e = ?f (k, attrs)" by auto
    with inj_onD [OF inj e(3) e(1) assms(2)] show False by simp
  qed
  moreover have "k \<noteq> []" using assms(1,2) by (auto simp: mem_ok_def)
  ultimately show ok: "mem_ok m'"
    using assms(1,3) by (auto simp: mem_ok_def m' map_put_def distinct_map attrs_ok_def intro: inj_on_subset)
  show "entry_of m' dn = (if equalFoldDN k dn then Some (k, attrs') else entry_of m dn)"
  proof (cases "equalFoldDN k dn")
    case True
    with entry_of_unique [OF ok, of k attrs' dn] show ?thesis by (simp add: m' map_put_def)
  next
    case False
    show ?thesis
    proof (cases "entry_of m dn")
      case None
      with False have "entry_of m' dn = None" by (auto simp: entry_of_def find_None_iff m' map_put_def)
      with None False show ?thesis by simp
    next
      case (Some e)
      then obtain k1 a1 where e: "e = (k1, a1)" "(k1, a1) \<in> set (entries m)" "equalFoldDN k1 dn"
        by (metis entry_of_Some prod.collapse)
      with False have "k1 \<noteq> k" by auto
      with e have "(k1, a1) \<in> set (entries m')" by (simp add: m' map_put_def)
      from entry_of_unique [OF ok this e(3)] False Some e(1) show ?thesis by simp
    qed
  qed
qed

lemma mem_Modify_entry:
  assumes "mem_ok m" "entry_of m dn = Some (k, attrs)"
  shows "mem_Modify dn mods controls m = (None, m\<lparr>entries := map_put k (fold apply_mod mods attrs) (entries m)\<rparr>)"
proof -
  from entry_of_Some [OF assms(2)] have k: "(k, attrs) \<in> set (entries m)" by simp
  have "keyLocked m dn = k" using assms(2) by (simp add: keyLocked_def entry_of_def)
  moreover have "k \<noteq> []" using assms(1) k by (auto simp: mem_ok_def)
  moreover have "distinct (map fst (entries m))" using assms(1) by (auto simp: mem_ok_def distinct_map inj_on_def)
  then have "map_get (entries m) k = attrs" using k by (simp add: map_get_def)
  ultimately show ?thesis by (simp add: mem_Modify_def Let_def)
qed

end
