(* ===== verification/Tombstone.thy ===== *)
theory Tombstone
  imports Search
begin

text \<open>
  The root package, file \<open>tombstone.go\<close>: naming the object, live or deleted, that an already-exists
  error collided with.
\<close>

record deletedMatch =
  dmDN :: string
  dmLastKnownParent :: string

definition deleted_request :: "('w, 'id) core \<Rightarrow> string \<Rightarrow> search_request" where
  "deleted_request c flt =
     \<lparr>BaseDN = dnc c, Scope = ScopeSubtree, Filter = flt,
      Attributes = [''distinguishedName'', ''lastKnownParent''], SizeLimit = 16,
      Controls = [\<lparr>OID = ControlShowDeleted, Critical = True, Value = []\<rparr>]\<rparr>"

definition probeDeleted :: "('w, 'id) core \<Rightarrow> string \<Rightarrow> ('w, deletedMatch list) prog" where
  "probeDeleted c flt =
     andThen (run c ''deleted_probe'' [] (search_entries (deleted_request c flt))) (\<lambda>entries.
       ret (map (\<lambda>e. \<lparr>dmDN = DN e, dmLastKnownParent = FirstString e ''lastKnownParent''\<rparr>) entries))"

fun set_target :: "string \<Rightarrow> bool \<Rightarrow> ad_error \<Rightarrow> ad_error" where
  "set_target t tomb (AdError k op i _ c m _ x) = AdError k op i t c m tomb x"

text \<open>The error it returns is the value; it never fails itself.\<close>

definition annotateAlreadyExists ::
  "('w, 'id) core \<Rightarrow> go_error \<Rightarrow> string \<Rightarrow> string \<Rightarrow> ('w, go_error) prog" where
  "annotateAlreadyExists c err dn flt =
     (case as_ad err of
        None \<Rightarrow> ret err
      | Some e \<Rightarrow>
          if Kind e \<noteq> KindAlreadyExists then ret err
          else let e = (if Target e = [] then set_target dn (Tombstoned e) e else e) in
            handle (probeDeleted c flt) (\<lambda>r.
              case r of
                Inr (m # _) \<Rightarrow> ret (ErrAd (set_target (dmDN m) True e))
              | _ \<Rightarrow> ret (ErrAd e)))"

definition deletedFilter :: "'id adcore \<Rightarrow> string \<Rightarrow> string \<Rightarrow> string \<Rightarrow> string" where
  "deletedFilter a objectClass name container =
     ''(&(isDeleted=TRUE)'' @ Equal a ''objectClass'' objectClass @ Equal a ''lastKnownParent'' container @
     ''(name='' @ EscapeFilter a name @ ''*))''"

lemma set_target_simps [simp]:
  "Kind (set_target t b e) = Kind e" "Op (set_target t b e) = Op e" "Code (set_target t b e) = Code e"
  "ServerMessage (set_target t b e) = ServerMessage e" "Err (set_target t b e) = Err e"
  "Target (set_target t b e) = t" "Tombstoned (set_target t b e) = b" "Identity (set_target t b e) = Identity e"
  by (cases e; simp)+

text \<open>
  C34. Annotating an already-exists error never replaces it: whatever the probe of the deleted objects
  does, the kind, operation, code, message and cause are those of the original error; the target is
  the one it had, or else the DN of the failed create, unless the probe found a deleted object,
  which is then named and marked.
\<close>

theorem annotateAlreadyExists_keeps:
  assumes "annotateAlreadyExists c err dn flt p w = Some (r, p', w')" "as_ad err = Some e"
  shows "\<exists>err' e'. r = Inr err' \<and> as_ad err' = Some e' \<and> Kind e' = Kind e \<and> Op e' = Op e \<and>
    Code e' = Code e \<and> ServerMessage e' = ServerMessage e \<and> Err e' = Err e \<and>
    (Kind e = KindAlreadyExists \<longrightarrow>
       (Tombstoned e' = Tombstoned e \<and> Target e' = (if Target e = [] then dn else Target e)) \<or>
       (Tombstoned e' \<and> (\<exists>ms p1 w1. probeDeleted c flt p w = Some (Inr ms, p1, w1) \<and> ms \<noteq> [] \<and>
          Target e' = dmDN (hd ms))))"
proof (cases "Kind e = KindAlreadyExists")
  case False
  with assms show ?thesis by (auto simp: annotateAlreadyExists_def prog_simps)
next
  case True
  with assms obtain q p1 w1 where q: "probeDeleted c flt p w = Some (q, p1, w1)"
    by (auto simp: annotateAlreadyExists_def prog_simps Let_def split: option.split_asm)
  show ?thesis
  proof (cases "\<exists>m ms. q = Inr (m # ms)")
    case True
    then obtain m ms where "q = Inr (m # ms)" by blast
    with q assms \<open>Kind e = KindAlreadyExists\<close> show ?thesis
      by (auto simp: annotateAlreadyExists_def prog_simps Let_def)
  next
    case False
    then have "q = Inr [] \<or> (\<exists>x. q = Inl x)" by (cases q) (auto simp: neq_Nil_conv, metis neq_Nil_conv)
    with q assms \<open>Kind e = KindAlreadyExists\<close> show ?thesis
      by (auto simp: annotateAlreadyExists_def prog_simps Let_def)
  qed
qed

theorem annotateAlreadyExists_keeps_witness:
  "\<exists>r p' w' err' e'. annotateAlreadyExists (client_of (fixed_conn [sample_entry]))
       (ad_err KindAlreadyExists ''OU.Create'' (ErrMsg ''exists'')) ''OU=a,DC=corp'' [] (NewPool 1) () =
       Some (r, p', w') \<and> r = Inr err' \<and> as_ad err' = Some e' \<and> Kind e' = KindAlreadyExists"
proof -
  let ?c = "client_of (fixed_conn [sample_entry])"
  let ?err = "ad_err KindAlreadyExists ''OU.Create'' (ErrMsg ''exists'')"
  have e: "as_ad ?err = Some (AdError KindAlreadyExists ''OU.Create'' [] [] 0 [] False (Some (ErrMsg ''exists'')))"
    by (simp add: ad_err_def)
  have "search_entries (deleted_request ?c []) (fixed_conn [sample_entry]) () = (Inr [sample_entry], ())"
    by (simp add: search_entries_def fixed_conn_def deleted_request_def)
  then have "probeDeleted ?c [] (NewPool 1) () = Some (Inr [\<lparr>dmDN = DN sample_entry,
      dmLastKnownParent = FirstString sample_entry ''lastKnownParent''\<rparr>],
      NewPool 1\<lparr>idle := [fixed_conn [sample_entry]]\<rparr>, ())"
    by (simp add: probeDeleted_def prog_simps run_client_of)
  then obtain r p' w' where run: "annotateAlreadyExists ?c ?err ''OU=a,DC=corp'' [] (NewPool 1) () = Some (r, p', w')"
    by (simp add: annotateAlreadyExists_def e prog_simps Let_def)
  show ?thesis using annotateAlreadyExists_keeps [OF run e] run by auto
qed

end
