(* ===== verification/Replication.thy ===== *)
theory Replication
  imports Search
begin

text \<open>
  The root package, file \<open>replication.go\<close>: after a write, wait until the object is seen on the other
  domain controllers.  The wait ends by the clock; the model bounds the number of polls by fuel and
  \<open>None\<close> is a wait that has not ended.
\<close>

definition defaultReplicationTimeout :: int where "defaultReplicationTimeout = 60 * 1000000000"
definition defaultPollInterval :: int where "defaultPollInterval = 2 * 1000000000"

text \<open>A step of the world outside the pool.\<close>

definition io :: "('w \<Rightarrow> 'a \<times> 'w) \<Rightarrow> ('w, 'a) prog" where
  "io f p w = (case f w of (x, w) \<Rightarrow> Some (Inr x, p, w))"

lemmas [prog_simps] = io_def

definition dclist_request :: "('w, 'id) core \<Rightarrow> search_request" where
  "dclist_request c =
     \<lparr>BaseDN = ''CN=Configuration,'' @ dnc c, Scope = ScopeSubtree, Filter = ''(objectClass=nTDSDSA)'',
      Attributes = [''dNSHostName'', ''distinguishedName''], SizeLimit = 128, Controls = []\<rparr>"

definition replicationTargets :: "('w, 'id) core \<Rightarrow> ('w, string list) prog" where
  "replicationTargets c =
     (if rTargets (repl c) \<noteq> [''all'']
      then ret (filter (\<lambda>t. t \<noteq> server c) (rTargets (repl c)))
      else andThen (run c ''dclist'' [] (search_entries (dclist_request c))) (\<lambda>entries.
        ret (filter (\<lambda>h. h \<noteq> [] \<and> h \<noteq> server c) (map (\<lambda>e. FirstString e ''dNSHostName'') entries))))"

definition present_request :: "('w, 'id) core \<Rightarrow> string \<Rightarrow> search_request" where
  "present_request c flt =
     \<lparr>BaseDN = dnc c, Scope = ScopeSubtree, Filter = flt, Attributes = [''distinguishedName''],
      SizeLimit = 1, Controls = []\<rparr>"

definition objectPresentOn :: "('w, 'id) core \<Rightarrow> string \<Rightarrow> string \<Rightarrow> ('w, bool) prog" where
  "objectPresentOn c host flt =
     andThen (io (dialOther c host)) (\<lambda>d.
     andThen (lift d) (\<lambda>cn.
     andThen (io (cSearch cn (present_request c flt))) (\<lambda>r.
     andThen (io (cClose cn)) (\<lambda>_.
     andThen (lift r) (\<lambda>res. ret (0 < length (Entries res)))))))"

definition forceSync :: "('w, 'id) core \<Rightarrow> string \<Rightarrow> string \<Rightarrow> ('w, unit) prog" where
  "forceSync c guid target =
     run c ''replicate_force'' () (\<lambda>cn w. effect (cModify cn []
       [\<lparr>mOp = ModReplace, mType = ''replicateSingleObject'', mVals = [bytes_of (target @ '':'' @ guid)]\<rparr>] [] w))"

text \<open>One round over the pending targets; the result is those that do not have the object yet.\<close>

fun poll_round :: "('w, 'id) core \<Rightarrow> string \<Rightarrow> string \<Rightarrow> string list \<Rightarrow> ('w, string list) prog" where
  "poll_round c guid flt [] = ret []"
| "poll_round c guid flt (target # pending) =
     handle (if rForceSync (repl c) then forceSync c guid target else ret ()) (\<lambda>_.
     handle (objectPresentOn c target flt) (\<lambda>present.
     andThen (poll_round c guid flt pending) (\<lambda>still.
       ret (if present = Inr True then still else target # still))))"

text \<open>The loop, with the timeout and the deadline it was given.\<close>

definition not_replicated :: "('w, 'id) core \<Rightarrow> string \<Rightarrow> int \<Rightarrow> string list \<Rightarrow> go_error" where
  "not_replicated c guid timeout still =
     ErrAd (AdError KindReplication ''replicate'' (''guid:'' @ guid) [] 0 [] False
       (Some (ErrMsg (''the object did not appear on ['' @ Join '' '' still @ ''] within '' @
          Duration_String timeout @ ''; it exists on '' @ server c))))"

fun replicate_loop ::
  "nat \<Rightarrow> ('w, 'id) core \<Rightarrow> string \<Rightarrow> string \<Rightarrow> int \<Rightarrow> int \<Rightarrow> int \<Rightarrow> string list \<Rightarrow> ('w, unit) prog" where
  "replicate_loop 0 c guid flt poll timeout deadline pending = (\<lambda>p w. None)"
| "replicate_loop (Suc fuel) c guid flt poll timeout deadline pending =
     andThen (poll_round c guid flt pending) (\<lambda>still.
       if still = [] then ret ()
       else andThen (io (clock c)) (\<lambda>now.
         if deadline < now then fail (not_replicated c guid timeout still)
         else andThen (io (sleep c poll)) (\<lambda>ended.
           case ended of
             Some err \<Rightarrow> fail (ad_err KindTransport ''replicate'' err)
           | None \<Rightarrow> replicate_loop fuel c guid flt poll timeout deadline still)))"

definition guid_filter :: "bytes \<Rightarrow> string" where
  "guid_filter b = ''(objectGUID='' @ escapeBinary b @ '')''"

definition replicate_timeout :: "('w, 'id) core \<Rightarrow> int" where
  "replicate_timeout c = (if rTimeout (repl c) \<le> 0 then defaultReplicationTimeout else rTimeout (repl c))"

definition replicate_poll :: "('w, 'id) core \<Rightarrow> int" where
  "replicate_poll c = (if rPollInterval (repl c) \<le> 0 then defaultPollInterval else rPollInterval (repl c))"

definition replicate_wait :: "nat \<Rightarrow> ('w, 'id) core \<Rightarrow> string \<Rightarrow> ('w, unit) prog" where
  "replicate_wait fuel c guid =
     (if \<not> rWait (repl c) then ret ()
      else andThen (replicationTargets c) (\<lambda>targets.
        if targets = [] then ret ()
        else case GUIDToBytes guid of
            Inl err \<Rightarrow> fail (ad_err KindTransport ''replicate'' err)
          | Inr guidBytes \<Rightarrow>
              andThen (io (clock c)) (\<lambda>now.
                replicate_loop fuel c guid (guid_filter guidBytes) (replicate_poll c) (replicate_timeout c)
                  (now + replicate_timeout c) targets)))"

text \<open>A write that returns its model next to the outcome of the wait.\<close>

definition with_wait :: "nat \<Rightarrow> ('w, 'id) core \<Rightarrow> string \<Rightarrow> 'm \<Rightarrow> ('w, 'm \<times> go_error option) prog" where
  "with_wait fuel c guid m =
     handle (replicate_wait fuel c guid) (\<lambda>r. ret (m, (case r of Inl e \<Rightarrow> Some e | Inr _ \<Rightarrow> None)))"

section \<open>What a wait keeps\<close>

text \<open>
  The effects of a wait besides those of the pool: a short-lived connection, the clock, a pause, and on
  a connection a search, a modification, a close.
\<close>

definition wait_steps :: "('w, 'id) core \<Rightarrow> ('w conn \<Rightarrow> bool) \<Rightarrow> ('w \<Rightarrow> 'w) set" where
  "wait_steps c G =
     {f. (\<exists>h. f = (\<lambda>w. snd (dialOther c h w))) \<or> f = (\<lambda>w. snd (clock c w)) \<or>
         (\<exists>d. f = (\<lambda>w. snd (sleep c d w))) \<or>
         (\<exists>cn. G cn \<and> ((\<exists>req. f = (\<lambda>w. snd (cSearch cn req w))) \<or> f = (\<lambda>w. snd (cClose cn w)) \<or>
            (\<exists>dn ms cs. f = (\<lambda>w. snd (cModify cn dn ms cs w)))))}"

text \<open>A property of the world that no step of a wait takes away.\<close>

definition kept :: "('w, 'id) core \<Rightarrow> ('w conn \<Rightarrow> bool) \<Rightarrow> ('w \<Rightarrow> bool) \<Rightarrow> bool" where
  "kept c G J \<longleftrightarrow> io_inv J (exec c) \<and> (\<forall>f \<in> wait_steps c G. \<forall>w. J w \<longrightarrow> J (f w))"

definition others :: "('w, 'id) core \<Rightarrow> ('w conn \<Rightarrow> bool) \<Rightarrow> bool" where
  "others c G \<longleftrightarrow> (\<forall>h w cn w'. dialOther c h w = (Inr cn, w') \<longrightarrow> G cn)"

lemma keptD:
  assumes "kept c G J" "J w"
  shows "J (snd (dialOther c h w))" "J (snd (clock c w))"
    "G cn \<Longrightarrow> J (snd (cSearch cn req w))" "G cn \<Longrightarrow> J (snd (cClose cn w))"
    "G cn \<Longrightarrow> J (snd (cModify cn dn ms cs w))" "J (snd (sleep c d w))"
proof -
  have step: "J (f w)" if "f \<in> wait_steps c G" for f
    using assms that by (simp add: kept_def)
  show "J (snd (dialOther c h w))"
    by (rule step [of "\<lambda>w. snd (dialOther c h w)"]) (unfold wait_steps_def, blast)
  show "J (snd (clock c w))"
    by (rule step [of "\<lambda>w. snd (clock c w)"]) (unfold wait_steps_def, blast)
  show "G cn \<Longrightarrow> J (snd (cSearch cn req w))"
    by (rule step [of "\<lambda>w. snd (cSearch cn req w)"]) (unfold wait_steps_def, blast)
  show "G cn \<Longrightarrow> J (snd (cClose cn w))"
    by (rule step [of "\<lambda>w. snd (cClose cn w)"]) (unfold wait_steps_def, blast)
  show "G cn \<Longrightarrow> J (snd (cModify cn dn ms cs w))"
    by (rule step [of "\<lambda>w. snd (cModify cn dn ms cs w)"]) (unfold wait_steps_def, blast)
  show "J (snd (sleep c d w))"
    by (rule step [of "\<lambda>w. snd (sleep c d w)"]) (unfold wait_steps_def, blast)
qed

lemma kept_and: "kept c G J \<Longrightarrow> kept c G K \<Longrightarrow> kept c G (\<lambda>w. J w \<and> K w)"
  by (simp add: kept_def io_inv_def)

lemma kept_all: "(\<And>h. h \<in> S \<Longrightarrow> kept c G (J h)) \<Longrightarrow> kept c G (\<lambda>w. \<forall>h \<in> S. J h w)"
  by (simp add: kept_def io_inv_def)

lemma triple_io:
  assumes "\<And>w. P w \<Longrightarrow> Q (Inr (fst (f w))) (snd (f w))"
  shows "triple c G P (io f) Q"
  unfolding triple_def
proof (intro allI impI)
  fix p w assume "ready c G p" "P w"
  with assms [of w] show "\<exists>r p' w'. io f p w = Some (r, p', w') \<and> ready c G p' \<and> Q r w'"
    by (cases "f w") (auto simp: io_def)
qed

lemma triple_search_inv:
  assumes "kept c G J"
  shows "triple c G J (run c op d (search_entries req)) (\<lambda>r w. J w)"
proof (rule triple_conseq [OF triple_run_inv [where I = J and Q = "\<lambda>_. True"]])
  show "io_inv J (exec c)" using assms by (simp add: kept_def)
  show "True \<and> J w'" if "G cn" "J w" "search_entries req cn w = (r, w')" for cn w r w'
    using keptD(3) [OF assms that(2,1), of req] that(3)
    by (auto simp: search_entries_def split: prod.split_asm sum.split_asm)
qed simp_all

lemma triple_forceSync:
  assumes "kept c G J"
  shows "triple c G J (forceSync c guid target) (\<lambda>r w. J w)"
  unfolding forceSync_def
proof (rule triple_conseq [OF triple_run_inv [where I = J and Q = "\<lambda>_. True"]])
  show "io_inv J (exec c)" using assms by (simp add: kept_def)
  let ?ms = "[\<lparr>mOp = ModReplace, mType = ''replicateSingleObject'', mVals = [bytes_of (target @ '':'' @ guid)]\<rparr>]"
  show "True \<and> J w'" if "G cn" "J w" "effect (cModify cn [] ?ms [] w) = (r, w')" for cn w r w'
    using keptD(5) [OF assms that(2,1), of "[]" ?ms "[]"] that(3)
    by (auto simp: effect_def split: prod.split_asm option.split_asm)
qed simp_all

text \<open>
  One probe: it keeps \<open>J\<close>, and if \<open>has\<close> is what a hit on the target shows, then a probe that reports
  the object shows it.
\<close>

definition shows_on :: "('w, 'id) core \<Rightarrow> string \<Rightarrow> string \<Rightarrow> ('w \<Rightarrow> bool) \<Rightarrow> bool" where
  "shows_on c host flt has \<longleftrightarrow>
     (\<forall>w cn w1 res w2. dialOther c host w = (Inr cn, w1) \<longrightarrow>
        cSearch cn (present_request c flt) w1 = (Inr res, w2) \<longrightarrow> Entries res \<noteq> [] \<longrightarrow> has w2)"

lemma triple_objectPresentOn:
  assumes J: "kept c G J" "others c G" and has: "kept c G has" "shows_on c host flt has"
  shows "triple c G J (objectPresentOn c host flt) (\<lambda>r w. J w \<and> (r = Inr True \<longrightarrow> has w))"
  unfolding triple_def
proof (intro allI impI)
  fix p w assume p: "ready c G p" and w: "J w"
  obtain d w1 where d: "dialOther c host w = (d, w1)" by (cases "dialOther c host w")
  have w1: "J w1" using keptD(1) [OF J(1) w, of host] d by simp
  show "\<exists>r p' w'. objectPresentOn c host flt p w = Some (r, p', w') \<and> ready c G p' \<and>
          J w' \<and> (r = Inr True \<longrightarrow> has w')"
  proof (cases d)
    case (Inl e)
    with d p w1 show ?thesis by (simp add: objectPresentOn_def prog_simps)
  next
    case (Inr cn)
    have g: "G cn" using J(2) d Inr unfolding others_def by blast
    obtain r w2 where r: "cSearch cn (present_request c flt) w1 = (r, w2)" by (metis surj_pair)
    have w2: "J w2" using keptD(3) [OF J(1) w1 g, of "present_request c flt"] r by simp
    obtain x w3 where x: "cClose cn w2 = (x, w3)" by (cases "cClose cn w2")
    have w3: "J w3" using keptD(4) [OF J(1) w2 g] x by simp
    have "has w3" if "r = Inr res" "Entries res \<noteq> []" for res
    proof -
      have "has w2" using has(2) d r that Inr by (auto simp: shows_on_def)
      from keptD(4) [OF has(1) this g] x show ?thesis by simp
    qed
    with d r x p w3 Inr show ?thesis
      by (cases r) (auto simp: objectPresentOn_def prog_simps)
  qed
qed

lemma triple_poll_round:
  assumes "\<And>h. kept c G (has h)" "\<And>h. shows_on c h flt (has h)" "others c G" "kept c G J"
  shows "triple c G J (poll_round c guid flt pending)
    (\<lambda>r w. J w \<and> (\<exists>still. r = Inr still \<and> set still \<subseteq> set pending \<and> (\<forall>h \<in> set pending - set still. has h w)))"
  using assms(4)
proof (induction pending arbitrary: J)
  case Nil
  show ?case by (auto simp: ret_def triple_def)
next
  case (Cons target pending)
  let ?K = "\<lambda>present w. J w \<and> (present = Inr True \<longrightarrow> has target w)"
  have K: "kept c G (?K present)" for present :: "bool res"
    using kept_and [OF Cons.prems assms(1)] Cons.prems by (cases "present = Inr True") simp_all
  show ?case
    unfolding poll_round.simps
  proof (rule triple_handle [where R = "\<lambda>_. J"])
    show "triple c G J (if rForceSync (repl c) then forceSync c guid target else ret ()) (\<lambda>_. J)"
      using triple_forceSync [OF Cons.prems] by auto
  next
    fix r
    show "triple c G J
      (handle (objectPresentOn c target flt) (\<lambda>present.
         andThen (poll_round c guid flt pending)
           (\<lambda>still. ret (if present = Inr True then still else target # still))))
      (\<lambda>r w. J w \<and> (\<exists>still. r = Inr still \<and> set still \<subseteq> set (target # pending) \<and>
         (\<forall>h \<in> set (target # pending) - set still. has h w)))"
      by (rule triple_handle [OF triple_objectPresentOn [OF Cons.prems assms(3,1,2)]],
          rule triple_andThen [OF Cons.IH [OF K]]) (auto simp: ret_def triple_def)
  qed
qed

text \<open>
  A clock \<open>t\<close> of the world: no step turns it back, \<open>time.Now\<close> reads at least its value and a pause
  that runs to its end moves it on by its length.
\<close>

definition timed :: "('w, 'id) core \<Rightarrow> ('w conn \<Rightarrow> bool) \<Rightarrow> ('w \<Rightarrow> int) \<Rightarrow> bool" where
  "timed c G t \<longleftrightarrow> (\<forall>T. kept c G (\<lambda>w. T \<le> t w)) \<and> (\<forall>w. t w \<le> fst (clock c w)) \<and>
     (\<forall>d w. fst (sleep c d w) = None \<longrightarrow> t w + d \<le> t (snd (sleep c d w)))"

text \<open>What holds between rounds, and one round with what follows it.\<close>

definition waiting :: "('w \<Rightarrow> int) \<Rightarrow> (string \<Rightarrow> 'w \<Rightarrow> bool) \<Rightarrow> string set \<Rightarrow> int \<Rightarrow> string list \<Rightarrow> 'w \<Rightarrow> bool" where
  "waiting t has S T pending w \<longleftrightarrow> T \<le> t w \<and> set pending \<subseteq> S \<and> (\<forall>h \<in> S - set pending. has h w)"

lemma triple_replicate_round:
  assumes t: "timed c G t" and others: "others c G"
    and has: "\<And>h. kept c G (has h)" "\<And>h. shows_on c h flt (has h)"
    and rest: "\<And>still. T \<le> deadline \<Longrightarrow>
      triple c G (waiting t has S (T + poll) still) (rest still) (\<lambda>r w. r = Inr () \<longrightarrow> (\<forall>h \<in> S. has h w))"
  shows "triple c G (waiting t has S T pending)
    (andThen (poll_round c guid flt pending) (\<lambda>still.
       if still = [] then ret ()
       else andThen (io (clock c)) (\<lambda>now.
         if deadline < now then fail (not_replicated c guid timeout still)
         else andThen (io (sleep c poll)) (\<lambda>ended.
           case ended of Some err \<Rightarrow> fail (ad_err KindTransport ''replicate'' err) | None \<Rightarrow> rest still))))
    (\<lambda>r w. r = Inr () \<longrightarrow> (\<forall>h \<in> S. has h w))" (is "triple c G _ _ ?Q")
proof -
  have J: "kept c G (waiting t has S T still)" for still
  proof -
    have "kept c G (\<lambda>w. T \<le> t w \<and> (\<forall>h \<in> S - set still. has h w))"
      using t by (intro kept_and kept_all has(1)) (simp add: timed_def)
    then show ?thesis by (simp add: kept_def io_inv_def waiting_def)
  qed
  have sl: "triple c G (waiting t has S T still) (io (sleep c poll))
      (\<lambda>r w. \<exists>ended. r = Inr ended \<and> (ended = None \<longrightarrow> waiting t has S (T + poll) still w))" for still
  proof (rule triple_io)
    fix w assume w: "waiting t has S T still w"
    have "fst (sleep c poll w) = None \<longrightarrow> t w + poll \<le> t (snd (sleep c poll w))" using t by (simp add: timed_def)
    with w keptD(6) [OF J w, of poll]
    show "\<exists>ended. Inr (fst (sleep c poll w)) = Inr ended \<and>
        (ended = None \<longrightarrow> waiting t has S (T + poll) still (snd (sleep c poll w)))"
      by (auto simp: waiting_def)
  qed
  have sleep: "triple c G (waiting t has S T still) (andThen (io (sleep c poll)) (\<lambda>ended.
      case ended of Some err \<Rightarrow> fail (ad_err KindTransport ''replicate'' err) | None \<Rightarrow> rest still)) ?Q"
    if "T \<le> deadline" for still
    proof (rule triple_andThen [OF sl])
    fix ended :: "go_error option"
    show "triple c G (\<lambda>w. \<exists>e. Inr ended = Inr e \<and> (e = None \<longrightarrow> waiting t has S (T + poll) still w))
      (case ended of Some err \<Rightarrow> fail (ad_err KindTransport ''replicate'' err) | None \<Rightarrow> rest still) ?Q"
      using rest [OF that, of still] by (cases ended) auto
  qed auto
  have cl: "triple c G (waiting t has S T still) (io (clock c))
      (\<lambda>r w. waiting t has S T still w \<and> (\<exists>n \<ge> T. r = Inr n))" for still
  proof (rule triple_io)
    fix w assume w: "waiting t has S T still w"
    have "t w \<le> fst (clock c w)" using t by (simp add: timed_def)
    with w have "T \<le> fst (clock c w)" by (simp add: waiting_def)
    with keptD(2) [OF J w]
    show "waiting t has S T still (snd (clock c w)) \<and> (\<exists>n \<ge> T. Inr (fst (clock c w)) = Inr n)" by blast
  qed
  have clock: "triple c G (waiting t has S T still) (andThen (io (clock c)) (\<lambda>now.
      if deadline < now then fail (not_replicated c guid timeout still)
      else andThen (io (sleep c poll)) (\<lambda>ended.
        case ended of Some err \<Rightarrow> fail (ad_err KindTransport ''replicate'' err) | None \<Rightarrow> rest still))) ?Q" for still
  proof (rule triple_andThen [OF cl])
    fix now
    let ?P = "\<lambda>w. waiting t has S T still w \<and> (\<exists>n \<ge> T. (Inr now :: int res) = Inr n)"
    show "triple c G ?P (if deadline < now then fail (not_replicated c guid timeout still)
       else andThen (io (sleep c poll)) (\<lambda>ended.
         case ended of Some err \<Rightarrow> fail (ad_err KindTransport ''replicate'' err) | None \<Rightarrow> rest still)) ?Q"
    proof (cases "deadline < now")
      case True
      show ?thesis unfolding if_P [OF True] by (rule triple_fail) simp
    next
      case False
      show ?thesis
      proof (cases "T \<le> deadline")
        case True
        show ?thesis unfolding if_not_P [OF False] by (rule triple_conseq [OF sleep [OF True]]) simp_all
      qed (use False in \<open>auto intro!: triple_False\<close>)
    qed
  qed auto
  show ?thesis
  proof (rule triple_andThen [OF triple_poll_round [OF has others J]])
    fix still
    let ?P = "\<lambda>w. waiting t has S T pending w \<and> (\<exists>s. (Inr still :: string list res) = Inr s \<and>
        set s \<subseteq> set pending \<and> (\<forall>h \<in> set pending - set s. has h w))"
    have still: "?P w \<Longrightarrow> waiting t has S T still w" for w by (auto simp: waiting_def)
    show "triple c G ?P (if still = [] then ret () else
      andThen (io (clock c)) (\<lambda>now. if deadline < now then fail (not_replicated c guid timeout still)
      else andThen (io (sleep c poll)) (\<lambda>ended.
        case ended of Some err \<Rightarrow> fail (ad_err KindTransport ''replicate'' err) | None \<Rightarrow> rest still))) ?Q"
    proof (cases "still = []")
      case True
      have "triple c G ?P (ret ()) ?Q" by (rule triple_ret) (use True still in \<open>auto simp: waiting_def\<close>)
      with True show ?thesis by simp
    next
      case False
      show ?thesis unfolding if_not_P [OF False] by (rule triple_conseq [OF clock still])
    qed
  qed auto
qed

lemma triple_replicate_loop:
  assumes "timed c G t" "others c G" "0 < poll"
    and "\<And>h. kept c G (has h)" "\<And>h. shows_on c h flt (has h)"
    and "deadline - T < int fuel * poll"
  shows "triple c G (waiting t has S T pending)
    (replicate_loop (Suc fuel) c guid flt poll timeout deadline pending) (\<lambda>r w. r = Inr () \<longrightarrow> (\<forall>h \<in> S. has h w))"
  using assms(6)
proof (induction fuel arbitrary: T pending)
  case (0 T pending)
  then show ?case
    unfolding replicate_loop.simps by (intro triple_replicate_round assms) auto
next
  case (Suc fuel)
  then have "deadline - (T + poll) < int fuel * poll" by (simp add: algebra_simps)
  from Suc.IH [OF this] show ?case
    unfolding replicate_loop.simps(2) [of "Suc fuel"] by (intro triple_replicate_round assms)
qed

lemma replicate_loop_returns:
  assumes "timed c G t" "others c G" "ready c G p" "T \<le> t w" "0 < poll"
    and "\<And>h. kept c G (has h)" "\<And>h. shows_on c h flt (has h)"
    and "Suc (nat (deadline - T + 1)) \<le> fuel"
  shows "\<exists>r p' w'. replicate_loop fuel c guid flt poll timeout deadline targets p w = Some (r, p', w') \<and>
    (r = Inr () \<longrightarrow> (\<forall>h \<in> set targets. has h w'))"
proof -
  from assms(8) obtain f where f: "fuel = Suc f" "deadline - T + 1 \<le> int f" by (cases fuel) auto
  have "int f \<le> int f * poll" using assms(5) by (simp add: mult_le_cancel_left1)
  with f(2) have "deadline - T < int f * poll" by linarith
  then have "triple c G (waiting t has (set targets) T targets)
      (replicate_loop fuel c guid flt poll timeout deadline targets)
      (\<lambda>r w. r = Inr () \<longrightarrow> (\<forall>h \<in> set targets. has h w))"
    unfolding f(1) using assms by (intro triple_replicate_loop) simp_all
  moreover have "waiting t has (set targets) T targets w" using assms(4) by (simp add: waiting_def)
  ultimately show ?thesis using assms(3) unfolding triple_def by blast
qed

section \<open>Properties\<close>

lemma triple_replicationTargets:
  assumes "kept c G J"
  shows "triple c G J (replicationTargets c) (\<lambda>r w. J w)"
proof (cases "rTargets (repl c) \<noteq> [''all'']")
  case True
  then show ?thesis unfolding replicationTargets_def if_P [OF True] by (intro triple_ret)
next
  case False
  show ?thesis
    unfolding replicationTargets_def if_not_P [OF False]
    by (rule triple_andThen [OF triple_search_inv [OF assms]]) auto
qed

text \<open>
  C15. A wait for replication ends, and its success means what it says.  In a world whose clock runs,
  the wait returns for every large enough bound on the number of polls; and if it returns without an
  error, then every target (\<open>has h\<close>: the object has been seen on \<open>h\<close>, which nothing during the wait
  takes back) has been seen to hold the object.
\<close>

theorem replicate_wait_correct:
  assumes "timed c G t" "others c G" "ready c G p" "GUIDToBytes guid = Inr b"
    and "\<forall>h. kept c G (has h) \<and> shows_on c h (guid_filter b) (has h)"
  shows "\<exists>N. \<forall>fuel \<ge> N. \<exists>r p' w'. replicate_wait fuel c guid p w = Some (r, p', w') \<and>
    (rWait (repl c) \<and> r = Inr () \<longrightarrow>
       (\<exists>targets p1 w1. replicationTargets c p w = Some (Inr targets, p1, w1) \<and> (\<forall>h \<in> set targets. has h w')))"
proof (cases "rWait (repl c)")
  case False
  then show ?thesis by (simp add: replicate_wait_def prog_simps)
next
  case wait: True
  let ?poll = "replicate_poll c" and ?timeout = "replicate_timeout c"
  have poll: "0 < ?poll" by (simp add: replicate_poll_def defaultPollInterval_def)
  have k: "kept c G (\<lambda>w'. t w \<le> t w')" using assms(1) by (simp add: timed_def)
  from triple_replicationTargets [OF k] assms(3)
  obtain r p1 w1 where tg: "replicationTargets c p w = Some (r, p1, w1)" "ready c G p1" "t w \<le> t w1"
    unfolding triple_def by blast
  obtain now w2 where now: "clock c w1 = (now, w2)" by (cases "clock c w1")
  have w2: "t w \<le> t w2" using keptD(2) [OF k tg(3)] now by simp
  let ?N = "Suc (nat (now + ?timeout - t w + 1))"
  let ?loop = "\<lambda>fuel targets. replicate_loop fuel c guid (guid_filter b) ?poll ?timeout (now + ?timeout) targets p1 w2"
  have loop: "\<exists>r p' w'. ?loop fuel targets = Some (r, p', w') \<and> (r = Inr () \<longrightarrow> (\<forall>h \<in> set targets. has h w'))"
    if "?N \<le> fuel" for fuel targets
    using assms(5) that by (intro replicate_loop_returns [OF assms(1,2) tg(2) w2 poll]) simp_all
  show ?thesis
  proof (intro exI [of _ ?N] allI impI)
    fix fuel assume "?N \<le> fuel"
    note l = loop [OF this]
    have eq: "replicate_wait fuel c guid p w =
        (case r of Inl e \<Rightarrow> Some (Inl e, p1, w1)
         | Inr targets \<Rightarrow> if targets = [] then Some (Inr (), p1, w1) else ?loop fuel targets)"
      using wait tg(1) now assms(4)
      by (simp add: replicate_wait_def prog_simps split: sum.split)
    show "\<exists>r p' w'. replicate_wait fuel c guid p w = Some (r, p', w') \<and>
      (rWait (repl c) \<and> r = Inr () \<longrightarrow>
       (\<exists>targets p1 w1. replicationTargets c p w = Some (Inr targets, p1, w1) \<and> (\<forall>h \<in> set targets. has h w')))"
    proof (cases r)
      case (Inl e)
      then show ?thesis unfolding eq by simp
    next
      case (Inr targets)
      from l [of targets] obtain r' p' w' where "?loop fuel targets = Some (r', p', w')"
        "r' = Inr () \<longrightarrow> (\<forall>h \<in> set targets. has h w')" by blast
      then show ?thesis unfolding eq using Inr tg(1) by (cases "targets = []") simp_all
    qed
  qed
qed


subsection \<open>A second controller that the object reaches at time 5\<close>

text \<open>The world is a clock; a pause moves it on.\<close>

definition dc02 :: "int conn" where
  "dc02 =
     \<lparr>cSearch = (\<lambda>req w. (Inr \<lparr>Entries = (if w < 5 then [] else [sample_entry]), RespControls = []\<rparr>, w)),
      cAdd = (\<lambda>dn as w. (None, w)), cModify = (\<lambda>dn ms cs w. (None, w)),
      cModifyDN = (\<lambda>dn r del sup w. (None, w)), cDelete = (\<lambda>dn w. (None, w)), cClose = (\<lambda>w. (None, w)), cLdap = None\<rparr>"

definition waiting_client :: "(int, string \<times> string) core" where
  "waiting_client = (client_of dc02)\<lparr>
     exec := (exec (client_of dc02))\<lparr>poolOpts := (poolOpts (exec (client_of dc02)))\<lparr>oClose := (\<lambda>c w. (None, w))\<rparr>\<rparr>,
     repl := \<lparr>rWait = True, rTargets = [''dc01'', ''dc02''], rForceSync = True, rTimeout = 60, rPollInterval = 2\<rparr>,
     clock := (\<lambda>w. (w, w)), sleep := (\<lambda>d w. (None, if 0 < d then w + d else w))\<rparr>"

lemma kept_waiting_client: "(\<And>w w'. J w \<Longrightarrow> w \<le> w' \<Longrightarrow> J w') \<Longrightarrow> kept waiting_client (\<lambda>cn. cn = dc02) J"
  by (auto simp: kept_def wait_steps_def waiting_client_def client_of_def io_inv_def dc02_def)

theorem replicate_wait_correct_witness:
  "\<exists>fuel r p' w'. replicate_wait fuel waiting_client ''00000000-0000-0000-0000-000000000000'' (NewPool 1) 0 =
     Some (r, p', w') \<and> (r = Inr () \<longrightarrow> 5 \<le> w')"
proof -
  let ?guid = "''00000000-0000-0000-0000-000000000000''" and ?G = "\<lambda>cn. cn = dc02"
  have t: "timed waiting_client ?G (\<lambda>w. w)"
    using kept_waiting_client by (simp add: timed_def) (simp add: waiting_client_def)
  have o: "others waiting_client ?G" by (simp add: others_def waiting_client_def client_of_def)
  have r: "ready waiting_client ?G (NewPool 1)"
    by (simp add: ready_def pool_of_def waiting_client_def client_of_def NewPool_def)
  have b: "GUIDToBytes ?guid = Inr (replicate 16 0)" by code_simp
  have "kept waiting_client ?G (\<lambda>w. 5 \<le> w)" by (rule kept_waiting_client) simp
  moreover have "shows_on waiting_client h flt (\<lambda>w. 5 \<le> w)" for h flt
    by (auto simp: shows_on_def waiting_client_def client_of_def dc02_def)
  ultimately obtain fuel r p' w' where "replicate_wait fuel waiting_client ?guid (NewPool 1) 0 = Some (r, p', w')"
    "rWait (repl waiting_client) \<and> r = Inr () \<longrightarrow> (\<exists>targets p1 w1. replicationTargets waiting_client (NewPool 1) 0 =
       Some (Inr targets, p1, w1) \<and> (\<forall>h \<in> set targets. 5 \<le> w'))"
    using replicate_wait_correct [OF t o r b, of "\<lambda>_ w. 5 \<le> w" 0] by blast
  moreover have "replicationTargets waiting_client (NewPool 1) 0 = Some (Inr [''dc02''], NewPool 1, 0)"
    "rWait (repl waiting_client)"
    by (simp_all add: replicationTargets_def waiting_client_def client_of_def ret_def)
  ultimately show ?thesis by auto
qed

end
