(* ===== verification/Group.thy ===== *)
theory Group
  imports Tombstone Replication
begin

text \<open>
  The root package, file \<open>group.go\<close>: groups.  The steps that the handlers of groups, users, computers
  and service accounts spell out alike (writing the changed attributes, the one \<open>ModifyDN\<close>, the
  delete with its re-read) are definitions here.
\<close>

definition groupAttrs :: "string list" where
  "groupAttrs = [''objectGUID'', ''distinguishedName'', ''name'', ''sAMAccountName'', ''description'',
     ''groupType'', ''objectSid'', ''managedBy'']"

definition cnRDN :: "'id adcore \<Rightarrow> string \<Rightarrow> string" where
  "cnRDN a name = ''CN='' @ EscapeValue a name"

section \<open>Steps the handlers share\<close>

definition replace_mod :: "string \<Rightarrow> string \<Rightarrow> modification" where
  "replace_mod attr v = \<lparr>mOp = ModReplace, mType = attr, mVals = [bytes_of v]\<rparr>"

definition appendStringMod ::
  "modification list \<Rightarrow> string \<Rightarrow> string option \<Rightarrow> string \<Rightarrow> modification list" where
  "appendStringMod mods attr want current =
     (case want of
        None \<Rightarrow> mods
      | Some v \<Rightarrow>
          if v = current then mods
          else if v = [] then mods @ [\<lparr>mOp = ModDelete, mType = attr, mVals = []\<rparr>]
          else mods @ [replace_mod attr v])"

text \<open>An attribute of a new object for a field that is set and not empty.\<close>

definition add_string :: "string \<Rightarrow> string option \<Rightarrow> attribute list" where
  "add_string attr v =
     (case v of None \<Rightarrow> [] | Some s \<Rightarrow> if s \<noteq> [] then [\<lparr>aType = attr, aVals = [bytes_of s]\<rparr>] else [])"

definition write_mods :: "('w, 'id) core \<Rightarrow> string \<Rightarrow> 'id \<Rightarrow> string \<Rightarrow> modification list \<Rightarrow> ('w, unit) prog" where
  "write_mods c op i dn mods =
     (if mods \<noteq> [] then identified c op i (run c op () (\<lambda>cn w. effect (cModify cn dn mods [] w))) else ret ())"

definition rename_or_move ::
  "('w, 'id) core \<Rightarrow> string \<Rightarrow> 'id \<Rightarrow> string \<Rightarrow> string \<Rightarrow> string \<Rightarrow> string \<Rightarrow> string \<Rightarrow> ('w, unit) prog" where
  "rename_or_move c op i dn curName curContainer name container =
     (case EqualFoldDN (ad c) container curContainer of
        Inl err \<Rightarrow> fail (ad_err KindConstraint op err)
      | Inr sameContainer \<Rightarrow>
          if name \<noteq> curName \<or> \<not> sameContainer
          then let superior = (if \<not> sameContainer then container else []) in
            identified c op i (run c op () (\<lambda>cn w. effect (cModifyDN cn dn (cnRDN (ad c) name) True superior w)))
          else ret ())"

definition delete_object ::
  "('w, 'id) core \<Rightarrow> string \<Rightarrow> 'id \<Rightarrow> ('id \<Rightarrow> ('w, 'm) prog) \<Rightarrow> ('m \<Rightarrow> string) \<Rightarrow> ('m \<Rightarrow> string) \<Rightarrow> ('w, unit) prog" where
  "delete_object c op i get dnOf guidOf =
     handle (get i) (\<lambda>r.
       case r of
         Inl err \<Rightarrow> if isNotFound c err then ret () else fail err
       | Inr current \<Rightarrow>
           andThen (identified c op i (run c op () (\<lambda>cn w. effect (cDelete cn (dnOf current) w)))) (\<lambda>_.
             confirm_gone c op i (dnOf current) (get (ByGUID (ad c) (guidOf current)))))"

text \<open>The add that names the object it collided with.\<close>

definition add_object ::
  "('w, 'id) core \<Rightarrow> string \<Rightarrow> string \<Rightarrow> attribute list \<Rightarrow> string \<Rightarrow> ('w, 'a) prog \<Rightarrow> ('w, 'a) prog" where
  "add_object c op dn add flt rest =
     handle (run c op () (\<lambda>cn w. effect (cAdd cn dn add w))) (\<lambda>r.
       case r of
         Inl err \<Rightarrow> andThen (annotateAlreadyExists c err dn flt) fail
       | Inr _ \<Rightarrow> rest)"

section \<open>The handlers\<close>

definition group_model :: "'id adcore \<Rightarrow> entry \<Rightarrow> group res" where
  "group_model a e =
     bind_res (GUIDToString (First e ''objectGUID'')) (\<lambda>guid.
     bind_res (ContainerOf a (DN e)) (\<lambda>container.
     bind_res (let raw = First e ''objectSid'' in if 0 < length raw then SIDToString raw else Inr []) (\<lambda>sid.
     bind_res (ParseGroupType (FirstString e ''groupType'')) (\<lambda>gt.
     case ScopeAndCategory gt of (scope, category) \<Rightarrow>
       Inr \<lparr>gGUID = guid, gDN = DN e, gName = FirstString e ''name'',
            gSamAccountName = FirstString e ''sAMAccountName'', gContainer = container,
            gScope = scope, gCategory = category, gDescription = FirstString e ''description'',
            gManagedBy = FirstString e ''managedBy'', gSID = sid\<rparr>))))"

definition group_Get :: "('w, 'id) core \<Rightarrow> 'id \<Rightarrow> ('w, group) prog" where
  "group_Get c i =
     andThen (getOne c ''Group.Get'' i ''group'' groupAttrs []) (\<lambda>e.
       case group_model (ad c) e of
         Inl err \<Rightarrow> fail (ad_err KindTransport ''Group.Get'' err)
       | Inr m \<Rightarrow> ret m)"

definition group_add_attrs :: "group_spec \<Rightarrow> attribute list" where
  "group_add_attrs spec =
     [\<lparr>aType = ''objectClass'', aVals = [bytes_of ''top'', bytes_of ''group'']\<rparr>,
      \<lparr>aType = ''cn'', aVals = [bytes_of (gsName spec)]\<rparr>,
      \<lparr>aType = ''sAMAccountName'', aVals = [bytes_of (gsSamAccountName spec)]\<rparr>,
      \<lparr>aType = ''groupType'',
       aVals = [bytes_of (GroupTypeString (GroupTypeValue (gsScope spec) (gsCategory spec)))]\<rparr>] @
     add_string ''description'' (gsDescription spec) @ add_string ''managedBy'' (gsManagedBy spec)"

definition group_Create :: "nat \<Rightarrow> ('w, 'id) core \<Rightarrow> group_spec \<Rightarrow> ('w, group \<times> go_error option) prog" where
  "group_Create fuel c spec =
     (let op = ''Group.Create'' in
      case GroupValidate (ad c) spec op True of
        Some err \<Rightarrow> fail err
      | None \<Rightarrow>
          let dn = cnRDN (ad c) (gsName spec) @ '','' @ gsContainer spec in
          add_object c op dn (group_add_attrs spec)
            (deletedFilter (ad c) ''group'' (gsName spec) (gsContainer spec))
            (andThen (group_Get c (ByDN (ad c) dn)) (\<lambda>created.
               with_wait fuel c (gGUID created) created)))"

definition group_Search :: "('w, 'id) core \<Rightarrow> query \<Rightarrow> ('w, group list) prog" where
  "group_Search c q =
     andThen (searchEntries c ''Group.Search'' q ''group'' groupAttrs []) (\<lambda>entries.
       case map_res (group_model (ad c)) entries of
         Inl err \<Rightarrow> fail (ad_err KindTransport ''Group.Search'' err)
       | Inr out \<Rightarrow> ret out)"

text \<open>The modifications of an update; a scope or category left empty is the current one.\<close>

definition group_mods :: "group_spec \<Rightarrow> group \<Rightarrow> modification list" where
  "group_mods spec current =
     (let mods = (if gsSamAccountName spec \<noteq> [] \<and> gsSamAccountName spec \<noteq> gSamAccountName current
                  then [replace_mod ''sAMAccountName'' (gsSamAccountName spec)] else []);
          mods = appendStringMod mods ''description'' (gsDescription spec) (gDescription current);
          mods = appendStringMod mods ''managedBy'' (gsManagedBy spec) (gManagedBy current);
          scope = (if gsScope spec = GroupScopeOther [] then gScope current else gsScope spec);
          category = (if gsCategory spec = GroupCategoryOther [] then gCategory current else gsCategory spec)
      in if scope \<noteq> gScope current \<or> category \<noteq> gCategory current
         then mods @ [replace_mod ''groupType'' (GroupTypeString (GroupTypeValue scope category))]
         else mods)"

definition group_Update :: "nat \<Rightarrow> ('w, 'id) core \<Rightarrow> 'id \<Rightarrow> group_spec \<Rightarrow> ('w, group \<times> go_error option) prog" where
  "group_Update fuel c i spec =
     (let op = ''Group.Update'' in
      case GroupValidate (ad c) spec op False of
        Some err \<Rightarrow> fail err
      | None \<Rightarrow>
          andThen (group_Get c i) (\<lambda>current.
          andThen (write_mods c op i (gDN current) (group_mods spec current)) (\<lambda>_.
          andThen (rename_or_move c op i (gDN current) (gName current) (gContainer current)
                     (gsName spec) (gsContainer spec)) (\<lambda>_.
          andThen (group_Get c (ByGUID (ad c) (gGUID current))) (\<lambda>updated.
            with_wait fuel c (gGUID updated) updated)))))"

definition group_Delete :: "('w, 'id) core \<Rightarrow> 'id \<Rightarrow> ('w, unit) prog" where
  "group_Delete c i = delete_object c ''Group.Delete'' i (group_Get c) gDN gGUID"

section \<open>Deletes\<close>

lemma delete_object_confirmed:
  assumes "delete_object c op i get dnOf guidOf p w = Some (Inr (), p', w')"
  shows "confirmed c get guidOf i p w p' w'"
proof -
  from handle_okD [OF assms [unfolded delete_object_def]] obtain r p1 w1 where g: "get i p w = Some (r, p1, w1)"
    and k: "(case r of Inl err \<Rightarrow> if isNotFound c err then ret () else fail err
       | Inr current \<Rightarrow>
           andThen (identified c op i (run c op () (\<lambda>cn w. effect (cDelete cn (dnOf current) w)))) (\<lambda>_.
             confirm_gone c op i (dnOf current) (get (ByGUID (ad c) (guidOf current))))) p1 w1 = Some (Inr (), p', w')"
    by auto
  show ?thesis
  proof (cases r)
    case (Inl e)
    with g k show ?thesis by (auto simp: confirmed_def ret_def fail_def split: if_split_asm)
  next
    case (Inr m)
    with k show ?thesis
      using g unfolding confirmed_def by (auto dest!: andThen_okD confirm_gone_ok)
  qed
qed

end
