(* ===== verification/Ou.thy ===== *)
theory Ou
  imports Tombstone Replication Secdesc
begin

text \<open>
  The root package, file \<open>ou.go\<close>: organizational units.
\<close>

definition ouAttrs :: "string list" where
  "ouAttrs = [''objectGUID'', ''distinguishedName'', ''name'', ''description'', ''nTSecurityDescriptor'']"

definition sdDACL :: control where "sdDACL = SDFlagsControl SDFlagDACL"

definition ouRDN :: "'id adcore \<Rightarrow> string \<Rightarrow> string" where
  "ouRDN a name = ''OU='' @ EscapeValue a name"

definition ou_model :: "'id adcore \<Rightarrow> entry \<Rightarrow> ou res" where
  "ou_model a e =
     bind_res (GUIDToString (First e ''objectGUID'')) (\<lambda>guid.
     bind_res (ContainerOf a (DN e)) (\<lambda>container.
     bind_res (let sd = First e ''nTSecurityDescriptor'' in
               if 0 < length sd then IsProtected sd else Inr False) (\<lambda>protected.
     Inr \<lparr>ouGUID = guid, ouDN = DN e, ouName = FirstString e ''name'', ouContainer = container,
          ouDescription = FirstString e ''description'', ouProtected = protected\<rparr>)))"

definition sd_request :: "string \<Rightarrow> search_request" where
  "sd_request dn =
     \<lparr>BaseDN = dn, Scope = ScopeBase, Filter = ''(objectClass=*)'',
      Attributes = [''nTSecurityDescriptor''], SizeLimit = 1, Controls = [sdDACL]\<rparr>"

text \<open>The closure that reads the descriptor.\<close>

definition read_sd :: "string \<Rightarrow> 'w conn \<Rightarrow> 'w \<Rightarrow> bytes res \<times> 'w" where
  "read_sd dn cn w =
     (case cSearch cn (sd_request dn) w of
        (Inl e, w) \<Rightarrow> (Inl e, w)
      | (Inr res, w) \<Rightarrow>
          (case Entries res of
             [] \<Rightarrow> (Inl (ErrMsg ''the object disappeared while setting protection''), w)
           | e # _ \<Rightarrow> (Inr (First e ''nTSecurityDescriptor''), w)))"

definition setProtection :: "('w, 'id) core \<Rightarrow> string \<Rightarrow> string \<Rightarrow> bool \<Rightarrow> ('w, unit) prog" where
  "setProtection c op dn want =
     andThen (run c op [] (read_sd dn)) (\<lambda>current.
       if current = []
       then fail (ErrAd (AdError KindDenied op [] dn 0 [] False (Some (ErrMsg
              (''the directory returned no nTSecurityDescriptor; the account '' @
               ''cannot read the object's security descriptor, so protection cannot be managed'')))))
       else case SetProtected current want of
           Inl err \<Rightarrow> fail (ErrAd (AdError KindTransport op [] dn 0 [] False (Some err)))
         | Inr (updated, changed) \<Rightarrow>
             if \<not> changed then ret ()
             else run c op () (\<lambda>cn w. effect (cModify cn dn
               [\<lparr>mOp = ModReplace, mType = ''nTSecurityDescriptor'', mVals = [updated]\<rparr>] [sdDACL] w)))"

definition ou_Get :: "('w, 'id) core \<Rightarrow> 'id \<Rightarrow> ('w, ou) prog" where
  "ou_Get c i =
     andThen (getOne c ''OU.Get'' i ''organizationalUnit'' ouAttrs [sdDACL]) (\<lambda>e.
       case ou_model (ad c) e of
         Inl err \<Rightarrow> fail (ad_err KindTransport ''OU.Get'' err)
       | Inr m \<Rightarrow> ret m)"

definition ou_Search :: "('w, 'id) core \<Rightarrow> query \<Rightarrow> ('w, ou list) prog" where
  "ou_Search c q =
     andThen (searchEntries c ''OU.Search'' q ''organizationalUnit'' ouAttrs [sdDACL]) (\<lambda>entries.
       case map_res (ou_model (ad c)) entries of
         Inl err \<Rightarrow> fail (ad_err KindTransport ''OU.Search'' err)
       | Inr out \<Rightarrow> ret out)"

text \<open>The attributes of the new object.\<close>

definition ou_add_attrs :: "ou_spec \<Rightarrow> attribute list" where
  "ou_add_attrs spec =
     [\<lparr>aType = ''objectClass'', aVals = [bytes_of ''top'', bytes_of ''organizationalUnit'']\<rparr>,
      \<lparr>aType = ''ou'', aVals = [bytes_of (osName spec)]\<rparr>] @
     (case osDescription spec of
        Some d \<Rightarrow> if d \<noteq> [] then [\<lparr>aType = ''description'', aVals = [bytes_of d]\<rparr>] else []
      | None \<Rightarrow> [])"

definition ou_Create :: "nat \<Rightarrow> ('w, 'id) core \<Rightarrow> ou_spec \<Rightarrow> ('w, ou \<times> go_error option) prog" where
  "ou_Create fuel c spec =
     (let op = ''OU.Create'' in
      case ValidateName (ad c) op (osName spec) of
        Some err \<Rightarrow> fail err
      | None \<Rightarrow>
          (case ValidateContainer (ad c) op (osContainer spec) of
             Some err \<Rightarrow> fail err
           | None \<Rightarrow>
               let dn = ouRDN (ad c) (osName spec) @ '','' @ osContainer spec in
               handle (run c op () (\<lambda>cn w. effect (cAdd cn dn (ou_add_attrs spec) w))) (\<lambda>r.
                 case r of
                   Inl err \<Rightarrow>
                     andThen (annotateAlreadyExists c err dn
                       (deletedFilter (ad c) ''organizationalUnit'' (osName spec) (osContainer spec))) fail
                 | Inr _ \<Rightarrow>
                     andThen (if osProtected spec = Some True then setProtection c op dn True else ret ()) (\<lambda>_.
                     andThen (ou_Get c (ByDN (ad c) dn)) (\<lambda>created.
                       with_wait fuel c (ouGUID created) created)))))"

text \<open>The modification of the description, if any.\<close>

definition ou_mods :: "ou_spec \<Rightarrow> ou \<Rightarrow> modification list" where
  "ou_mods spec current =
     (case osDescription spec of
        None \<Rightarrow> []
      | Some d \<Rightarrow>
          if d = ouDescription current then []
          else if d = [] then [\<lparr>mOp = ModDelete, mType = ''description'', mVals = []\<rparr>]
          else [\<lparr>mOp = ModReplace, mType = ''description'', mVals = [bytes_of d]\<rparr>])"

definition ou_Update :: "nat \<Rightarrow> ('w, 'id) core \<Rightarrow> 'id \<Rightarrow> ou_spec \<Rightarrow> ('w, ou \<times> go_error option) prog" where
  "ou_Update fuel c i spec =
     (let op = ''OU.Update'' in
      case ValidateName (ad c) op (osName spec) of
        Some err \<Rightarrow> fail err
      | None \<Rightarrow>
          (case ValidateContainer (ad c) op (osContainer spec) of
             Some err \<Rightarrow> fail err
           | None \<Rightarrow>
               andThen (ou_Get c i) (\<lambda>current.
               let mods = ou_mods spec current in
               andThen (if mods \<noteq> []
                        then identified c op i (run c op () (\<lambda>cn w. effect (cModify cn (ouDN current) mods [] w)))
                        else ret ()) (\<lambda>_.
               let wantProtected = (case osProtected spec of Some b \<Rightarrow> b | None \<Rightarrow> ouProtected current) in
               case EqualFoldDN (ad c) (osContainer spec) (ouContainer current) of
                 Inl err \<Rightarrow> fail (ad_err KindConstraint op err)
               | Inr sameContainer \<Rightarrow>
                   let moving = (osName spec \<noteq> ouName current \<or> \<not> sameContainer) in
                   andThen (if moving \<and> ouProtected current
                            then identified c op i (setProtection c op (ouDN current) False)
                            else ret ()) (\<lambda>_.
                   andThen (if moving
                            then let superior = (if \<not> sameContainer then osContainer spec else []) in
                              identified c op i (run c op () (\<lambda>cn w.
                                effect (cModifyDN cn (ouDN current) (ouRDN (ad c) (osName spec)) True superior w)))
                            else ret ()) (\<lambda>_.
                   andThen (ou_Get c (ByGUID (ad c) (ouGUID current))) (\<lambda>updated.
                   if ouProtected updated \<noteq> wantProtected
                   then andThen (identified c op i (setProtection c op (ouDN updated) wantProtected)) (\<lambda>_.
                        andThen (ou_Get c (ByGUID (ad c) (ouGUID current))) (\<lambda>updated.
                          with_wait fuel c (ouGUID updated) updated))
                   else with_wait fuel c (ouGUID updated) updated)))))))"

definition children_request :: "string \<Rightarrow> search_request" where
  "children_request dn =
     \<lparr>BaseDN = dn, Scope = ScopeOneLevel, Filter = ''(objectClass=*)'',
      Attributes = [''distinguishedName''], SizeLimit = 1, Controls = []\<rparr>"

definition ou_Delete :: "('w, 'id) core \<Rightarrow> 'id \<Rightarrow> bool \<Rightarrow> ('w, unit) prog" where
  "ou_Delete c i unprotect =
     (let op = ''OU.Delete'' in
      handle (ou_Get c i) (\<lambda>r.
        case r of
          Inl err \<Rightarrow> if isNotFound c err then ret () else fail err
        | Inr current \<Rightarrow>
            andThen (if unprotect \<and> ouProtected current
                     then identified c op i (setProtection c op (ouDN current) False) else ret ()) (\<lambda>_.
            handle (run c op [] (search_entries (children_request (ouDN current)))) (\<lambda>r.
              let stop = (\<lambda>children :: nat.
                    if 0 < children
                    then fail (ErrAd (AdError KindConstraint op (IdentityString (ad c) i) (ouDN current) 0 [] False
                      (Some (ErrMsg (''organizational unit has '' @ fmt_nat 10 children @
                        '' child object(s); delete or move them first '' @
                        ''(recursive deletion is deliberately not offered)'')))))
                    else andThen (identified c op i (run c op () (\<lambda>cn w. effect (cDelete cn (ouDN current) w)))) (\<lambda>_.
                      confirm_gone c op i (ouDN current) (ou_Get c (ByGUID (ad c) (ouGUID current)))))
              in case r of
                  Inl err \<Rightarrow>
                    if has_kind KindTooManyResults err then stop 1
                    else fail (WithIdentity (ad c) err op i)
                | Inr entries \<Rightarrow> stop (length entries)))))"

section \<open>Deletes\<close>

lemma ou_Delete_confirmed:
  assumes "ou_Delete c i unprotect p w = Some (Inr (), p', w')"
  shows "confirmed c (ou_Get c) ouGUID i p w p' w'"
proof -
  from handle_okD [OF assms [unfolded ou_Delete_def Let_def]] obtain r p1 w1 where g: "ou_Get c i p w = Some (r, p1, w1)"
    by blast
  show ?thesis
  proof (cases r)
    case (Inl e)
    with g assms show ?thesis
      by (auto simp: ou_Delete_def Let_def handle_def confirmed_def ret_def fail_def split: if_split_asm)
  next
    case (Inr m)
    have "\<exists>p2 w2 e. ou_Get c (ByGUID (ad c) (ouGUID m)) p2 w2 = Some (Inl e, p', w') \<and> isNotFound c e"
      using assms g Inr unfolding ou_Delete_def Let_def handle_def [of "ou_Get c i"]
      by (auto dest!: andThen_okD handle_okD confirm_gone_ok simp: fail_def split: sum.split_asm if_split_asm) blast+
    with g Inr show ?thesis unfolding confirmed_def by blast
  qed
qed

end
