(* ===== verification/User.thy ===== *)
theory User
  imports Group Ou
begin

text \<open>
  The root package, file \<open>user.go\<close>: user accounts.  The lock that \<open>SetPassword\<close> takes has no effect within
  one handler, so that its body \<open>setPasswordLocked\<close> serves both callers.
\<close>

definition userAttrs :: "string list" where
  "userAttrs = [''objectGUID'', ''distinguishedName'', ''name'', ''sAMAccountName'', ''userPrincipalName'',
     ''displayName'', ''givenName'', ''sn'', ''description'', ''userAccountControl'', ''objectSid'',
     ''pwdLastSet'', ''accountExpires'', ''nTSecurityDescriptor'']"

text \<open>\<open>mustGUID\<close> of the constant, evaluated: the package does not initialise with a GUID that fails to parse.\<close>

definition changePasswordRight :: bytes where
  "changePasswordRight =
     (case GUIDToBytes ''ab721a53-1e2f-11d0-9819-00aa0040529b'' of Inr b \<Rightarrow> b | Inl _ \<Rightarrow> [])"

definition changePasswordTrustees :: "bytes list" where
  "changePasswordTrustees = [SIDEveryone, SIDSelf]"

definition mustSID :: "entry \<Rightarrow> string" where
  "mustSID e =
     (let raw = First e ''objectSid'' in
      if length raw = 0 then [] else case SIDToString raw of Inl _ \<Rightarrow> [] | Inr sid \<Rightarrow> sid)"

text \<open>An integer attribute that may be absent.\<close>

definition uint_or_zero :: "entry \<Rightarrow> string \<Rightarrow> u32 res" where
  "uint_or_zero e attr = (let raw = FirstString e attr in if raw \<noteq> [] then ParseUint32 raw else Inr 0)"

definition user_model :: "'id adcore \<Rightarrow> entry \<Rightarrow> user res" where
  "user_model a e =
     bind_res (GUIDToString (First e ''objectGUID'')) (\<lambda>guid.
     bind_res (ContainerOf a (DN e)) (\<lambda>container.
     bind_res (uint_or_zero e ''userAccountControl'') (\<lambda>uac.
     bind_res (FileTimeToTime (FirstString e ''accountExpires'')) (\<lambda>expires.
     bind_res (let sd = First e ''nTSecurityDescriptor'' in
               if 0 < length sd
               then bind_res (HasDeniedObjectRight sd RightControlAccess changePasswordRight changePasswordTrustees)
                      (\<lambda>denied. Inr (\<not> denied))
               else Inr True) (\<lambda>canChange.
     Inr \<lparr>uGUID = guid, uDN = DN e, uName = FirstString e ''name'',
          uSamAccountName = FirstString e ''sAMAccountName'',
          uUserPrincipalName = FirstString e ''userPrincipalName'', uDisplayName = FirstString e ''displayName'',
          uGivenName = FirstString e ''givenName'', uSurname = FirstString e ''sn'',
          uDescription = FirstString e ''description'', uContainer = container,
          uEnabled = (uac AND UACAccountDisable = 0), uPasswordExpires = (uac AND UACDontExpirePassword = 0),
          uChangePasswordAtLogon = (FirstString e ''pwdLastSet'' = ''0''), uCanChangePassword = canChange,
          uAccountExpiration = expires, uSID = mustSID e\<rparr>)))))"

definition read_account_sd :: "string \<Rightarrow> 'w conn \<Rightarrow> 'w \<Rightarrow> bytes res \<times> 'w" where
  "read_account_sd dn cn w =
     (case cSearch cn (sd_request dn) w of
        (Inl e, w) \<Rightarrow> (Inl e, w)
      | (Inr res, w) \<Rightarrow>
          (case Entries res of
             [] \<Rightarrow> (Inl (ErrMsg ''the account disappeared while setting can_change_password''), w)
           | e # _ \<Rightarrow> (Inr (First e ''nTSecurityDescriptor''), w)))"

definition setCanChangePassword :: "('w, 'id) core \<Rightarrow> string \<Rightarrow> string \<Rightarrow> bool \<Rightarrow> ('w, unit) prog" where
  "setCanChangePassword c op dn can =
     andThen (run c op [] (read_account_sd dn)) (\<lambda>current.
       if length current = 0
       then fail (ErrAd (AdError KindDenied op [] dn 0 [] False (Some (ErrMsg
              (''the directory returned no nTSecurityDescriptor; the account '' @
               ''cannot read the object's security descriptor, so can_change_password cannot be managed'')))))
       else case SetDeniedObjectRight current (\<not> can) RightControlAccess changePasswordRight changePasswordTrustees of
           Inl err \<Rightarrow> fail (ErrAd (AdError KindTransport op [] dn 0 [] False (Some err)))
         | Inr (updated, changed) \<Rightarrow>
             if \<not> changed then ret ()
             else run c op () (\<lambda>cn w. effect (cModify cn dn
               [\<lparr>mOp = ModReplace, mType = ''nTSecurityDescriptor'', mVals = [updated]\<rparr>] [sdDACL] w)))"

definition set_bit_to :: "u32 \<Rightarrow> bool \<Rightarrow> u32 \<Rightarrow> u32" where
  "set_bit_to b on v = (if on then v OR b else v AND NOT b)"

definition applyUAC :: "u32 \<Rightarrow> user_spec \<Rightarrow> u32" where
  "applyUAC current spec =
     (let out = (case usEnabled spec of None \<Rightarrow> current | Some b \<Rightarrow> set_bit_to UACAccountDisable (\<not> b) current)
      in case usPasswordExpires spec of None \<Rightarrow> out | Some b \<Rightarrow> set_bit_to UACDontExpirePassword (\<not> b) out)"

definition user_Get :: "('w, 'id) core \<Rightarrow> 'id \<Rightarrow> ('w, user) prog" where
  "user_Get c i =
     andThen (getOne c ''User.Get'' i ''user'' userAttrs [sdDACL]) (\<lambda>e.
       case user_model (ad c) e of
         Inl err \<Rightarrow> fail (ad_err KindTransport ''User.Get'' err)
       | Inr m \<Rightarrow> ret m)"

definition user_Search :: "('w, 'id) core \<Rightarrow> query \<Rightarrow> ('w, user list) prog" where
  "user_Search c q =
     andThen (searchEntries c ''User.Search'' q ''user'' userAttrs [sdDACL]) (\<lambda>entries.
       case map_res (user_model (ad c)) entries of
         Inl err \<Rightarrow> fail (ad_err KindTransport ''User.Search'' err)
       | Inr out \<Rightarrow> ret out)"

section \<open>Passwords\<close>

text \<open>
  The conversion \<open>[]rune(s)\<close> decodes UTF-8; an invalid byte is the replacement character and consumes
  one byte.
\<close>

definition cont_byte :: "nat \<Rightarrow> bool" where
  "cont_byte b \<longleftrightarrow> 0x80 \<le> b \<and> b \<le> 0xBF"

fun runes :: "nat list \<Rightarrow> nat list" where
  "runes [] = []"
| "runes (a # s) =
     (if a < 0x80 then a # runes s
      else case s of
          [] \<Rightarrow> [0xFFFD]
        | b # s1 \<Rightarrow>
            if 0xC2 \<le> a \<and> a \<le> 0xDF \<and> cont_byte b then ((a - 0xC0) * 64 + (b - 0x80)) # runes s1
            else case s1 of
                [] \<Rightarrow> 0xFFFD # runes s
              | d # s2 \<Rightarrow>
                  if 0xE0 \<le> a \<and> a \<le> 0xEF \<and> cont_byte b \<and> cont_byte d \<and> (a = 0xE0 \<longrightarrow> 0xA0 \<le> b) \<and> (a = 0xED \<longrightarrow> b \<le> 0x9F)
                  then ((a - 0xE0) * 4096 + (b - 0x80) * 64 + (d - 0x80)) # runes s2
                  else case s2 of
                      [] \<Rightarrow> 0xFFFD # runes s
                    | e # s3 \<Rightarrow>
                        if 0xF0 \<le> a \<and> a \<le> 0xF4 \<and> cont_byte b \<and> cont_byte d \<and> cont_byte e \<and> (a = 0xF0 \<longrightarrow> 0x90 \<le> b) \<and>
                           (a = 0xF4 \<longrightarrow> b \<le> 0x8F)
                        then ((a - 0xF0) * 262144 + (b - 0x80) * 4096 + (d - 0x80) * 64 + (e - 0x80)) # runes s3
                        else 0xFFFD # runes s)"

text \<open>\<open>utf16.Encode\<close>.\<close>

definition utf16_units :: "nat \<Rightarrow> nat list" where
  "utf16_units r =
     (if r < 0xD800 \<or> 0xE000 \<le> r \<and> r < 0x10000 then [r]
      else if 0x10000 \<le> r \<and> r \<le> 0x10FFFF
      then [0xD800 + (r - 0x10000) div 0x400, 0xDC00 + (r - 0x10000) mod 0x400]
      else [0xFFFD])"

definition utf16LEQuoted :: "string \<Rightarrow> bytes" where
  "utf16LEQuoted s =
     concat (map (\<lambda>u. [word_of_nat u, word_of_nat (u div 256)])
       (concat (map utf16_units (runes (map of_char ([CHR 0x22] @ s @ [CHR 0x22]))))))"

definition setPasswordLocked :: "('w, 'id) core \<Rightarrow> string \<Rightarrow> 'id \<Rightarrow> string \<Rightarrow> ('w, unit) prog" where
  "setPasswordLocked c op i password =
     (if SecretIsZero (ad c) password
      then fail (ad_err KindPassword op (ErrMsg ''an empty password cannot be set''))
      else
        andThen (resolveDN c op i) (\<lambda>dn.
        let encoded = utf16LEQuoted (RevealSecret (ad c) password) in
        identified c op i (run c op () (\<lambda>cn w. effect (cModify cn dn
          [\<lparr>mOp = ModReplace, mType = ''unicodePwd'', mVals = [encoded]\<rparr>] [] w)))))"

definition SetPassword :: "('w, 'id) core \<Rightarrow> 'id \<Rightarrow> string \<Rightarrow> ('w, unit) prog" where
  "SetPassword c i password = setPasswordLocked c ''User.SetPassword'' i password"

section \<open>Create, update, delete\<close>

definition add_expiration :: "expiration \<Rightarrow> attribute list" where
  "add_expiration e =
     (case e of ExpirationSet t \<Rightarrow> [\<lparr>aType = ''accountExpires'', aVals = [bytes_of (TimeToFileTime t)]\<rparr>] | _ \<Rightarrow> [])"

definition expiration_mods :: "expiration \<Rightarrow> modification list" where
  "expiration_mods e =
     (case e of
        ExpirationSet t \<Rightarrow> [replace_mod ''accountExpires'' (TimeToFileTime t)]
      | ExpirationClear \<Rightarrow> [replace_mod ''accountExpires'' ''0'']
      | ExpirationKeep \<Rightarrow> [])"

definition user_create_name :: "user_spec \<Rightarrow> string" where
  "user_create_name spec =
     (case usName spec of Some n \<Rightarrow> if n \<noteq> [] then n else usSamAccountName spec | None \<Rightarrow> usSamAccountName spec)"

definition user_create_uac :: "user_spec \<Rightarrow> u32" where
  "user_create_uac spec =
     (let uac = UACNormalAccount OR UACAccountDisable in
      if usPasswordExpires spec = Some False then uac OR UACDontExpirePassword else uac)"

definition user_add_attrs :: "user_spec \<Rightarrow> attribute list" where
  "user_add_attrs spec =
     [\<lparr>aType = ''objectClass'', aVals = [bytes_of ''top'', bytes_of ''person'', bytes_of ''organizationalPerson'',
        bytes_of ''user'']\<rparr>,
      \<lparr>aType = ''cn'', aVals = [bytes_of (user_create_name spec)]\<rparr>,
      \<lparr>aType = ''sAMAccountName'', aVals = [bytes_of (usSamAccountName spec)]\<rparr>,
      \<lparr>aType = ''userAccountControl'', aVals = [bytes_of (Uint32String (user_create_uac spec))]\<rparr>] @
     add_string ''userPrincipalName'' (usUserPrincipalName spec) @ add_string ''displayName'' (usDisplayName spec) @
     add_string ''givenName'' (usGivenName spec) @ add_string ''sn'' (usSurname spec) @
     add_string ''description'' (usDescription spec) @ add_expiration (usAccountExpiration spec)"

text \<open>What can be written only once the account has a password.\<close>

definition user_post :: "user_spec \<Rightarrow> modification list" where
  "user_post spec =
     (if usChangePasswordAtLogon spec = Some True then [replace_mod ''pwdLastSet'' ''0''] else []) @
     (if usEnabled spec = Some True
      then [replace_mod ''userAccountControl'' (Uint32String (user_create_uac spec AND NOT UACAccountDisable))]
      else [])"

definition user_Create :: "nat \<Rightarrow> ('w, 'id) core \<Rightarrow> user_spec \<Rightarrow> ('w, user \<times> go_error option) prog" where
  "user_Create fuel c spec =
     (let op = ''User.Create'' in
      case UserValidate (ad c) spec op of
        Some err \<Rightarrow> fail err
      | None \<Rightarrow>
          let name = user_create_name spec; dn = cnRDN (ad c) name @ '','' @ usContainer spec in
          add_object c op dn (user_add_attrs spec) (deletedFilter (ad c) ''user'' name (usContainer spec))
            (andThen (case usPassword spec of
                        Some pw \<Rightarrow> if \<not> SecretIsZero (ad c) pw then SetPassword c (ByDN (ad c) dn) pw else ret ()
                      | None \<Rightarrow> ret ()) (\<lambda>_.
             andThen (if user_post spec \<noteq> []
                      then run c op () (\<lambda>cn w. effect (cModify cn dn (user_post spec) [] w)) else ret ()) (\<lambda>_.
             andThen (if usCanChangePassword spec = Some False
                      then setCanChangePassword c op dn False else ret ()) (\<lambda>_.
             andThen (user_Get c (ByDN (ad c) dn)) (\<lambda>created.
               with_wait fuel c (uGUID created) created))))))"

definition user_current_uac :: "user \<Rightarrow> u32" where
  "user_current_uac current =
     (let uac = (if \<not> uEnabled current then UACNormalAccount OR UACAccountDisable else UACNormalAccount)
      in if \<not> uPasswordExpires current then uac OR UACDontExpirePassword else uac)"

definition user_mods :: "user_spec \<Rightarrow> user \<Rightarrow> modification list" where
  "user_mods spec current =
     (let mods = (if usSamAccountName spec \<noteq> [] \<and> usSamAccountName spec \<noteq> uSamAccountName current
                  then [replace_mod ''sAMAccountName'' (usSamAccountName spec)] else []);
          mods = appendStringMod mods ''userPrincipalName'' (usUserPrincipalName spec) (uUserPrincipalName current);
          mods = appendStringMod mods ''displayName'' (usDisplayName spec) (uDisplayName current);
          mods = appendStringMod mods ''givenName'' (usGivenName spec) (uGivenName current);
          mods = appendStringMod mods ''sn'' (usSurname spec) (uSurname current);
          mods = appendStringMod mods ''description'' (usDescription spec) (uDescription current);
          currentUAC = user_current_uac current;
          want = applyUAC currentUAC spec
      in mods @
         (if want \<noteq> currentUAC then [replace_mod ''userAccountControl'' (Uint32String want)] else []) @
         expiration_mods (usAccountExpiration spec) @
         (case usChangePasswordAtLogon spec of
            None \<Rightarrow> []
          | Some b \<Rightarrow> if b \<noteq> uChangePasswordAtLogon current
                       then [replace_mod ''pwdLastSet'' (if b then ''0'' else ''-1'')] else []))"

definition user_Update :: "nat \<Rightarrow> ('w, 'id) core \<Rightarrow> 'id \<Rightarrow> user_spec \<Rightarrow> ('w, user \<times> go_error option) prog" where
  "user_Update fuel c i spec =
     (let op = ''User.Update'' in
      case UserValidate (ad c) spec op of
        Some err \<Rightarrow> fail err
      | None \<Rightarrow>
          andThen (user_Get c i) (\<lambda>current.
          andThen (write_mods c op i (uDN current) (user_mods spec current)) (\<lambda>_.
          let name = (case usName spec of Some n \<Rightarrow> if n \<noteq> [] then n else uName current | None \<Rightarrow> uName current) in
          andThen (rename_or_move c op i (uDN current) (uName current) (uContainer current) name (usContainer spec)) (\<lambda>_.
          andThen (case usPassword spec of
                     Some pw \<Rightarrow> if \<not> SecretIsZero (ad c) pw
                                then setPasswordLocked c op (ByGUID (ad c) (uGUID current)) pw else ret ()
                   | None \<Rightarrow> ret ()) (\<lambda>_.
          andThen (user_Get c (ByGUID (ad c) (uGUID current))) (\<lambda>updated.
          case usCanChangePassword spec of
            Some can \<Rightarrow>
              if can \<noteq> uCanChangePassword updated
              then andThen (identified c op i (setCanChangePassword c op (uDN updated) can)) (\<lambda>_.
                   andThen (user_Get c (ByGUID (ad c) (uGUID current))) (\<lambda>updated.
                     with_wait fuel c (uGUID updated) updated))
              else with_wait fuel c (uGUID updated) updated
          | None \<Rightarrow> with_wait fuel c (uGUID updated) updated))))))"

definition user_Delete :: "('w, 'id) core \<Rightarrow> 'id \<Rightarrow> ('w, unit) prog" where
  "user_Delete c i = delete_object c ''User.Delete'' i (user_Get c) uDN uGUID"

section \<open>The encoding of a password\<close>

text \<open>Code points a string can spell, their UTF-8, and the decoding of UTF-16LE, each by its definition.\<close>

definition scalar :: "nat \<Rightarrow> bool" where
  "scalar r \<longleftrightarrow> r < 0xD800 \<or> 0xE000 \<le> r \<and> r < 0x110000"

definition utf8 :: "nat \<Rightarrow> nat list" where
  "utf8 r =
     (if r < 0x80 then [r]
      else if r < 0x800 then [0xC0 + r div 64, 0x80 + r mod 64]
      else if r < 0x10000 then [0xE0 + r div 4096, 0x80 + r div 64 mod 64, 0x80 + r mod 64]
      else [0xF0 + r div 262144, 0x80 + r div 4096 mod 64, 0x80 + r div 64 mod 64, 0x80 + r mod 64])"

fun units_of :: "bytes \<Rightarrow> nat list" where
  "units_of (a # b # r) = (unat a + 256 * unat b) # units_of r"
| "units_of _ = []"

fun points_of :: "nat list \<Rightarrow> nat list" where
  "points_of [] = []"
| "points_of (u # r) =
     (if 0xD800 \<le> u \<and> u < 0xDC00
      then case r of
          [] \<Rightarrow> [0xFFFD]
        | v # r' \<Rightarrow> (if 0xDC00 \<le> v \<and> v < 0xE000 then (0x10000 + (u - 0xD800) * 0x400 + (v - 0xDC00)) # points_of r'
                    else 0xFFFD # points_of r)
      else u # points_of r)"

lemma runes_utf8:
  assumes "scalar r" shows "runes (utf8 r @ s) = r # runes s"
proof -
  consider "r < 0x80" | "0x80 \<le> r" "r < 0x800" | "0x800 \<le> r" "r < 0x10000" "\<not> (0xD800 \<le> r \<and> r < 0xE000)"
    | "0x10000 \<le> r" "r < 0x110000"
    using assms unfolding scalar_def by linarith
  then show ?thesis
  proof cases
    case 2
    then have "2 \<le> r div 64" "r div 64 < 32" "r mod 64 \<le> 63" by linarith+
    with 2 show ?thesis by (simp add: utf8_def cont_byte_def)
  next
    case 3
    define a b c where "a = r div 4096" and "b = r div 64 mod 64" and "c = r mod 64"
    have r: "r = a * 4096 + b * 64 + c"
      using div_mult_mod_eq [of r 64] div_mult_mod_eq [of "r div 64" 64] div_mult2_eq [of r 64 64, simplified]
      unfolding a_def b_def c_def by linarith
    have bc: "b < 64" "c < 64" by (simp_all add: b_def c_def)
    have "a < 16" "a = 0 \<longrightarrow> 32 \<le> b" "a = 13 \<longrightarrow> b \<le> 31" using 3 r bc by linarith+
    with 3 bc show ?thesis
      by (simp add: utf8_def cont_byte_def a_def [symmetric] b_def [symmetric] c_def [symmetric]) (simp add: r)
  next
    case 4
    define a b c d where "a = r div 262144" and "b = r div 4096 mod 64" and "c = r div 64 mod 64" and "d = r mod 64"
    have r: "r = a * 262144 + b * 4096 + c * 64 + d"
      using div_mult_mod_eq [of r 64] div_mult_mod_eq [of "r div 64" 64] div_mult_mod_eq [of "r div 4096" 64]
        div_mult2_eq [of r 64 64, simplified] div_mult2_eq [of r 4096 64, simplified]
      unfolding a_def b_def c_def d_def by linarith
    have bc: "b < 64" "c < 64" "d < 64" by (simp_all add: b_def c_def d_def)
    have "a \<le> 4" "a = 0 \<longrightarrow> 16 \<le> b" "a = 4 \<longrightarrow> b \<le> 15" using 4 r bc by linarith+
    with 4 bc show ?thesis
      by (simp add: utf8_def cont_byte_def a_def [symmetric] b_def [symmetric] c_def [symmetric] d_def [symmetric])
         (simp add: r)
  qed (simp add: utf8_def)
qed

lemma points_of_utf16:
  assumes "scalar r" shows "points_of (utf16_units r @ s) = r # points_of s"
proof (cases "r < 0x10000")
  case True
  with assms show ?thesis by (auto simp: utf16_units_def scalar_def)
next
  case False
  define u v where "u = (r - 0x10000) div 0x400" and "v = (r - 0x10000) mod 0x400"
  have "r = 0x10000 + u * 0x400 + v" "v < 0x400" "u < 0x400"
    using False assms by (auto simp: u_def v_def scalar_def)
  with False assms show ?thesis
    by (simp add: utf16_units_def scalar_def u_def [symmetric] v_def [symmetric])
qed

lemma units_of_bytes:
  "list_all (\<lambda>u. u < 65536) us \<Longrightarrow>
     units_of (concat (map (\<lambda>u. [word_of_nat u, word_of_nat (u div 256)]) us)) = us"
  by (induction us) (auto simp: unat_of_nat)

lemma utf16_units_small: "list_all (\<lambda>u. u < 65536) (utf16_units r)"
  by (auto simp: utf16_units_def)

text \<open>
  C33. A password arrives as it was given: for every sequence of Unicode code points, the bytes written to
  \<open>unicodePwd\<close> decode as UTF-16LE to that sequence between two quotation marks, characters outside the
  basic plane included.
\<close>

theorem password_roundtrip:
  assumes "list_all scalar password"
  shows "points_of (units_of (utf16LEQuoted (map char_of (concat (map utf8 password))))) = 34 # password @ [34]"
proof -
  have u8: "list_all (\<lambda>b. b < 256) (utf8 r)" if "scalar r" for r
    using that by (auto simp: utf8_def scalar_def)
  then have "list_all (\<lambda>b. b < 256) (concat (map utf8 password))"
    using assms by (auto simp: list_all_iff)
  then have "map (of_char \<circ> char_of) (concat (map utf8 password)) = concat (map utf8 password)"
    by (intro map_idI) (auto simp: list_all_iff)
  moreover have "runes (concat (map utf8 password) @ [34]) = password @ [34]"
    using assms by (induction password) (simp_all add: runes_utf8)
  ultimately have r: "runes (map of_char ([CHR 0x22] @ map char_of (concat (map utf8 password)) @ [CHR 0x22])) =
      34 # password @ [34]"
    by (simp add: comp_def)
  have all: "list_all (\<lambda>u. u < 65536) (concat (map utf16_units rs))" for rs
    using utf16_units_small by (induction rs) (auto simp: list_all_iff)
  have "list_all scalar (34 # password @ [34])" using assms by (simp add: scalar_def)
  moreover have "list_all scalar rs \<Longrightarrow> points_of (concat (map utf16_units rs)) = rs" for rs
    by (induction rs) (simp_all add: points_of_utf16)
  ultimately have "points_of (concat (map utf16_units (34 # password @ [34]))) = 34 # password @ [34]" by blast
  then show ?thesis unfolding utf16LEQuoted_def r units_of_bytes [OF all] .
qed

theorem password_roundtrip_witness:
  "points_of (units_of (utf16LEQuoted (map char_of (concat (map utf8 [80, 0xE9, 0x20AC, 0x1F511]))))) =
     [34, 80, 0xE9, 0x20AC, 0x1F511, 34]"
  using password_roundtrip [of "[80, 0xE9, 0x20AC, 0x1F511]"] by (simp add: scalar_def)

end
