(* ===== verification/Principals.thy ===== *)
theory Principals
  imports Search Principals_SD
begin

text \<open>
  The root package, file \<open>principals.go\<close>: the descriptors that hold principals (resource-based
  delegation, the membership of a service account), between identities and object GUIDs.
\<close>

definition domain_request :: "('w, 'id) core \<Rightarrow> search_request" where
  "domain_request c =
     \<lparr>BaseDN = dnc c, Scope = ScopeBase, Filter = ''(objectClass=*)'', Attributes = [''objectSid''],
      SizeLimit = 1, Controls = []\<rparr>"

text \<open>The closure that reads the naming context.\<close>

definition read_domain :: "('w, 'id) core \<Rightarrow> 'w conn \<Rightarrow> 'w \<Rightarrow> entry res \<times> 'w" where
  "read_domain c cn w =
     (case cSearch cn (domain_request c) w of
        (Inl e, w) \<Rightarrow> (Inl e, w)
      | (Inr res, w) \<Rightarrow>
          (case Entries res of
             [] \<Rightarrow> (Inl (ErrMsg (''the naming context '' @ quote (dnc c) @ '' returned no entry'')), w)
           | e # _ \<Rightarrow> (Inr e, w)))"

text \<open>\<open>once.Do\<close>: what the first call finds, a SID or an error, is what every later call returns.\<close>

definition fill_cache :: "('w, 'id) core \<Rightarrow> string \<Rightarrow> ('w, bytes \<times> go_error option) prog" where
  "fill_cache c op =
     handle (run c op \<lparr>DN = [], Attrs = []\<rparr> (read_domain c)) (\<lambda>r.
       ret (case r of
              Inl err \<Rightarrow> ([], Some err)
            | Inr e \<Rightarrow>
                let sid = First e ''objectSid'' in
                (sid, if length sid = 0
                      then Some (ad_err KindConstraint op
                        (ErrMsg (''the naming context '' @ quote (dnc c) @ '' has no objectSid'')))
                      else None)))"

definition domainSID :: "('w, 'id) core \<Rightarrow> string \<Rightarrow> ('w, bytes) prog" where
  "domainSID c op p w =
     (case dsidGet c w of
        Some (sid, err) \<Rightarrow> Some (case err of None \<Rightarrow> Inr sid | Some e \<Rightarrow> Inl e, p, w)
      | None \<Rightarrow>
          (case fill_cache c op p w of
             Some (Inr (sid, err), p, w) \<Rightarrow>
               Some (case err of None \<Rightarrow> Inr sid | Some e \<Rightarrow> Inl e, p, dsidPut c (sid, err) w)
           | Some (Inl e, p, w) \<Rightarrow> Some (Inl e, p, w)
           | None \<Rightarrow> None))"

fun principalSIDs :: "('w, 'id) core \<Rightarrow> string \<Rightarrow> 'id list \<Rightarrow> ('w, bytes list) prog" where
  "principalSIDs c op [] = ret []"
| "principalSIDs c op (i # ids) =
     handle (getOne c op i ''*'' [''objectSid''] []) (\<lambda>r.
       case r of
         Inl err \<Rightarrow>
           if isNotFound c err
           then fail (ErrAd (AdError KindNotFound op (IdentityString (ad c) i) [] 0 [] False
                  (Some (ErrMsg (''principal '' @ quote (IdentityArg (ad c) i) @ '' does not exist'')))))
           else fail err
       | Inr e \<Rightarrow>
           let sid = First e ''objectSid'' in
           if length sid = 0
           then fail (ErrAd (AdError KindConstraint op (IdentityString (ad c) i) [] 0 [] False
                  (Some (ErrMsg (''principal '' @ quote (IdentityArg (ad c) i) @ '' has no objectSid'')))))
           else andThen (principalSIDs c op ids) (\<lambda>sids. ret (sid # sids)))"

text \<open>The loop over the SIDs of a descriptor.\<close>

fun resolve_sids :: "('w, 'id) core \<Rightarrow> string \<Rightarrow> bytes list \<Rightarrow> ('w, string list) prog" where
  "resolve_sids c op [] = ret []"
| "resolve_sids c op (raw # sids) =
     (case SIDToString raw of
        Inl _ \<Rightarrow> resolve_sids c op sids
      | Inr s \<Rightarrow>
          handle (getOne c op (BySID (ad c) s) ''*'' [''objectGUID''] []) (\<lambda>r.
            case r of
              Inl err \<Rightarrow> if isNotFound c err then resolve_sids c op sids else fail err
            | Inr e \<Rightarrow>
                (case GUIDToString (First e ''objectGUID'') of
                   Inl _ \<Rightarrow> resolve_sids c op sids
                 | Inr guid \<Rightarrow> andThen (resolve_sids c op sids) (\<lambda>guids. ret (guid # guids)))))"

definition principalGUIDs :: "('w, 'id) core \<Rightarrow> string \<Rightarrow> bytes \<Rightarrow> ('w, string list) prog" where
  "principalGUIDs c op sd =
     (case PrincipalSIDs sd of
        Inl err \<Rightarrow> fail (ad_err KindConstraint op err)
      | Inr sids \<Rightarrow> resolve_sids c op sids)"

definition principalSDValue :: "('w, 'id) core \<Rightarrow> string \<Rightarrow> 'id list \<Rightarrow> ('w, bytes) prog" where
  "principalSDValue c op ids =
     andThen (domainSID c op) (\<lambda>dsid.
     andThen (principalSIDs c op ids) (\<lambda>sids.
     case BuildPrincipalSD dsid sids of
       Inl err \<Rightarrow> fail (ad_err KindConstraint op err)
     | Inr sd \<Rightarrow> ret sd))"

section \<open>Properties\<close>

text \<open>A SID that some lookup found for an identity, in the one object that matched.\<close>

definition sid_found :: "('w, 'id) core \<Rightarrow> string \<Rightarrow> 'id \<Rightarrow> bytes \<Rightarrow> bool" where
  "sid_found c op i sid \<longleftrightarrow> sid \<noteq> [] \<and>
     (\<exists>e p w p' w'. getOne c op i ''*'' [''objectSid''] [] p w = Some (Inr e, p', w') \<and> sid = First e ''objectSid'')"

lemma principalSIDs_sound:
  "principalSIDs c op ids p w = Some (Inr sids, p', w') \<Longrightarrow> list_all2 (sid_found c op) ids sids"
proof (induction ids arbitrary: p w p' w' sids)
  case (Cons i ids)
  from handle_okD [OF Cons.prems [unfolded principalSIDs.simps]] obtain r p1 w1 where
    r: "getOne c op i ''*'' [''objectSid''] [] p w = Some (r, p1, w1)" by blast
  with Cons.prems obtain e where e: "r = Inr e" "First e ''objectSid'' \<noteq> []"
    by (auto simp: handle_def fail_def Let_def split: sum.split_asm if_split_asm)
  with r Cons.prems obtain rest p2 w2 where rest: "principalSIDs c op ids p1 w1 = Some (Inr rest, p2, w2)"
    "sids = First e ''objectSid'' # rest"
    by (auto simp: handle_def Let_def ret_def dest!: andThen_okD)
  have "sid_found c op i (First e ''objectSid'')" using r e unfolding sid_found_def by blast
  with Cons.IH [OF rest(1)] rest(2) show ?case by simp
qed (simp add: ret_def)

text \<open>
  C31. The descriptor written for a list of principals names all of them and nobody else: it decodes to
  one SID per identity, in their order, each the SID of the one object that identity resolved to,
  and its DACL is there also for no principal at all.  An identity that resolves to nothing fails
  the call.
\<close>

theorem principalSDValue_sound:
  assumes "principalSDValue c op ids p w = Some (Inr sd, p', w')"
  shows "\<exists>sids. list_all2 (sid_found c op) ids sids \<and> list_all sid_ok sids \<and>
    (8 + sum_list (map (\<lambda>s. 8 + length s) sids) < 65536 \<longrightarrow>
       PrincipalSIDs sd = Inr sids \<and> (\<exists>d. parse sd = Inr d \<and> dacl d \<noteq> [] \<and> control d AND controlDACLPresent \<noteq> 0))"
proof -
  from assms(1) obtain dsid sids p1 w1 p2 w2 where s: "principalSIDs c op ids p1 w1 = Some (Inr sids, p2, w2)"
    "BuildPrincipalSD dsid sids = Inr sd"
    by (auto simp: principalSDValue_def fail_def ret_def split: sum.split_asm dest!: andThen_okD)
  with principalSIDs_sound [OF s(1)] BuildPrincipalSD_defined [of dsid sids] BuildPrincipalSD_roundtrip [OF s(2)]
  show ?thesis by blast
qed

text \<open>
  C32. The domain SID is read once: what the first call returned, every later call returns without asking
  the directory.  That holds for an error too: a first read that fails for a passing reason fails
  every later write that needs the SID.
\<close>

theorem domainSID_once:
  assumes "domainSID c op p w = Some (r, p', w')"
    and "\<And>x v. dsidGet c (dsidPut c x v) = Some x"
  shows "domainSID c op' q w' = Some (r, q, w')"
proof (cases "dsidGet c w")
  case None
  with assms(1) obtain ab p1 w1 where "run c op \<lparr>DN = [], Attrs = []\<rparr> (read_domain c) p w = Some (ab, p1, w1)"
    by (cases "run c op \<lparr>DN = [], Attrs = []\<rparr> (read_domain c) p w") (auto simp: domainSID_def fill_cache_def handle_def)
  then obtain x where "fill_cache c op p w = Some (Inr x, p1, w1)" by (simp add: fill_cache_def handle_def ret_def)
  with None assms show ?thesis by (cases x) (auto simp: domainSID_def)
next
  case (Some x)
  with assms(1) show ?thesis by (cases x) (auto simp: domainSID_def)
qed

text \<open>A directory that is busy, and a cache that is the whole world.\<close>

definition busy_conn :: "'w conn" where
  "busy_conn =
     \<lparr>cSearch = (\<lambda>req w. (Inl (ErrRaw 51 [] None), w)), cAdd = (\<lambda>dn as w. (Some (ErrRaw 51 [] None), w)),
      cModify = (\<lambda>dn ms cs w. (Some (ErrRaw 51 [] None), w)),
      cModifyDN = (\<lambda>dn r del sup w. (Some (ErrRaw 51 [] None), w)),
      cDelete = (\<lambda>dn w. (Some (ErrRaw 51 [] None), w)), cClose = (\<lambda>w. (None, w)), cLdap = None\<rparr>"

definition cached_client :: "((bytes \<times> go_error option) option, string \<times> string) core" where
  "cached_client = (client_of busy_conn)\<lparr>dsidGet := (\<lambda>w. w), dsidPut := (\<lambda>x w. Some x)\<rparr>"

theorem domainSID_once_witness:
  "\<exists>e p' w'. domainSID cached_client ''Computer.Create'' (NewPool 1) None = Some (Inl e, p', w') \<and>
     has_kind KindTransient e \<and> domainSID cached_client ''Computer.Update'' p' w' = Some (Inl e, p', w')"
proof -
  have run: "run cached_client op d fn p w = run (client_of busy_conn) op d fn p w" for op d fn p w
    by (simp add: run_def cached_client_def)
  let ?e = "Classify_err (\<lambda>_. None) ''Computer.Create'' (ErrRaw 51 [] None)"
  have k: "Kind ?e = KindTransient"
    by (simp add: Classify_err_def errors_Is_def as_raw_def is_raw_def byResultCode_def Let_def ExtractWin32Code_def)
  have c: "dsidGet cached_client w = w" "dsidPut cached_client x w = Some x" for x w by (simp_all add: cached_client_def)
  have "read_domain cached_client busy_conn w = (Inl (ErrRaw 51 [] None), w)" for w
    by (simp add: read_domain_def busy_conn_def)
  then have f: "domainSID cached_client ''Computer.Create'' (NewPool 1) None =
      Some (Inl (ErrAd ?e), NewPool 1\<lparr>idle := [busy_conn]\<rparr>, Some ([], Some (ErrAd ?e)))"
    by (simp add: domainSID_def c fill_cache_def handle_def ret_def run run_client_of k)
  have "dsidGet cached_client (dsidPut cached_client x v) = Some x" for x v by (simp add: c)
  from domainSID_once [OF f this, of "''Computer.Update''"] f k show ?thesis by (auto simp: has_kind_def)
qed

definition sample_account :: entry where
  "sample_account = \<lparr>DN = ''CN=a,DC=corp'', Attrs = [(''objectSid'', [SIDEveryone])]\<rparr>"

theorem principalSDValue_sound_witness:
  "\<exists>sd p' sids. principalSDValue ((client_of (fixed_conn [sample_account]))
       \<lparr>dsidGet := (\<lambda>w. Some (sampleDomainSID, None))\<rparr>) ''Computer.Create'' [(''sam'', ''a'')] (NewPool 1) () =
     Some (Inr sd, p', ()) \<and> PrincipalSIDs sd = Inr sids \<and> length sids = 1"
proof -
  let ?c = "(client_of (fixed_conn [sample_account]))\<lparr>dsidGet := (\<lambda>w. Some (sampleDomainSID, None))\<rparr>"
  let ?op = "''Computer.Create''"
  have run: "run ?c op d fn p w = run (client_of (fixed_conn [sample_account])) op d fn p w" for op d fn p w
    by (simp add: run_def)
  have f: "First sample_account ''objectSid'' = SIDEveryone" by (simp add: First_def sample_account_def)
  have n: "SIDEveryone \<noteq> []" by (simp add: SIDEveryone_def everyone_def)
  obtain flt where flt: "identityFilter (ad ?c) (''sam'', ''a'') = Inr flt" by (simp add: identityFilter_def sample_ad_def)
  have "run ?c ?op [] (search_entries (one_request ?c flt ''*'' [''objectSid''] [])) (NewPool 1) () =
      Some (Inr [sample_account], NewPool 1\<lparr>idle := [fixed_conn [sample_account]]\<rparr>, ())"
    unfolding run by (simp add: run_client_of search_entries_def fixed_conn_def one_request_def)
  with flt have g: "getOne ?c ?op (''sam'', ''a'') ''*'' [''objectSid''] [] (NewPool 1) () =
      Some (Inr sample_account, NewPool 1\<lparr>idle := [fixed_conn [sample_account]]\<rparr>, ())"
    by (simp add: getOne_def handle_def ret_def)
  have "sid_ok sampleDomainSID" "sid_ok SIDEveryone" "unat (sampleDomainSID ! 1) < 15"
    by (simp_all add: sid_ok_iff sampleDomainSID_def SIDEveryone_def everyone_def)
  then obtain sd where sd: "BuildPrincipalSD sampleDomainSID [SIDEveryone] = Inr sd"
    using BuildPrincipalSD_defined [of sampleDomainSID "[SIDEveryone]"] by auto
  have r: "principalSDValue ?c ?op [(''sam'', ''a'')] (NewPool 1) () =
      Some (Inr sd, NewPool 1\<lparr>idle := [fixed_conn [sample_account]]\<rparr>, ())"
    by (simp add: principalSDValue_def domainSID_def andThen_def handle_def ret_def g f n sd)
  from principalSDValue_sound [OF r] obtain sids where s: "list_all2 (sid_found ?c ?op) [(''sam'', ''a'')] sids"
    "8 + sum_list (map (\<lambda>s. 8 + length s) sids) < 65536 \<longrightarrow> PrincipalSIDs sd = Inr sids" "list_all sid_ok sids"
    by blast
  then obtain sid where "sids = [sid]" "sid_ok sid" by (auto simp: list_all2_Cons1)
  moreover from this have "length sid \<le> 1028"
    using unsigned_less [of "sid ! 1", where ?'a = nat] by (auto simp: sid_ok_iff)
  ultimately show ?thesis using r s(2) by auto
qed

end
