(* ===== verification/Computer.thy ===== *)
theory Computer
  imports User Principals
begin

text \<open>The root package, file \<open>computer.go\<close>: computer accounts, with resource-based constrained delegation.\<close>

definition computerAttrs :: "string list" where
  "computerAttrs = [''objectGUID'', ''distinguishedName'', ''name'', ''sAMAccountName'', ''objectSid'',
     ''dNSHostName'', ''description'', ''displayName'', ''location'', ''managedBy'', ''userAccountControl'',
     ''servicePrincipalName'', ''msDS-AllowedToDelegateTo'', ''msDS-AllowedToActOnBehalfOfOtherIdentity'',
     ''msDS-SupportedEncryptionTypes'', ''accountExpires'', ''operatingSystem'', ''operatingSystemVersion'']"

definition samWithDollar :: "string \<Rightarrow> string" where
  "samWithDollar s = (if HasSuffix s ''$'' then s else s @ ''$'')"

definition samWithoutDollar :: "string \<Rightarrow> string" where
  "samWithoutDollar s = TrimSuffix s ''$''"

definition strValues :: "entry \<Rightarrow> string \<Rightarrow> string list" where
  "strValues e attr = map str_of (map_get (Attrs e) attr)"

definition byteValues :: "string list \<Rightarrow> bytes list" where
  "byteValues vals = map bytes_of vals"

definition replaceMulti :: "modification list \<Rightarrow> string \<Rightarrow> string list \<Rightarrow> modification list" where
  "replaceMulti mods attr vals = mods @ [\<lparr>mOp = ModReplace, mType = attr, mVals = byteValues vals\<rparr>]"

section \<open>Fields that computers and service accounts share\<close>

definition account_create_uac :: "bool option \<Rightarrow> bool option \<Rightarrow> u32" where
  "account_create_uac enabled trusted =
     (let uac = (if enabled = Some False then UACWorkstationTrustAccount OR UACAccountDisable
                 else UACWorkstationTrustAccount)
      in if trusted = Some True then uac OR UACTrustedForDelegation else uac)"

definition account_current_uac :: "bool \<Rightarrow> bool \<Rightarrow> u32" where
  "account_current_uac enabled trusted =
     (let uac = (if \<not> enabled then UACWorkstationTrustAccount OR UACAccountDisable
                 else UACWorkstationTrustAccount)
      in if trusted then uac OR UACTrustedForDelegation else uac)"

definition account_want_uac :: "u32 \<Rightarrow> bool option \<Rightarrow> bool option \<Rightarrow> u32" where
  "account_want_uac current enabled trusted =
     (let out = (case enabled of None \<Rightarrow> current | Some b \<Rightarrow> set_bit_to UACAccountDisable (\<not> b) current)
      in case trusted of None \<Rightarrow> out | Some b \<Rightarrow> set_bit_to UACTrustedForDelegation b out)"

definition uac_mods :: "u32 \<Rightarrow> u32 \<Rightarrow> modification list" where
  "uac_mods current want =
     (if want \<noteq> current then [replace_mod ''userAccountControl'' (Uint32String want)] else [])"

definition add_multi :: "string \<Rightarrow> string list option \<Rightarrow> attribute list" where
  "add_multi attr vals =
     (case vals of
        None \<Rightarrow> []
      | Some vs \<Rightarrow> if 0 < length vs then [\<lparr>aType = attr, aVals = byteValues vs\<rparr>] else [])"

definition add_enc :: "string list option \<Rightarrow> attribute list" where
  "add_enc names =
     (case names of
        None \<Rightarrow> []
      | Some ns \<Rightarrow> [\<lparr>aType = ''msDS-SupportedEncryptionTypes'', aVals = [bytes_of (Uint32String (EncTypeBits ns))]\<rparr>])"

definition multi_mods :: "string \<Rightarrow> string list option \<Rightarrow> modification list \<Rightarrow> modification list" where
  "multi_mods attr vals mods = (case vals of None \<Rightarrow> mods | Some vs \<Rightarrow> replaceMulti mods attr vs)"

definition enc_mods :: "string list option \<Rightarrow> modification list" where
  "enc_mods names =
     (case names of
        None \<Rightarrow> []
      | Some ns \<Rightarrow> [replace_mod ''msDS-SupportedEncryptionTypes'' (Uint32String (EncTypeBits ns))])"

text \<open>The principals of an update: \<open>nil\<close> leaves them alone.\<close>

definition principal_mods ::
  "('w, 'id) core \<Rightarrow> string \<Rightarrow> 'id \<Rightarrow> string \<Rightarrow> 'id list option \<Rightarrow> ('w, modification list) prog" where
  "principal_mods c op i attr principals =
     (case principals of
        None \<Rightarrow> ret []
      | Some ids \<Rightarrow>
          andThen (identified c op i (principalSDValue c op ids)) (\<lambda>sd.
            ret [\<lparr>mOp = ModReplace, mType = attr, mVals = [sd]\<rparr>]))"

section \<open>The handlers\<close>

definition computer_model :: "'id adcore \<Rightarrow> entry \<Rightarrow> computer res" where
  "computer_model a e =
     bind_res (GUIDToString (First e ''objectGUID'')) (\<lambda>guid.
     bind_res (ContainerOf a (DN e)) (\<lambda>container.
     bind_res (uint_or_zero e ''userAccountControl'') (\<lambda>uac.
     bind_res (FileTimeToTime (FirstString e ''accountExpires'')) (\<lambda>expires.
     bind_res (uint_or_zero e ''msDS-SupportedEncryptionTypes'') (\<lambda>enc.
     Inr \<lparr>cGUID = guid, cDN = DN e, cName = FirstString e ''name'',
          cSamAccountName = samWithoutDollar (FirstString e ''sAMAccountName''),
          cContainer = container, cSID = mustSID e, cEnabled = (uac AND UACAccountDisable = 0),
          cDNSHostName = FirstString e ''dNSHostName'', cDescription = FirstString e ''description'',
          cDisplayName = FirstString e ''displayName'', cLocation = FirstString e ''location'',
          cManagedBy = FirstString e ''managedBy'',
          cTrustedForDelegation = (uac AND UACTrustedForDelegation \<noteq> 0),
          cServicePrincipalNames = strValues e ''servicePrincipalName'',
          cAllowedToDelegateTo = strValues e ''msDS-AllowedToDelegateTo'',
          cKerberosEncryptionType = EncTypeNames enc, cAccountExpiration = expires,
          cOperatingSystem = FirstString e ''operatingSystem'',
          cOperatingSystemVersion = FirstString e ''operatingSystemVersion'', cPrincipalsAllowed = []\<rparr>)))))"

text \<open>An entry with the principals of its descriptor, as \<open>Get\<close> and the loop of \<open>Search\<close> read it.\<close>

definition computer_of :: "('w, 'id) core \<Rightarrow> string \<Rightarrow> entry \<Rightarrow> ('w, computer) prog" where
  "computer_of c op e =
     (case computer_model (ad c) e of
        Inl err \<Rightarrow> fail (ad_err KindTransport op err)
      | Inr m \<Rightarrow>
          let raw = First e ''msDS-AllowedToActOnBehalfOfOtherIdentity'' in
          if 0 < length raw
          then andThen (principalGUIDs c op raw) (\<lambda>guids. ret (m\<lparr>cPrincipalsAllowed := guids\<rparr>))
          else ret m)"

definition computer_Get :: "('w, 'id) core \<Rightarrow> 'id \<Rightarrow> ('w, computer) prog" where
  "computer_Get c i =
     (let op = ''Computer.Get'' in
      andThen (getOne c op i ''computer'' computerAttrs [sdDACL]) (\<lambda>e. computer_of c op e))"

fun map_prog :: "('a \<Rightarrow> ('w, 'b) prog) \<Rightarrow> 'a list \<Rightarrow> ('w, 'b list) prog" where
  "map_prog f [] = ret []"
| "map_prog f (x # xs) = andThen (f x) (\<lambda>y. andThen (map_prog f xs) (\<lambda>ys. ret (y # ys)))"

definition computer_Search :: "('w, 'id) core \<Rightarrow> query \<Rightarrow> ('w, computer list) prog" where
  "computer_Search c q =
     (let op = ''Computer.Search'' in
      andThen (searchEntries c op q ''computer'' computerAttrs [sdDACL]) (\<lambda>entries.
        map_prog (computer_of c op) entries))"

definition computer_add_attrs :: "'id computer_spec \<Rightarrow> attribute list" where
  "computer_add_attrs spec =
     [\<lparr>aType = ''objectClass'', aVals = [bytes_of ''top'', bytes_of ''person'', bytes_of ''organizationalPerson'',
        bytes_of ''user'', bytes_of ''computer'']\<rparr>,
      \<lparr>aType = ''cn'', aVals = [bytes_of (csName spec)]\<rparr>,
      \<lparr>aType = ''sAMAccountName'', aVals = [bytes_of (samWithDollar (csSamAccountName spec))]\<rparr>,
      \<lparr>aType = ''userAccountControl'',
       aVals = [bytes_of (Uint32String (account_create_uac (csEnabled spec) (csTrustedForDelegation spec)))]\<rparr>] @
     add_string ''dNSHostName'' (csDNSHostName spec) @ add_string ''description'' (csDescription spec) @
     add_string ''displayName'' (csDisplayName spec) @ add_string ''location'' (csLocation spec) @
     add_string ''managedBy'' (csManagedBy spec) @
     add_multi ''servicePrincipalName'' (csServicePrincipalNames spec) @
     add_multi ''msDS-AllowedToDelegateTo'' (csAllowedToDelegateTo spec) @
     add_enc (csKerberosEncryptionType spec) @ add_expiration (csAccountExpiration spec)"

definition computer_Create ::
  "nat \<Rightarrow> ('w, 'id) core \<Rightarrow> 'id computer_spec \<Rightarrow> ('w, computer \<times> go_error option) prog" where
  "computer_Create fuel c spec =
     (let op = ''Computer.Create'' in
      case ComputerValidate (ad c) spec op True of
        Some err \<Rightarrow> fail err
      | None \<Rightarrow>
          let dn = cnRDN (ad c) (csName spec) @ '','' @ csContainer spec in
          andThen (case csPrincipalsAllowed spec of
                     None \<Rightarrow> ret []
                   | Some ids \<Rightarrow> andThen (principalSDValue c op ids) (\<lambda>sd.
                       ret [\<lparr>aType = ''msDS-AllowedToActOnBehalfOfOtherIdentity'', aVals = [sd]\<rparr>])) (\<lambda>principals.
          add_object c op dn (computer_add_attrs spec @ principals)
            (deletedFilter (ad c) ''computer'' (csName spec) (csContainer spec))
            (andThen (computer_Get c (ByDN (ad c) dn)) (\<lambda>created.
               with_wait fuel c (cGUID created) created))))"

text \<open>The modifications of an update, around those of the principals.\<close>

definition computer_mods ::
  "'id computer_spec \<Rightarrow> computer \<Rightarrow> modification list \<Rightarrow> modification list" where
  "computer_mods spec current principals =
     (let mods = (if csSamAccountName spec \<noteq> [] \<and> csSamAccountName spec \<noteq> cSamAccountName current
                  then [replace_mod ''sAMAccountName'' (samWithDollar (csSamAccountName spec))] else []);
          mods = appendStringMod mods ''dNSHostName'' (csDNSHostName spec) (cDNSHostName current);
          mods = appendStringMod mods ''description'' (csDescription spec) (cDescription current);
          mods = appendStringMod mods ''displayName'' (csDisplayName spec) (cDisplayName current);
          mods = appendStringMod mods ''location'' (csLocation spec) (cLocation current);
          mods = appendStringMod mods ''managedBy'' (csManagedBy spec) (cManagedBy current);
          mods = multi_mods ''servicePrincipalName'' (csServicePrincipalNames spec) mods;
          mods = multi_mods ''msDS-AllowedToDelegateTo'' (csAllowedToDelegateTo spec) mods;
          currentUAC = account_current_uac (cEnabled current) (cTrustedForDelegation current);
          wantUAC = account_want_uac currentUAC (csEnabled spec) (csTrustedForDelegation spec)
      in mods @ enc_mods (csKerberosEncryptionType spec) @ principals @ uac_mods currentUAC wantUAC @
         expiration_mods (csAccountExpiration spec))"

definition computer_Update ::
  "nat \<Rightarrow> ('w, 'id) core \<Rightarrow> 'id \<Rightarrow> 'id computer_spec \<Rightarrow> ('w, computer \<times> go_error option) prog" where
  "computer_Update fuel c i spec =
     (let op = ''Computer.Update'' in
      case ComputerValidate (ad c) spec op False of
        Some err \<Rightarrow> fail err
      | None \<Rightarrow>
          andThen (computer_Get c i) (\<lambda>current.
          andThen (principal_mods c op i ''msDS-AllowedToActOnBehalfOfOtherIdentity'' (csPrincipalsAllowed spec)) (\<lambda>principals.
          andThen (write_mods c op i (cDN current) (computer_mods spec current principals)) (\<lambda>_.
          andThen (rename_or_move c op i (cDN current) (cName current) (cContainer current)
                     (csName spec) (csContainer spec)) (\<lambda>_.
          andThen (computer_Get c (ByGUID (ad c) (cGUID current))) (\<lambda>updated.
            with_wait fuel c (cGUID updated) updated))))))"

definition computer_Delete :: "('w, 'id) core \<Rightarrow> 'id \<Rightarrow> ('w, unit) prog" where
  "computer_Delete c i = delete_object c ''Computer.Delete'' i (computer_Get c) cDN cGUID"

end
