(* ===== verification/Gmsa.thy ===== *)
theory Gmsa
  imports Computer
begin

text \<open>The root package, file \<open>gmsa.go\<close>: group-managed service accounts.\<close>

definition gmsaClass :: string where "gmsaClass = ''msDS-GroupManagedServiceAccount''"

definition defaultManagedPasswordInterval :: int where "defaultManagedPasswordInterval = 30"

definition gmsaAttrs :: "string list" where
  "gmsaAttrs = [''objectGUID'', ''distinguishedName'', ''name'', ''sAMAccountName'', ''objectSid'',
     ''dNSHostName'', ''description'', ''displayName'', ''userAccountControl'', ''servicePrincipalName'',
     ''msDS-GroupMSAMembership'', ''msDS-SupportedEncryptionTypes'', ''msDS-ManagedPasswordInterval'',
     ''accountExpires'']"

definition gmsa_model :: "'id adcore \<Rightarrow> entry \<Rightarrow> gmsa res" where
  "gmsa_model a e =
     bind_res (GUIDToString (First e ''objectGUID'')) (\<lambda>guid.
     bind_res (ContainerOf a (DN e)) (\<lambda>container.
     bind_res (uint_or_zero e ''userAccountControl'') (\<lambda>uac.
     bind_res (FileTimeToTime (FirstString e ''accountExpires'')) (\<lambda>expires.
     bind_res (uint_or_zero e ''msDS-SupportedEncryptionTypes'') (\<lambda>enc.
     bind_res (uint_or_zero e ''msDS-ManagedPasswordInterval'') (\<lambda>interval.
     Inr \<lparr>saGUID = guid, saDN = DN e, saName = FirstString e ''name'',
          saSamAccountName = samWithoutDollar (FirstString e ''sAMAccountName''),
          saContainer = container, saSID = mustSID e, saDNSHostName = FirstString e ''dNSHostName'',
          saDescription = FirstString e ''description'', saDisplayName = FirstString e ''displayName'',
          saEnabled = (uac AND UACAccountDisable = 0),
          saTrustedForDelegation = (uac AND UACTrustedForDelegation \<noteq> 0),
          saServicePrincipalNames = strValues e ''servicePrincipalName'',
          saKerberosEncryptionType = EncTypeNames enc, saManagedPasswordIntervalInDays = uint interval,
          saAccountExpiration = expires, saPrincipalsAllowed = []\<rparr>))))))"

definition gmsa_of :: "('w, 'id) core \<Rightarrow> string \<Rightarrow> entry \<Rightarrow> ('w, gmsa) prog" where
  "gmsa_of c op e =
     (case gmsa_model (ad c) e of
        Inl err \<Rightarrow> fail (ad_err KindTransport op err)
      | Inr m \<Rightarrow>
          let raw = First e ''msDS-GroupMSAMembership'' in
          if 0 < length raw
          then andThen (principalGUIDs c op raw) (\<lambda>guids. ret (m\<lparr>saPrincipalsAllowed := guids\<rparr>))
          else ret m)"

definition gmsa_Get :: "('w, 'id) core \<Rightarrow> 'id \<Rightarrow> ('w, gmsa) prog" where
  "gmsa_Get c i =
     (let op = ''ServiceAccount.Get'' in
      andThen (getOne c op i gmsaClass gmsaAttrs []) (\<lambda>e. gmsa_of c op e))"

definition gmsa_Search :: "('w, 'id) core \<Rightarrow> query \<Rightarrow> ('w, gmsa list) prog" where
  "gmsa_Search c q =
     (let op = ''ServiceAccount.Search'' in
      andThen (searchEntries c op q gmsaClass gmsaAttrs []) (\<lambda>entries. map_prog (gmsa_of c op) entries))"

text \<open>The attributes of a new account; \<open>host\<close> is the DNS host name the spec points to.\<close>

definition gmsa_add_attrs :: "'id gmsa_spec \<Rightarrow> string \<Rightarrow> bytes \<Rightarrow> attribute list" where
  "gmsa_add_attrs spec host membership =
     [\<lparr>aType = ''objectClass'', aVals = [bytes_of ''top'', bytes_of ''person'', bytes_of ''organizationalPerson'',
        bytes_of ''user'', bytes_of ''computer'', bytes_of gmsaClass]\<rparr>,
      \<lparr>aType = ''cn'', aVals = [bytes_of (msName spec)]\<rparr>,
      \<lparr>aType = ''sAMAccountName'', aVals = [bytes_of (samWithDollar (msSamAccountName spec))]\<rparr>,
      \<lparr>aType = ''userAccountControl'',
       aVals = [bytes_of (Uint32String (account_create_uac (msEnabled spec) (msTrustedForDelegation spec)))]\<rparr>,
      \<lparr>aType = ''dNSHostName'', aVals = [bytes_of host]\<rparr>,
      \<lparr>aType = ''msDS-GroupMSAMembership'', aVals = [membership]\<rparr>] @
     add_string ''description'' (msDescription spec) @ add_string ''displayName'' (msDisplayName spec) @
     add_multi ''servicePrincipalName'' (msServicePrincipalNames spec) @
     add_enc (msKerberosEncryptionType spec) @
     (let interval = (case msManagedPasswordIntervalInDays spec of
                        None \<Rightarrow> defaultManagedPasswordInterval | Some n \<Rightarrow> n)
      in [\<lparr>aType = ''msDS-ManagedPasswordInterval'', aVals = [bytes_of (FormatInt interval)]\<rparr>]) @
     add_expiration (msAccountExpiration spec)"

text \<open>The dereference of a \<open>nil\<close> host name, which \<open>Validate\<close> is there to exclude, panics.\<close>

definition gmsa_Create :: "nat \<Rightarrow> ('w, 'id) core \<Rightarrow> 'id gmsa_spec \<Rightarrow> ('w, gmsa \<times> go_error option) prog" where
  "gmsa_Create fuel c spec =
     (let op = ''ServiceAccount.Create'' in
      case GMSAValidate (ad c) spec op True of
        Some err \<Rightarrow> fail err
      | None \<Rightarrow>
          let dn = cnRDN (ad c) (msName spec) @ '','' @ msContainer spec in
          andThen (principalSDValue c op (case msPrincipalsAllowed spec of None \<Rightarrow> [] | Some ids \<Rightarrow> ids)) (\<lambda>membership.
          case msDNSHostName spec of
            None \<Rightarrow> fail (GoPanic ''nil pointer dereference'')
          | Some host \<Rightarrow>
              add_object c op dn (gmsa_add_attrs spec host membership)
                (deletedFilter (ad c) gmsaClass (msName spec) (msContainer spec))
                (andThen (gmsa_Get c (ByDN (ad c) dn)) (\<lambda>created.
                   with_wait fuel c (saGUID created) created))))"

definition gmsa_mods :: "'id gmsa_spec \<Rightarrow> gmsa \<Rightarrow> modification list \<Rightarrow> modification list" where
  "gmsa_mods spec current principals =
     (let mods = (if msSamAccountName spec \<noteq> [] \<and> msSamAccountName spec \<noteq> saSamAccountName current
                  then [replace_mod ''sAMAccountName'' (samWithDollar (msSamAccountName spec))] else []);
          mods = appendStringMod mods ''dNSHostName'' (msDNSHostName spec) (saDNSHostName current);
          mods = appendStringMod mods ''description'' (msDescription spec) (saDescription current);
          mods = appendStringMod mods ''displayName'' (msDisplayName spec) (saDisplayName current);
          mods = multi_mods ''servicePrincipalName'' (msServicePrincipalNames spec) mods;
          currentUAC = account_current_uac (saEnabled current) (saTrustedForDelegation current);
          wantUAC = account_want_uac currentUAC (msEnabled spec) (msTrustedForDelegation spec)
      in mods @ enc_mods (msKerberosEncryptionType spec) @ principals @ uac_mods currentUAC wantUAC @
         expiration_mods (msAccountExpiration spec))"

definition gmsa_Update ::
  "nat \<Rightarrow> ('w, 'id) core \<Rightarrow> 'id \<Rightarrow> 'id gmsa_spec \<Rightarrow> ('w, gmsa \<times> go_error option) prog" where
  "gmsa_Update fuel c i spec =
     (let op = ''ServiceAccount.Update'' in
      case GMSAValidate (ad c) spec op False of
        Some err \<Rightarrow> fail err
      | None \<Rightarrow>
          andThen (gmsa_Get c i) (\<lambda>current.
          andThen (principal_mods c op i ''msDS-GroupMSAMembership'' (msPrincipalsAllowed spec)) (\<lambda>principals.
          andThen (write_mods c op i (saDN current) (gmsa_mods spec current principals)) (\<lambda>_.
          andThen (rename_or_move c op i (saDN current) (saName current) (saContainer current)
                     (msName spec) (msContainer spec)) (\<lambda>_.
          andThen (gmsa_Get c (ByGUID (ad c) (saGUID current))) (\<lambda>updated.
            with_wait fuel c (saGUID updated) updated))))))"

definition gmsa_Delete :: "('w, 'id) core \<Rightarrow> 'id \<Rightarrow> ('w, unit) prog" where
  "gmsa_Delete c i = delete_object c ''ServiceAccount.Delete'' i (gmsa_Get c) saDN saGUID"

end
