(* ===== verification/Updates.thy ===== *)
theory Updates
  imports Memory Gmsa
begin

text \<open>
  What an update leaves behind: the attributes of an object after the modifications the handlers of
  groups and users compute, and the object that a read then sees.
\<close>

section \<open>Reading an attribute after modifications\<close>

lemma apply_delete:
  assumes "attrs_ok attrs"
    and attrs': "attrs' = apply_mod \<lparr>mOp = ModDelete, mType = name, mVals = []\<rparr> attrs"
  shows "attrs_ok attrs'"
    "lookupFold attrs' name' = (if EqualFold name' name then None else lookupFold attrs name')"
proof -
  let ?k = "attrKey attrs name"
  note k = attrKey_fold [OF assms(1), of name]
  have a: "attrs' = map_delete ?k attrs" by (simp add: attrs' apply_mod_def Let_def)
  show ok: "attrs_ok attrs'"
    unfolding a using assms(1) by (auto simp: attrs_ok_def map_delete_def distinct_map intro: inj_on_subset)
  show "lookupFold attrs' name' = (if EqualFold name' name then None else lookupFold attrs name')"
  proof (cases "EqualFold name' name")
    case True
    have "\<not> EqualFold (fst kv) name'" if "kv \<in> set attrs'" for kv
    proof
      assume "EqualFold (fst kv) name'"
      with True have "EqualFold (fst kv) name" by (simp add: EqualFold_def)
      with that k(2) show False by (auto simp: a map_delete_def)
    qed
    with True show ?thesis by (simp add: lookupFold_None)
  next
    case False
    then have n: "\<not> EqualFold ?k name'" using k(1) by (simp add: EqualFold_def)
    show ?thesis
    proof (cases "lookupFold attrs name'")
      case None
      then have "lookupFold attrs' name' = None" by (auto simp: lookupFold_None a map_delete_def)
      with None False show ?thesis by simp
    next
      case (Some v)
      then obtain k' where k': "(k', v) \<in> set attrs" "EqualFold k' name'" using lookupFold_SomeD by blast
      with n have "(k', v) \<in> set attrs'" by (auto simp: a map_delete_def)
      from lookupFold_Some [OF ok this k'(2)] Some False show ?thesis by simp
    qed
  qed
qed

lemma First_lookup:
  assumes "attrs_ok (Attrs e)"
  shows "First e name = (case lookupFold (Attrs e) name of Some (v # _) \<Rightarrow> v | _ \<Rightarrow> [])"
proof -
  let ?P = "\<lambda>kv. 0 < length (snd kv) \<and> EqualFold (fst kv) name"
  have inj: "inj_on (\<lambda>kv. ToLower (fst kv)) (set (Attrs e))" using assms by (simp add: attrs_ok_def distinct_map)
  have uniq: "x = y" if "x \<in> set (Attrs e)" "y \<in> set (Attrs e)" "EqualFold (fst x) name" "EqualFold (fst y) name" for x y
    using inj_onD [OF inj, of x y] that by (simp add: EqualFold_def)
  show ?thesis
  proof (cases "lookupFold (Attrs e) name")
    case None
    then have "map_of (Attrs e) name = None"
      by (auto simp: lookupFold_None map_of_eq_None_iff)
    moreover have "find ?P (Attrs e) = None" using None by (auto simp: find_None_iff lookupFold_None)
    ultimately show ?thesis using None by (simp add: First_def)
  next
    case (Some vs)
    then obtain k where k: "(k, vs) \<in> set (Attrs e)" "EqualFold k name" using lookupFold_SomeD by blast
    have m: "map_of (Attrs e) name = Some ws \<Longrightarrow> ws = vs" for ws
      using uniq [of "(name, ws)" "(k, vs)"] k by (auto dest: map_of_SomeD)
    have f: "vs \<noteq> [] \<Longrightarrow> find ?P (Attrs e) = Some (k, vs)"
      by (rule find_unique [where P = ?P]) (use k uniq in auto)
    have "vs = [] \<Longrightarrow> find ?P (Attrs e) = None" using uniq [of _ "(k, vs)"] k by (fastforce simp: find_None_iff)
    with m f Some show ?thesis
      by (cases vs) (auto simp: First_def split: option.split list.split)
  qed
qed

text \<open>The modifications the handlers compute: a replace by one value, or the removal of an attribute.\<close>

definition plain_mod :: "modification \<Rightarrow> bool" where
  "plain_mod m \<longleftrightarrow> (\<exists>v. m = \<lparr>mOp = ModReplace, mType = mType m, mVals = [v]\<rparr>) \<or>
     m = \<lparr>mOp = ModDelete, mType = mType m, mVals = []\<rparr>"

definition mod_value :: "modification \<Rightarrow> bytes" where
  "mod_value m = (case mVals m of v # _ \<Rightarrow> v | [] \<Rightarrow> [])"

lemma First_apply_mod:
  assumes "attrs_ok attrs" "plain_mod m"
  shows "attrs_ok (apply_mod m attrs)"
    "First \<lparr>DN = d, Attrs = apply_mod m attrs\<rparr> name =
       (if EqualFold name (mType m) then mod_value m else First \<lparr>DN = d, Attrs = attrs\<rparr> name)"
proof -
  have "attrs_ok (apply_mod m attrs) \<and> First \<lparr>DN = d, Attrs = apply_mod m attrs\<rparr> name =
       (if EqualFold name (mType m) then mod_value m else First \<lparr>DN = d, Attrs = attrs\<rparr> name)"
  proof (cases "\<exists>v. m = \<lparr>mOp = ModReplace, mType = mType m, mVals = [v]\<rparr>")
    case True
    then obtain v n where m: "m = \<lparr>mOp = ModReplace, mType = n, mVals = [v]\<rparr>" by metis
    note r = apply_replace [OF assms(1), of "[v]", OF _ refl, simplified]
    show ?thesis using r assms(1) by (simp add: m First_lookup mod_value_def)
  next
    case False
    with assms(2) obtain n where m: "m = \<lparr>mOp = ModDelete, mType = n, mVals = []\<rparr>" by (metis plain_mod_def)
    note r = apply_delete [OF assms(1) refl]
    show ?thesis using r assms(1) by (simp add: m First_lookup mod_value_def)
  qed
  then show "attrs_ok (apply_mod m attrs)"
    "First \<lparr>DN = d, Attrs = apply_mod m attrs\<rparr> name =
       (if EqualFold name (mType m) then mod_value m else First \<lparr>DN = d, Attrs = attrs\<rparr> name)"
    by simp_all
qed

text \<open>The last modification of an attribute counts.\<close>

lemma First_apply_mods:
  assumes "attrs_ok attrs" "list_all plain_mod mods"
  shows "attrs_ok (fold apply_mod mods attrs) \<and>
    First \<lparr>DN = d, Attrs = fold apply_mod mods attrs\<rparr> name =
      (case find (\<lambda>m. EqualFold name (mType m)) (rev mods) of
         Some m \<Rightarrow> mod_value m | None \<Rightarrow> First \<lparr>DN = d, Attrs = attrs\<rparr> name)"
  using assms
proof (induction mods rule: rev_induct)
  case (snoc m mods)
  then have "attrs_ok (fold apply_mod mods attrs)" "plain_mod m" by simp_all
  with First_apply_mod(1) [OF this] First_apply_mod(2) [OF this, of d name] snoc show ?case by simp
qed simp


section \<open>The modifications of a field\<close>

lemma find_append: "find P (xs @ ys) = (case find P xs of None \<Rightarrow> find P ys | Some x \<Rightarrow> Some x)"
  by (induction xs) auto

text \<open>A field that is not set keeps its value; one that is set has the value asked for.\<close>

definition wanted :: "string option \<Rightarrow> string \<Rightarrow> string" where
  "wanted want current = (case want of None \<Rightarrow> current | Some v \<Rightarrow> v)"

lemma appendStringMod_eq:
  "appendStringMod mods attr want current = mods @ appendStringMod [] attr want current"
  by (simp add: appendStringMod_def split: option.split)

lemma appendStringMod_plain: "list_all plain_mod (appendStringMod [] attr want current)"
  by (simp add: appendStringMod_def plain_mod_def replace_mod_def split: option.split)

lemma find_appendStringMod:
  "find (\<lambda>m. EqualFold name (mType m)) (rev (appendStringMod [] attr want current)) =
     (if EqualFold name attr \<and> wanted want current \<noteq> current then Some (hd (appendStringMod [] attr want current)) else None)"
  "wanted want current \<noteq> current \<Longrightarrow> mod_value (hd (appendStringMod [] attr want current)) = bytes_of (wanted want current)"
  by (auto simp: appendStringMod_def wanted_def replace_mod_def mod_value_def bytes_of_def split: option.split)

lemma replace_mod_simps [simp]: "mType (replace_mod attr v) = attr" "mod_value (replace_mod attr v) = bytes_of v"
  "plain_mod (replace_mod attr v)"
  by (simp_all add: replace_mod_def mod_value_def plain_mod_def)

lemma FirstString_bytes [simp]: "str_of (bytes_of s) = s"
  by simp

text \<open>What a list of modifications makes of an attribute, segment by segment.\<close>

definition mods_value :: "modification list \<Rightarrow> string \<Rightarrow> string \<Rightarrow> string" where
  "mods_value mods name old =
     (case find (\<lambda>m. EqualFold name (mType m)) (rev mods) of Some m \<Rightarrow> str_of (mod_value m) | None \<Rightarrow> old)"

lemma mods_value_append: "mods_value (xs @ ys) name old = mods_value ys name (mods_value xs name old)"
  by (simp add: mods_value_def find_append split: option.split)

lemma mods_value_Nil [simp]: "mods_value [] name old = old"
  by (simp add: mods_value_def)

lemma mods_value_single [simp]: "mods_value [replace_mod attr v] name old = (if EqualFold name attr then v else old)"
  by (simp add: mods_value_def)

lemma mods_value_string:
  "mods_value (appendStringMod mods attr want current) name old =
     (if EqualFold name attr \<and> wanted want current \<noteq> current then wanted want current else mods_value mods name old)"
  by (subst appendStringMod_eq) (simp add: mods_value_append, simp add: mods_value_def find_appendStringMod)


section \<open>The stored modifications\<close>

text \<open>
  Every modification is of one of the named attributes; all others keep their value.
\<close>

definition plain_mods :: "string list \<Rightarrow> modification list \<Rightarrow> bool" where
  "plain_mods names mods \<longleftrightarrow> list_all (\<lambda>m. plain_mod m \<and> mType m \<in> set names) mods"

lemma plain_mods_simps [simp]:
  "plain_mods names []" "plain_mods names (xs @ ys) \<longleftrightarrow> plain_mods names xs \<and> plain_mods names ys"
  "plain_mods names [replace_mod attr v] \<longleftrightarrow> attr \<in> set names"
  "attr \<in> set names \<Longrightarrow> plain_mods names (appendStringMod mods attr want current) \<longleftrightarrow> plain_mods names mods"
  using appendStringMod_plain [of attr want current]
  by (auto simp: plain_mods_def list_all_iff appendStringMod_def replace_mod_def plain_mod_def split: option.split)

definition lower_names :: "string list \<Rightarrow> string list" where
  "lower_names names = map ToLower names"

lemma FirstString_mods:
  assumes "attrs_ok attrs" "plain_mods names mods"
  shows "FirstString \<lparr>DN = d, Attrs = fold apply_mod mods attrs\<rparr> name =
      mods_value mods name (FirstString \<lparr>DN = d, Attrs = attrs\<rparr> name)"
    "ToLower name \<notin> set (lower_names names) \<Longrightarrow>
      First \<lparr>DN = d, Attrs = fold apply_mod mods attrs\<rparr> name = First \<lparr>DN = d, Attrs = attrs\<rparr> name"
proof -
  have all: "list_all plain_mod mods" using assms(2) by (auto simp: plain_mods_def list_all_iff)
  note f = First_apply_mods [OF assms(1) all, of d name]
  show "FirstString \<lparr>DN = d, Attrs = fold apply_mod mods attrs\<rparr> name =
      mods_value mods name (FirstString \<lparr>DN = d, Attrs = attrs\<rparr> name)"
    using f by (simp add: FirstString_def mods_value_def split: option.split)
  show "First \<lparr>DN = d, Attrs = fold apply_mod mods attrs\<rparr> name = First \<lparr>DN = d, Attrs = attrs\<rparr> name"
    if "ToLower name \<notin> set (lower_names names)"
  proof -
    have "find (\<lambda>m. EqualFold name (mType m)) (rev mods) = None"
      using that assms(2) by (auto simp: find_None_iff plain_mods_def lower_names_def list_all_iff EqualFold_def)
    with f show ?thesis by simp
  qed
qed

section \<open>Users\<close>

text \<open>
  The user an update asks for, field by field: what the specification leaves open stays as it is.
\<close>

definition wanted_flag :: "bool option \<Rightarrow> bool \<Rightarrow> bool" where
  "wanted_flag want current = (case want of None \<Rightarrow> current | Some b \<Rightarrow> b)"

definition wanted_expiration :: "expiration \<Rightarrow> int option \<Rightarrow> int option" where
  "wanted_expiration e current =
     (case e of
        ExpirationKeep \<Rightarrow> current
      | ExpirationClear \<Rightarrow> None
      | ExpirationSet t \<Rightarrow> (case FileTimeToTime (TimeToFileTime t) of Inr x \<Rightarrow> x | Inl _ \<Rightarrow> None))"

definition user_asked :: "user_spec \<Rightarrow> user \<Rightarrow> user" where
  "user_asked spec u = u
     \<lparr>uSamAccountName := (if usSamAccountName spec = [] then uSamAccountName u else usSamAccountName spec),
      uUserPrincipalName := wanted (usUserPrincipalName spec) (uUserPrincipalName u),
      uDisplayName := wanted (usDisplayName spec) (uDisplayName u),
      uGivenName := wanted (usGivenName spec) (uGivenName u),
      uSurname := wanted (usSurname spec) (uSurname u),
      uDescription := wanted (usDescription spec) (uDescription u),
      uEnabled := wanted_flag (usEnabled spec) (uEnabled u),
      uPasswordExpires := wanted_flag (usPasswordExpires spec) (uPasswordExpires u),
      uChangePasswordAtLogon := wanted_flag (usChangePasswordAtLogon spec) (uChangePasswordAtLogon u),
      uAccountExpiration := wanted_expiration (usAccountExpiration spec) (uAccountExpiration u)\<rparr>"

lemma applyUAC_bits:
  "applyUAC (user_current_uac u) spec AND UACAccountDisable = 0 \<longleftrightarrow> wanted_flag (usEnabled spec) (uEnabled u)"
  "applyUAC (user_current_uac u) spec AND UACDontExpirePassword = 0 \<longleftrightarrow> wanted_flag (usPasswordExpires spec) (uPasswordExpires u)"
  by (cases "usEnabled spec"; cases "usPasswordExpires spec"; cases "uEnabled u"; cases "uPasswordExpires u";
      simp add: applyUAC_def user_current_uac_def set_bit_to_def wanted_flag_def UACAccountDisable_def
        UACDontExpirePassword_def UACNormalAccount_def)+

text \<open>
  The value is rebuilt from the three flags the user type knows: every other flag of the account (a
  smart-card requirement, say) is cleared by the update that changes one of them.
\<close>

lemma user_Update_drops_flags:
  "applyUAC (user_current_uac u) spec AND NOT (UACNormalAccount OR UACAccountDisable OR UACDontExpirePassword) = 0"
  by (cases "usEnabled spec"; cases "usPasswordExpires spec"; cases "uEnabled u"; cases "uPasswordExpires u";
      simp add: applyUAC_def user_current_uac_def set_bit_to_def UACAccountDisable_def
        UACDontExpirePassword_def UACNormalAccount_def)+

lemma ParseUint32_Uint32String: "ParseUint32 (Uint32String v) = Inr v" "Uint32String v \<noteq> []"
  using parse_signed_word [of v] fmt_nat_10_ok(1) by (simp_all add: ParseUint32_def Uint32String_def FormatInt_def)

lemma FileTimeToTime_TimeToFileTime: "\<exists>x. FileTimeToTime (TimeToFileTime t) = Inr x"
  using wrap64_range ParseInt_FormatInt by (simp add: FileTimeToTime_def TimeToFileTime_def)

lemma FileTimeToTime_0: "FileTimeToTime ''0'' = Inr None"
proof -
  have "FormatInt 0 = ''0''" by (simp add: FormatInt_def fmt_nat.simps digit_char_def char_of_def bit_0)
  with ParseInt_FormatInt [of 0] show ?thesis by (simp add: FileTimeToTime_def)
qed

definition userModAttrs :: "string list" where
  "userModAttrs = [''sAMAccountName'', ''userPrincipalName'', ''displayName'', ''givenName'', ''sn'', ''description'',
     ''userAccountControl'', ''accountExpires'', ''pwdLastSet'']"

lemma user_mods_plain: "plain_mods userModAttrs (user_mods spec u)"
  by (simp add: user_mods_def Let_def userModAttrs_def expiration_mods_def split: option.split expiration.split)


lemma lower_user_names:
  "ToLower ''sAMAccountName'' = ''samaccountname''" "ToLower ''userPrincipalName'' = ''userprincipalname''"
  "ToLower ''displayName'' = ''displayname''" "ToLower ''givenName'' = ''givenname''" "ToLower ''sn'' = ''sn''"
  "ToLower ''description'' = ''description''" "ToLower ''userAccountControl'' = ''useraccountcontrol''"
  "ToLower ''accountExpires'' = ''accountexpires''" "ToLower ''pwdLastSet'' = ''pwdlastset''"
  "ToLower ''objectGUID'' = ''objectguid''" "ToLower ''name'' = ''name''" "ToLower ''objectSid'' = ''objectsid''"
  "ToLower ''nTSecurityDescriptor'' = ''ntsecuritydescriptor''" "ToLower ''groupType'' = ''grouptype''"
  "ToLower ''managedBy'' = ''managedby''"
  by (simp_all add: ToLower_def lower_char_def is_upper_def char_of_def bit_0)

lemmas mods_value_simps = Let_def mods_value_append mods_value_string EqualFold_def lower_user_names

lemma user_mods_strings:
  "mods_value (user_mods spec u) ''sAMAccountName'' (uSamAccountName u) = uSamAccountName (user_asked spec u)"
  "mods_value (user_mods spec u) ''userPrincipalName'' (uUserPrincipalName u) = uUserPrincipalName (user_asked spec u)"
  "mods_value (user_mods spec u) ''displayName'' (uDisplayName u) = uDisplayName (user_asked spec u)"
  "mods_value (user_mods spec u) ''givenName'' (uGivenName u) = uGivenName (user_asked spec u)"
  "mods_value (user_mods spec u) ''sn'' (uSurname u) = uSurname (user_asked spec u)"
  "mods_value (user_mods spec u) ''description'' (uDescription u) = uDescription (user_asked spec u)"
  by (auto simp: user_mods_def mods_value_simps user_asked_def expiration_mods_def split: option.split expiration.split)

lemma user_mods_others:
  "mods_value (user_mods spec u) ''userAccountControl'' old =
     (if applyUAC (user_current_uac u) spec \<noteq> user_current_uac u then Uint32String (applyUAC (user_current_uac u) spec) else old)"
  "mods_value (user_mods spec u) ''accountExpires'' old =
     (case usAccountExpiration spec of ExpirationKeep \<Rightarrow> old | ExpirationClear \<Rightarrow> ''0'' | ExpirationSet t \<Rightarrow> TimeToFileTime t)"
  "(mods_value (user_mods spec u) ''pwdLastSet'' old = ''0'') =
     (if wanted_flag (usChangePasswordAtLogon spec) (uChangePasswordAtLogon u) = uChangePasswordAtLogon u then old = ''0''
      else wanted_flag (usChangePasswordAtLogon spec) (uChangePasswordAtLogon u))"
  by (auto simp: user_mods_def mods_value_simps user_asked_def expiration_mods_def wanted_flag_def split: option.split expiration.split)


definition can_change :: "entry \<Rightarrow> bool res" where
  "can_change e =
     (let sd = First e ''nTSecurityDescriptor'' in
      if 0 < length sd
      then bind_res (HasDeniedObjectRight sd RightControlAccess changePasswordRight changePasswordTrustees)
             (\<lambda>denied. Inr (\<not> denied))
      else Inr True)"

text \<open>\<open>user_model\<close> field by field.\<close>

lemma user_model_Inr:
  "user_model a e = Inr u \<longleftrightarrow>
     GUIDToString (First e ''objectGUID'') = Inr (uGUID u) \<and> ContainerOf a (DN e) = Inr (uContainer u) \<and>
     (\<exists>uac. uint_or_zero e ''userAccountControl'' = Inr uac \<and> uEnabled u = (uac AND UACAccountDisable = 0) \<and>
        uPasswordExpires u = (uac AND UACDontExpirePassword = 0)) \<and>
     FileTimeToTime (FirstString e ''accountExpires'') = Inr (uAccountExpiration u) \<and>
     can_change e = Inr (uCanChangePassword u) \<and> uDN u = DN e \<and> uName u = FirstString e ''name'' \<and>
     uSamAccountName u = FirstString e ''sAMAccountName'' \<and> uUserPrincipalName u = FirstString e ''userPrincipalName'' \<and>
     uDisplayName u = FirstString e ''displayName'' \<and> uGivenName u = FirstString e ''givenName'' \<and>
     uSurname u = FirstString e ''sn'' \<and> uDescription u = FirstString e ''description'' \<and>
     uChangePasswordAtLogon u = (FirstString e ''pwdLastSet'' = ''0'') \<and> uSID u = mustSID e"
  unfolding user_model_def can_change_def [symmetric] by (cases u) auto

lemma user_model_after:
  assumes "attrs_ok attrs" "user_model a \<lparr>DN = k, Attrs = attrs\<rparr> = Inr u"
  shows "user_model a \<lparr>DN = k, Attrs = fold apply_mod (user_mods spec u) attrs\<rparr> = Inr (user_asked spec u)"
proof -
  let ?e = "\<lparr>DN = k, Attrs = attrs\<rparr>" and ?e' = "\<lparr>DN = k, Attrs = fold apply_mod (user_mods spec u) attrs\<rparr>"
  let ?want = "applyUAC (user_current_uac u) spec"
  note plain = user_mods_plain [of spec u]
  note s = FirstString_mods(1) [OF assms(1) plain, of k]
  note m = assms(2) [unfolded user_model_Inr]
  have kept: "First ?e' name = First ?e name" if "ToLower name \<notin> set (lower_names userModAttrs)" for name
    by (rule FirstString_mods(2) [OF assms(1) plain that])
  have keep: "First ?e' ''objectGUID'' = First ?e ''objectGUID''"
    "First ?e' ''nTSecurityDescriptor'' = First ?e ''nTSecurityDescriptor''"
    "First ?e' ''objectSid'' = First ?e ''objectSid''" "First ?e' ''name'' = First ?e ''name''"
    by (rule kept, simp add: lower_names_def userModAttrs_def lower_user_names)+
  then have keep': "can_change ?e' = can_change ?e" "mustSID ?e' = mustSID ?e"
      "FirstString ?e' ''name'' = FirstString ?e ''name''"
    by (simp_all only: can_change_def mustSID_def FirstString_def)
  from m obtain uac where uac: "uint_or_zero ?e ''userAccountControl'' = Inr uac"
    "uEnabled u = (uac AND UACAccountDisable = 0)" "uPasswordExpires u = (uac AND UACDontExpirePassword = 0)"
    by blast
  have uac': "uint_or_zero ?e' ''userAccountControl'' = Inr (if ?want \<noteq> user_current_uac u then ?want else uac)"
    using uac(1) by (auto simp: uint_or_zero_def Let_def s user_mods_others(1) ParseUint32_Uint32String split: if_splits)
  have en: "uEnabled (user_asked spec u) = ((if ?want \<noteq> user_current_uac u then ?want else uac) AND UACAccountDisable = 0)"
    "uPasswordExpires (user_asked spec u) = ((if ?want \<noteq> user_current_uac u then ?want else uac) AND UACDontExpirePassword = 0)"
    using applyUAC_bits [of u spec] applyUAC_bits [of u "spec\<lparr>usEnabled := None, usPasswordExpires := None\<rparr>"] uac(2,3)
    by (auto simp: user_asked_def wanted_flag_def applyUAC_def)
  obtain x where x: "\<And>t. FileTimeToTime (TimeToFileTime t) = Inr (x t)" using FileTimeToTime_TimeToFileTime by metis
  have ex: "FileTimeToTime (FirstString ?e' ''accountExpires'') = Inr (uAccountExpiration (user_asked spec u))"
    using m by (simp add: s user_mods_others(2) user_asked_def wanted_expiration_def x FileTimeToTime_0 split: expiration.split)
  have strings: "uSamAccountName (user_asked spec u) = FirstString ?e' ''sAMAccountName''"
    "uUserPrincipalName (user_asked spec u) = FirstString ?e' ''userPrincipalName''"
    "uDisplayName (user_asked spec u) = FirstString ?e' ''displayName''"
    "uGivenName (user_asked spec u) = FirstString ?e' ''givenName''"
    "uSurname (user_asked spec u) = FirstString ?e' ''sn''"
    "uDescription (user_asked spec u) = FirstString ?e' ''description''"
    using m by (simp_all only: s user_mods_strings [symmetric])
  have pw: "uChangePasswordAtLogon (user_asked spec u) = (FirstString ?e' ''pwdLastSet'' = ''0'')"
    using m by (auto simp: s user_mods_others(3) user_asked_def)
  have same: "uGUID (user_asked spec u) = uGUID u" "uContainer (user_asked spec u) = uContainer u"
    "uCanChangePassword (user_asked spec u) = uCanChangePassword u" "uDN (user_asked spec u) = uDN u"
    "uName (user_asked spec u) = uName u" "uSID (user_asked spec u) = uSID u"
    by (simp_all add: user_asked_def)
  show ?thesis
    unfolding user_model_Inr same keep keep' using uac' en ex strings pw m by auto
qed


text \<open>An update asked for twice has nothing left to write but the expiry date, which is written every time.\<close>

lemma user_mods_settled: "user_mods spec (user_asked spec u) = expiration_mods (usAccountExpiration spec)"
proof -
  have "user_current_uac (user_asked spec u) = applyUAC (user_current_uac u) spec"
    "applyUAC (applyUAC (user_current_uac u) spec) spec = applyUAC (user_current_uac u) spec"
    by (cases "usEnabled spec"; cases "usPasswordExpires spec"; cases "uEnabled u"; cases "uPasswordExpires u";
        simp add: applyUAC_def user_current_uac_def set_bit_to_def user_asked_def wanted_flag_def UACAccountDisable_def
          UACDontExpirePassword_def UACNormalAccount_def)+
  moreover have "appendStringMod mods attr want (wanted want current) = mods" for mods attr want current
    by (simp add: appendStringMod_def wanted_def split: option.split)
  ultimately show ?thesis
    by (simp add: user_mods_def Let_def) (auto simp: user_asked_def wanted_flag_def split: option.split)
qed

section \<open>Groups\<close>

definition group_asked :: "group_spec \<Rightarrow> group \<Rightarrow> group" where
  "group_asked spec g = g
     \<lparr>gSamAccountName := (if gsSamAccountName spec = [] then gSamAccountName g else gsSamAccountName spec),
      gDescription := wanted (gsDescription spec) (gDescription g),
      gManagedBy := wanted (gsManagedBy spec) (gManagedBy g),
      gScope := (if gsScope spec = GroupScopeOther [] then gScope g else gsScope spec),
      gCategory := (if gsCategory spec = GroupCategoryOther [] then gCategory g else gsCategory spec)\<rparr>"

fun named_scope :: "group_scope \<Rightarrow> bool" where
  "named_scope (GroupScopeOther s) = False"
| "named_scope _ = True"

fun named_category :: "group_category \<Rightarrow> bool" where
  "named_category (GroupCategoryOther s) = False"
| "named_category _ = True"

lemma ScopeAndCategory_named:
  "ScopeAndCategory v = (s, c) \<Longrightarrow> named_scope s \<and> named_category c"
  by (auto simp: ScopeAndCategory_def Let_def split: if_split_asm)

lemma ScopeAndCategory_GroupTypeValue:
  "named_scope s \<Longrightarrow> named_category c \<Longrightarrow> ScopeAndCategory (GroupTypeValue s c) = (s, c)"
  by (cases s; cases c; simp add: ScopeAndCategory_def GroupTypeValue_def group_type_defs)

definition groupModAttrs :: "string list" where
  "groupModAttrs = [''sAMAccountName'', ''description'', ''managedBy'', ''groupType'']"

lemma group_mods_plain: "plain_mods groupModAttrs (group_mods spec g)"
  by (simp add: group_mods_def Let_def groupModAttrs_def)

lemma group_mods_strings:
  "mods_value (group_mods spec g) ''sAMAccountName'' (gSamAccountName g) = gSamAccountName (group_asked spec g)"
  "mods_value (group_mods spec g) ''description'' (gDescription g) = gDescription (group_asked spec g)"
  "mods_value (group_mods spec g) ''managedBy'' (gManagedBy g) = gManagedBy (group_asked spec g)"
  "mods_value (group_mods spec g) ''groupType'' old =
     (if gScope (group_asked spec g) \<noteq> gScope g \<or> gCategory (group_asked spec g) \<noteq> gCategory g
      then GroupTypeString (GroupTypeValue (gScope (group_asked spec g)) (gCategory (group_asked spec g))) else old)"
  by (auto simp: group_mods_def mods_value_simps group_asked_def)

definition group_sid :: "entry \<Rightarrow> string res" where
  "group_sid e = (let raw = First e ''objectSid'' in if 0 < length raw then SIDToString raw else Inr [])"

lemma group_model_Inr:
  "group_model a e = Inr g \<longleftrightarrow>
     GUIDToString (First e ''objectGUID'') = Inr (gGUID g) \<and> ContainerOf a (DN e) = Inr (gContainer g) \<and>
     group_sid e = Inr (gSID g) \<and>
     (\<exists>v. ParseGroupType (FirstString e ''groupType'') = Inr v \<and> ScopeAndCategory v = (gScope g, gCategory g)) \<and>
     gDN g = DN e \<and> gName g = FirstString e ''name'' \<and> gSamAccountName g = FirstString e ''sAMAccountName'' \<and>
     gDescription g = FirstString e ''description'' \<and> gManagedBy g = FirstString e ''managedBy''"
    unfolding group_model_def group_sid_def [symmetric] by (cases g) (auto simp: case_prod_beta prod_eq_iff)

lemma group_model_after:
  assumes "attrs_ok attrs" "group_model a \<lparr>DN = k, Attrs = attrs\<rparr> = Inr g"
    and "gsScope spec = GroupScopeOther [] \<or> named_scope (gsScope spec)"
    and "gsCategory spec = GroupCategoryOther [] \<or> named_category (gsCategory spec)"
  shows "group_model a \<lparr>DN = k, Attrs = fold apply_mod (group_mods spec g) attrs\<rparr> = Inr (group_asked spec g)"
proof -
  let ?e = "\<lparr>DN = k, Attrs = attrs\<rparr>" and ?e' = "\<lparr>DN = k, Attrs = fold apply_mod (group_mods spec g) attrs\<rparr>"
  note plain = group_mods_plain [of spec g]
  note s = FirstString_mods(1) [OF assms(1) plain, of k]
  note m = assms(2) [unfolded group_model_Inr]
  have kept: "First ?e' name = First ?e name" if "ToLower name \<notin> set (lower_names groupModAttrs)" for name
    by (rule FirstString_mods(2) [OF assms(1) plain that])
  have keep: "First ?e' ''objectGUID'' = First ?e ''objectGUID''" "First ?e' ''objectSid'' = First ?e ''objectSid''"
    "First ?e' ''name'' = First ?e ''name''"
    by (rule kept, simp add: lower_names_def groupModAttrs_def lower_user_names)+
  then have keep': "group_sid ?e' = group_sid ?e" "FirstString ?e' ''name'' = FirstString ?e ''name''"
    by (simp_all only: group_sid_def FirstString_def)
  from m obtain v where v: "ParseGroupType (FirstString ?e ''groupType'') = Inr v" "ScopeAndCategory v = (gScope g, gCategory g)"
    by blast
  from ScopeAndCategory_named [OF v(2)] assms(3,4)
  have "named_scope (gScope (group_asked spec g))" "named_category (gCategory (group_asked spec g))"
    by (auto simp: group_asked_def)
  note named = ScopeAndCategory_GroupTypeValue [OF this]
  have gt: "\<exists>v. ParseGroupType (FirstString ?e' ''groupType'') = Inr v \<and>
      ScopeAndCategory v = (gScope (group_asked spec g), gCategory (group_asked spec g))"
    using v named by (auto simp: s group_mods_strings(4) ParseGroupType_def GroupTypeString_def parse_signed_word)
  have strings: "gSamAccountName (group_asked spec g) = FirstString ?e' ''sAMAccountName''"
    "gDescription (group_asked spec g) = FirstString ?e' ''description''"
    "gManagedBy (group_asked spec g) = FirstString ?e' ''managedBy''"
    using m by (simp_all only: s group_mods_strings [symmetric])
  have same: "gGUID (group_asked spec g) = gGUID g" "gContainer (group_asked spec g) = gContainer g"
    "gDN (group_asked spec g) = gDN g" "gName (group_asked spec g) = gName g" "gSID (group_asked spec g) = gSID g"
    by (simp_all add: group_asked_def)
  show ?thesis
    unfolding group_model_Inr same keep keep' using gt strings m by auto
qed

end
