(* ===== verification/Lookup.thy ===== *)
theory Lookup
  imports Updates
begin

text \<open>
  Lookups over the in-memory directory: what the text of a filter selects, the objects a search
  returns, and the one object an identity names.
\<close>

section \<open>The text of a filter\<close>

definition no_parens :: "string \<Rightarrow> bool" where
  "no_parens s \<longleftrightarrow> CHR ''('' \<notin> set s \<and> CHR '')'' \<notin> set s"

lemma split_terms_skip:
  "no_parens b \<Longrightarrow> split_terms s i d st (b @ r) = split_terms s (i + length b) d st r"
  by (induction b arbitrary: i) (auto simp: no_parens_def)

lemma splitTerms_two:
  assumes "no_parens f" "no_parens g"
  shows "splitTerms ((CHR ''('' # f @ '')'') @ (CHR ''('' # g @ '')'')) = [CHR ''('' # f @ '')'', CHR ''('' # g @ '')'']"
  using split_terms_skip [OF assms(1)] split_terms_skip [OF assms(2)]
  by (simp add: splitTerms_def slice_def)

text \<open>A comparison in parentheses.\<close>

definition plain_body :: "string \<Rightarrow> bool" where
  "plain_body b \<longleftrightarrow> no_parens b \<and> b \<noteq> [] \<and> hd b \<notin> {CHR ''&'', CHR ''|'', CHR ''!''}"

lemma TrimSpace_parens: "TrimSpace (CHR ''('' # b @ '')'') = CHR ''('' # b @ '')''"
  by (rule TrimSpace_id) (simp add: is_space_def)

lemma matchFilter_term:
  assumes "plain_body b"
  shows "matchFilter (CHR ''('' # b @ '')'') attrs = Inr (match_assertion b attrs)"
proof -
  from assms obtain c r where b: "b = c # r" "c \<notin> {CHR ''&'', CHR ''|'', CHR ''!''}"
    by (cases b) (auto simp: plain_body_def)
  have "HasSuffix (CHR ''('' # b @ '')'') '')''" unfolding HasSuffix_iff by (metis append_Cons)
  then show ?thesis
    by (subst matchFilter.simps) (use b TrimSpace_parens [of b] in \<open>simp add: Let_def HasPrefix_def slice_def\<close>)
qed

lemma slice_and: "slice 2 (length (''(&'' @ i @ '')'') - 1) (''(&'' @ i @ '')'') = i"
  by (simp add: slice_def)

lemma matchFilter_and:
  assumes "plain_body f" "plain_body g"
  shows "matchFilter (''(&'' @ (CHR ''('' # f @ '')'') @ (CHR ''('' # g @ '')'') @ '')'') attrs =
    Inr (match_assertion f attrs \<and> match_assertion g attrs)"
proof -
  let ?in = "(CHR ''('' # f @ '')'') @ (CHR ''('' # g @ '')'')"
  let ?s = "''(&'' @ (CHR ''('' # f @ '')'') @ (CHR ''('' # g @ '')'') @ '')''"
  have s: "?s = CHR ''('' # (CHR ''&'' # ?in) @ '')''" by simp
  have t: "TrimSpace ?s = ?s" unfolding s by (rule TrimSpace_parens)
  have i: "slice 2 (length ?s - 1) ?s = ?in" using slice_and [of ?in] by simp
  have "splitTerms ?in = [CHR ''('' # f @ '')'', CHR ''('' # g @ '')'']"
    using assms by (intro splitTerms_two) (simp_all add: plain_body_def)
  with matchFilter_term [OF assms(1), of attrs] matchFilter_term [OF assms(2), of attrs]
  have "any_term False (\<lambda>t. matchFilter t attrs) (splitTerms ?in) =
      Inr (match_assertion f attrs \<and> match_assertion g attrs)" by simp
  then show ?thesis
    by (subst matchFilter.simps) (simp only: t i Let_def, simp add: HasPrefix_def)
qed

text \<open>One comparison: the attribute and the value on either side of the first equals sign.\<close>

definition value_matches :: "string \<Rightarrow> string \<Rightarrow> bytes list \<Rightarrow> bool" where
  "value_matches attr want vals =
     (if want = ''*'' then vals \<noteq> []
      else list_ex (\<lambda>v. if EqualFold attr ''objectSid'' then sidMatches v (unescapeFilterValue want)
                         else matchValue (str_of v) (unescapeFilterValue want)) vals)"

lemma match_assertion_eq:
  assumes "CHR '':'' \<notin> set attr" "CHR ''='' \<notin> set attr" "CHR '':'' \<notin> set want"
  shows "match_assertion (attr @ CHR ''='' # want) attrs =
    (case lookupFold attrs attr of None \<Rightarrow> False | Some vals \<Rightarrow> value_matches attr want vals)"
proof -
  have "Index (attr @ CHR ''='' # want) '':'' = None" using assms by (intro Index_none) simp
  moreover have "Index (attr @ CHR ''='' # want) ''='' = Some (length attr)" using assms(2) by (rule Index_first)
  ultimately show ?thesis by (simp add: match_assertion_def value_matches_def Let_def split: option.split)
qed

lemma value_matches_plain:
  assumes "CHR ''*'' \<notin> set want" "CHR 0x5C \<notin> set want"
  shows "value_matches attr want vals \<longleftrightarrow>
    (\<exists>v \<in> set vals. if EqualFold attr ''objectSid'' then sidMatches v want else EqualFold (str_of v) want)"
proof -
  have "unescapeFilterValue want = want" using Index_none [OF assms(2)] by (simp add: unescapeFilterValue_def Contains_def)
  moreover have "\<not> Contains want ''*''" using Index_none [OF assms(1)] by (simp add: Contains_def)
  moreover have "want \<noteq> ''*''" using assms(1) by auto
  ultimately show ?thesis by (simp add: value_matches_def matchValue_def list_ex_iff)
qed

text \<open>The escaped bytes of a GUID are read back as those bytes.\<close>

lemma unhex_nibble: "unat x < 16 \<Longrightarrow> unhex (nibble x) = Some (unat x)"
proof -
  assume "unat x < 16"
  moreover have "\<forall>n < 16. unhex (''0123456789abcdef'' ! n) = Some n" by code_simp
  ultimately show ?thesis by (simp add: nibble_def)
qed

lemma nibbles:
  "unat (drop_bit 4 (x :: byte)) = unat x div 16" "unat (x AND 0x0f) = unat x mod 16" "unat x div 16 < 16"
proof -
  show "unat (drop_bit 4 x) = unat x div 16" by (simp add: unat_drop_bit_eq drop_bit_eq_div [where ?'a = nat])
  have "x AND 0x0f = take_bit 4 x" by (simp add: take_bit_eq_mask mask_eq_exp_minus_1)
  moreover have "take_bit 4 (unat x) = unat x mod 16" by (simp add: take_bit_eq_mod)
  ultimately show "unat (x AND 0x0f) = unat x mod 16" using unsigned_take_bit_eq [of 4 x, where ?'a = nat] by simp
  show "unat x div 16 < 16" using byte_less [of x] by simp
qed

lemma unescape_escapeBinary: "b \<noteq> [] \<Longrightarrow> unescapeFilterValue (escapeBinary b) = str_of b"
proof -
  assume "b \<noteq> []"
  then have "Contains (escapeBinary b) [CHR 0x5C]"
    by (cases b) (simp_all add: escapeBinary_def Contains_def HasPrefix_def char_of_def bit_0)
  moreover have "unescape_loop (escapeBinary b) = str_of b"
  proof (induction b)
    case (Cons x b)
    have h: "unhex (nibble (drop_bit 4 x)) = Some (unat x div 16)"
      using unhex_nibble [of "drop_bit 4 x"] nibbles [of x] by simp
    have l: "unhex (nibble (x AND 0x0f)) = Some (unat x mod 16)"
      using unhex_nibble [of "x AND 0x0f"] nibbles [of x] by simp
    with Cons h l show ?case by (simp add: escapeBinary_def str_of_def char_of_def bit_0)
  qed (simp add: escapeBinary_def str_of_def)
  ultimately show ?thesis by (simp add: unescapeFilterValue_def)
qed

section \<open>What a search returns\<close>

text \<open>The live entries in scope that a predicate on attributes selects.\<close>

definition found :: "mem_server \<Rightarrow> string \<Rightarrow> scope \<Rightarrow> (attr_map \<Rightarrow> bool) \<Rightarrow> (string \<times> attr_map) list" where
  "found m base sc P =
     filter (\<lambda>e. inScopeMem (fst e) base sc \<and> \<not> isTombstone (snd e) \<and> P (snd e)) (entries m)"

definition shown :: "string list \<Rightarrow> string \<times> attr_map \<Rightarrow> entry" where
  "shown want e = \<lparr>DN = fst e, Attrs = project (snd e) want\<rparr>"

lemma mem_hits_found:
  assumes "\<And>attrs. matchFilter (Filter req) attrs = Inr (P attrs)" "limit \<le> 0"
    "\<not> hasControl (Controls req) ControlShowDeleted"
  shows "mem_hits req limit es =
    Inr (map (shown (Attributes req)) (filter (\<lambda>e. inScopeMem (fst e) (BaseDN req) (Scope req) \<and> \<not> isTombstone (snd e) \<and> P (snd e)) es))"
  using assms by (induction es) (auto simp: rangePages_def shown_def)

lemma mem_Search_found:
  assumes "\<And>attrs. matchFilter (Filter req) attrs = Inr (P attrs)" "rangeLimit m \<le> 0"
    "\<not> hasControl (Controls req) ControlShowDeleted" "Scope req \<noteq> ScopeBase"
  shows "mem_Search req m =
    (if 0 < SizeLimit req \<and> SizeLimit req < int (length (found m (BaseDN req) (Scope req) P))
     then (Inl (raw 4 diagSizeLimitHint), m)
     else (Inr \<lparr>Entries = map (shown (Attributes req)) (found m (BaseDN req) (Scope req) P), RespControls = []\<rparr>, m))"
  using mem_hits_found [OF assms(1-3)] assms(4) by (simp add: mem_Search_def found_def)

text \<open>Requested attributes read the same in the projection as in the full entry.\<close>

lemma find_filter_id: "(\<And>x. P x \<Longrightarrow> Q x) \<Longrightarrow> find P (filter Q l) = find P l"
  by (induction l) auto

lemma lookupFold_project:
  assumes "w \<in> set want" "baseAttr w = w" "EqualFold w name"
  shows "lookupFold (project attrs want) name = lookupFold attrs name"
proof -
  have "want = [] \<or> list_ex (\<lambda>w. w = ''*'' \<or> EqualFold (baseAttr w) (fst kv)) want"
    if "EqualFold (fst kv) name" for kv :: "string \<times> bytes list"
    unfolding list_ex_iff using that assms by (intro disjI2 bexI [of _ w]) (simp_all add: EqualFold_def)
  then show ?thesis
    unfolding lookupFold_def project_def by (intro arg_cong [where f = "map_option snd"] find_filter_id)
qed

lemma attrs_ok_project: "attrs_ok attrs \<Longrightarrow> attrs_ok (project attrs want)"
  by (auto simp: attrs_ok_def project_def distinct_map intro: inj_on_subset)

lemma First_shown:
  assumes "attrs_ok attrs" "w \<in> set want" "baseAttr w = w" "EqualFold w name"
  shows "First (shown want (k, attrs)) name = First \<lparr>DN = k, Attrs = attrs\<rparr> name"
  using First_lookup [of "shown want (k, attrs)" name] First_lookup [of "\<lparr>DN = k, Attrs = attrs\<rparr>" name]
    attrs_ok_project [OF assms(1)] lookupFold_project [OF assms(2-4)] assms(1)
  by (simp add: shown_def)

section \<open>What an identity names\<close>

text \<open>
  The filters \<open>adcore\<close> builds are those of RFC 4515: a conjunction is its terms in \<open>(& )\<close>, and a comparison
  with a value that has nothing to escape is that value.
\<close>

definition plain_value :: "string \<Rightarrow> bool" where
  "plain_value s \<longleftrightarrow> list_all (\<lambda>c. 32 \<le> (of_char c :: nat) \<and> (of_char c :: nat) < 127 \<and>
     c \<notin> {CHR ''('', CHR '')'', CHR ''*'', CHR '':'', CHR 0x5C}) s"

definition filter_laws :: "'id adcore \<Rightarrow> bool" where
  "filter_laws a \<longleftrightarrow> (\<forall>f g. And a f g = ''(&'' @ f @ g @ '')'') \<and>
     (\<forall>attr v. plain_value v \<longrightarrow> Equal a attr v = CHR ''('' # attr @ CHR ''='' # v @ '')'')"

definition has_value :: "attr_map \<Rightarrow> string \<Rightarrow> (bytes \<Rightarrow> bool) \<Rightarrow> bool" where
  "has_value attrs name P \<longleftrightarrow> (case lookupFold attrs name of None \<Rightarrow> False | Some vals \<Rightarrow> list_ex P vals)"

definition class_match :: "string \<Rightarrow> attr_map \<Rightarrow> bool" where
  "class_match cls attrs = has_value attrs ''objectClass'' (\<lambda>v. cls = ''*'' \<or> EqualFold (str_of v) cls)"

definition guid_match :: "bytes \<Rightarrow> attr_map \<Rightarrow> bool" where
  "guid_match b attrs = has_value attrs ''objectGUID'' (\<lambda>v. EqualFold (str_of v) (str_of b))"

definition ident_match :: "'id adcore \<Rightarrow> 'id \<Rightarrow> attr_map \<Rightarrow> bool" where
  "ident_match a i attrs =
     (let arg = IdentityArg a i; form = IdentityForm a i in
      if form = ''guid'' then (case GUIDToBytes arg of Inl _ \<Rightarrow> False | Inr b \<Rightarrow> guid_match b attrs)
      else if form = ''sid'' then has_value attrs ''objectSid'' (\<lambda>v. sidMatches v arg)
      else if form = ''sam'' then has_value attrs ''sAMAccountName'' (\<lambda>v. EqualFold (str_of v) arg)
      else has_value attrs ''distinguishedName'' (\<lambda>v. EqualFold (str_of v) arg))"

text \<open>
  An identity the harness can look up: an asterisk among the bytes of a GUID is taken for a wildcard after
  it was unescaped, and the bytes have to be in the range on which \<open>EqualFold\<close> is modelled.
\<close>

lemma guid_asterisk:
  "matchFilter (''(objectGUID='' @ escapeBinary (le32 42 @ replicate 12 0) @ '')'') [(''objectGUID'', [le32 1 @ replicate 12 0])] = Inr True"
  by code_simp

definition plain_guid :: "bytes \<Rightarrow> bool" where
  "plain_guid b \<longleftrightarrow> length b = 16 \<and> 42 \<notin> set b \<and> list_all (\<lambda>x. x < 128) b"

definition plain_identity :: "'id adcore \<Rightarrow> 'id \<Rightarrow> bool" where
  "plain_identity a i =
     (if IdentityForm a i = ''guid''
      then (case GUIDToBytes (IdentityArg a i) of Inl _ \<Rightarrow> False | Inr b \<Rightarrow> plain_guid b)
      else plain_value (IdentityArg a i))"

lemma plain_valueD:
  assumes "plain_value s"
  shows "no_parens s" "CHR ''*'' \<notin> set s" "CHR 0x5C \<notin> set s" "CHR '':'' \<notin> set s"
  using assms by (auto simp: plain_value_def no_parens_def list_all_iff)

lemma Equal_match:
  assumes "filter_laws a" "plain_value v" "plain_body attr" "CHR '':'' \<notin> set attr" "CHR ''='' \<notin> set attr"
  shows "\<exists>b. Equal a attr v = CHR ''('' # b @ '')'' \<and> plain_body b \<and> (\<forall>attrs. match_assertion b attrs =
    has_value attrs attr (\<lambda>x. if EqualFold attr ''objectSid'' then sidMatches x v else EqualFold (str_of x) v))"
proof (intro exI conjI allI)
  show "Equal a attr v = CHR ''('' # (attr @ CHR ''='' # v) @ '')''" using assms(1,2) by (simp add: filter_laws_def)
  show "plain_body (attr @ CHR ''='' # v)"
    using assms(3) plain_valueD(1) [OF assms(2)] by (auto simp: plain_body_def no_parens_def)
  show "match_assertion (attr @ CHR ''='' # v) attrs =
      has_value attrs attr (\<lambda>x. if EqualFold attr ''objectSid'' then sidMatches x v else EqualFold (str_of x) v)" for attrs
    unfolding match_assertion_eq [OF assms(4,5) plain_valueD(4) [OF assms(2)]]
    by (simp add: has_value_def value_matches_plain [OF plain_valueD(2,3) [OF assms(2)]] list_ex_iff split: option.split)
qed

lemma char_of_unat_star: "CHR ''*'' = char_of (unat x) \<longleftrightarrow> x = (42 :: byte)"
proof
  assume "CHR ''*'' = char_of (unat x)"
  then have "(of_char CHR ''*'' :: nat) = unat x" using byte_less [of x] by simp
  then have "unat x = unat (42 :: byte)" by simp
  then show "x = 42" by (simp only: word_unat_eq_iff)
qed (simp add: char_of_def bit_0)

lemma guid_body:
  assumes "plain_guid b"
  shows "\<exists>t. ''(objectGUID='' @ escapeBinary b @ '')'' = CHR ''('' # t @ '')'' \<and> plain_body t \<and>
    (\<forall>attrs. match_assertion t attrs = guid_match b attrs)"
proof (intro exI conjI allI)
  let ?t = "''objectGUID'' @ CHR ''='' # escapeBinary b"
  have b: "b \<noteq> []" using assms by (auto simp: plain_guid_def)
  have nib: "nibble (x AND 0x0f) \<in> set ''0123456789abcdef''" "nibble (drop_bit 4 x) \<in> set ''0123456789abcdef''" for x :: byte
  proof -
    have "\<forall>n < 16. ''0123456789abcdef'' ! n \<in> set ''0123456789abcdef''" by code_simp
    with nibbles [of x] show "nibble (x AND 0x0f) \<in> set ''0123456789abcdef''" "nibble (drop_bit 4 x) \<in> set ''0123456789abcdef''"
      unfolding nibble_def by simp_all
  qed
  have esc: "set (escapeBinary b) \<subseteq> insert CHR 0x5C (set ''0123456789abcdef'')"
    using nib by (auto simp: escapeBinary_def char_of_def bit_0)
  then have np: "CHR ''('' \<notin> set (escapeBinary b)" "CHR '')'' \<notin> set (escapeBinary b)" "CHR '':'' \<notin> set (escapeBinary b)"
    "CHR ''*'' \<notin> set (escapeBinary b)"
    by auto
  show "''(objectGUID='' @ escapeBinary b @ '')'' = CHR ''('' # ?t @ '')''" by simp
  show "plain_body ?t" using np by (simp add: plain_body_def no_parens_def)
  have "\<not> Contains (str_of b) ''*''"
  proof -
    have "CHR ''*'' \<notin> set (str_of b)" using assms by (auto simp: plain_guid_def str_of_def char_of_unat_star)
    from Index_none [OF this] show ?thesis by (simp add: Contains_def)
  qed
  moreover have "\<not> EqualFold ''objectGUID'' ''objectSid''" by (simp add: EqualFold_def lower_user_names)
  moreover have "escapeBinary b \<noteq> ''*''" using np(4) by auto
  ultimately have "value_matches ''objectGUID'' (escapeBinary b) vals = list_ex (\<lambda>v. EqualFold (str_of v) (str_of b)) vals" for vals
    by (simp add: value_matches_def unescape_escapeBinary [OF b] matchValue_def)
  then show "match_assertion ?t attrs = guid_match b attrs" for attrs
    unfolding guid_match_def has_value_def by (subst match_assertion_eq) (use np in \<open>simp_all split: option.split\<close>)
qed

lemma list_ex_True: "list_ex (\<lambda>_. True) vs \<longleftrightarrow> vs \<noteq> []"
  by (cases vs) simp_all

lemma class_body:
  assumes "filter_laws a" "cls = ''*'' \<or> plain_value cls"
  shows "\<exists>t. classTerm a cls = CHR ''('' # t @ '')'' \<and> plain_body t \<and> (\<forall>attrs. match_assertion t attrs = class_match cls attrs)"
proof (cases "cls = ''*''")
  case True
  have "match_assertion (''objectClass'' @ CHR ''='' # ''*'') attrs = class_match cls attrs" for attrs
    by (subst match_assertion_eq) (simp_all add: class_match_def has_value_def value_matches_def True list_ex_True split: option.split)
  with True show ?thesis
    by (intro exI [of _ "''objectClass'' @ CHR ''='' # ''*''"]) (simp add: classTerm_def plain_body_def no_parens_def)
next
  case False
  have "\<not> EqualFold ''objectClass'' ''objectSid''" by (simp add: EqualFold_def ToLower_def)
  with False Equal_match [OF assms(1), of cls "''objectClass''"] assms(2) show ?thesis
    by (simp add: classTerm_def class_match_def plain_body_def no_parens_def)
qed

lemma identity_body:
  assumes "filter_laws a" "plain_identity a i"
  shows "\<exists>t. identityFilter a i = Inr (CHR ''('' # t @ '')'') \<and> plain_body t \<and>
    (\<forall>attrs. match_assertion t attrs = ident_match a i attrs)"
proof (cases "IdentityForm a i = ''guid''")
  case True
  with assms(2) obtain b where b: "GUIDToBytes (IdentityArg a i) = Inr b" "plain_guid b"
    by (auto simp: plain_identity_def split: sum.split_asm)
  from guid_body [OF b(2)] True b(1) show ?thesis by (auto simp: identityFilter_def ident_match_def Let_def)
next
  case False
  with assms(2) have v: "plain_value (IdentityArg a i)" by (simp add: plain_identity_def)
  have names: "EqualFold ''objectSid'' ''objectSid''" "\<not> EqualFold ''sAMAccountName'' ''objectSid''"
    "\<not> EqualFold ''distinguishedName'' ''objectSid''"
    by (simp_all add: EqualFold_def ToLower_def)
  have plain: "plain_body ''objectSid''" "plain_body ''sAMAccountName''" "plain_body ''distinguishedName''"
    by (simp_all add: plain_body_def no_parens_def)
  from Equal_match [OF assms(1) v plain(1)] Equal_match [OF assms(1) v plain(2)] Equal_match [OF assms(1) v plain(3)]
  show ?thesis
    using False names by (simp add: identityFilter_def ident_match_def Let_def)
qed

text \<open>The text of the filter \<open>getOne\<close> sends selects the objects of the class that the identity names.\<close>

lemma identity_filter:
  assumes "filter_laws a" "plain_identity a i" "cls = ''*'' \<or> plain_value cls"
  shows "\<exists>f. identityFilter a i = Inr f \<and>
    (\<forall>attrs. matchFilter (And a (classTerm a cls) f) attrs = Inr (class_match cls attrs \<and> ident_match a i attrs))"
proof -
  from identity_body [OF assms(1,2)] class_body [OF assms(1,3)] obtain t u where
    t: "identityFilter a i = Inr (CHR ''('' # t @ '')'')" "plain_body t" "\<And>attrs. match_assertion t attrs = ident_match a i attrs"
    and u: "classTerm a cls = CHR ''('' # u @ '')''" "plain_body u" "\<And>attrs. match_assertion u attrs = class_match cls attrs"
    by blast
  have "And a (classTerm a cls) (CHR ''('' # t @ '')'') = ''(&'' @ (CHR ''('' # u @ '')'') @ (CHR ''('' # t @ '')'') @ '')''"
    using assms(1) u(1) by (simp add: filter_laws_def)
  with matchFilter_and [OF u(2) t(2)] t(1,3) u(3) show ?thesis by simp
qed

text \<open>The live objects of a class under the naming context that an identity names.\<close>

definition named :: "(mem_server, 'id) core \<Rightarrow> mem_server \<Rightarrow> string \<Rightarrow> 'id \<Rightarrow> (string \<times> attr_map) list" where
  "named c m cls i = found m (dnc c) ScopeSubtree (\<lambda>attrs. class_match cls attrs \<and> ident_match (ad c) i attrs)"

lemma getOne_named:
  assumes "quiet c (memConn (ad c))" "open_pool (memConn (ad c)) p" "filter_laws (ad c)" "plain_identity (ad c) i"
    "cls = ''*'' \<or> plain_value cls" "rangeLimit m \<le> 0" "\<not> hasControl controls ControlShowDeleted"
    "length (named c m cls i) \<le> 1"
  shows "\<exists>p'. open_pool (memConn (ad c)) p' \<and> getOne c op i cls want controls p m =
    Some (case named c m cls i of [] \<Rightarrow> Inl (notFound (ad c) op i cls) | e # _ \<Rightarrow> Inr (shown want e), p', m)"
proof -
  from identity_filter [OF assms(3-5)] obtain f where f: "identityFilter (ad c) i = Inr f"
    "\<And>attrs. matchFilter (And (ad c) (classTerm (ad c) cls) f) attrs = Inr (class_match cls attrs \<and> ident_match (ad c) i attrs)"
    by blast
  let ?req = "one_request c f cls want controls"
  have r: "Filter ?req = And (ad c) (classTerm (ad c) cls) f" "Controls ?req = controls" "Scope ?req = ScopeSubtree"
    "BaseDN ?req = dnc c" "Attributes ?req = want"
    by (simp_all add: one_request_def)
  have "mem_Search ?req m = (Inr \<lparr>Entries = map (shown want) (named c m cls i), RespControls = []\<rparr>, m)"
    using mem_Search_found [of ?req, OF _ assms(6), of "\<lambda>attrs. class_match cls attrs \<and> ident_match (ad c) i attrs"]
      assms(7,8) f(2) by (simp add: r named_def)
  then have s: "search_entries ?req (memConn (ad c)) m = (Inr (map (shown want) (named c m cls i)), m)"
    by (simp add: search_entries_def)
  from run_quiet [where fn = "search_entries ?req" and op = op and d = "[]", OF assms(1,2) s]
  obtain p' where p': "open_pool (memConn (ad c)) p'"
    "run c op [] (search_entries ?req) p m = Some (Inr (map (shown want) (named c m cls i)), p', m)" by auto
  from assms(8) consider "named c m cls i = []" | e where "named c m cls i = [e]"
    by (cases "named c m cls i") auto
  then show ?thesis using p' f(1) by cases (auto simp: getOne_def prog_simps)
qed

end
