(* ===== verification/Consistency.thy ===== *)
theory Consistency
  imports Memory
begin

text \<open>
  The in-memory directory as a transition system: the states its operations reach from a fresh server,
  and the invariant that an object has one name and an attribute one spelling.
\<close>

section \<open>Attributes\<close>

lemma attrs_ok_delete: "attrs_ok attrs \<Longrightarrow> attrs_ok (map_delete k attrs)"
  by (auto simp: attrs_ok_def map_delete_def distinct_map intro: inj_on_subset)

lemma attrs_ok_key_put: "attrs_ok attrs \<Longrightarrow> attrs_ok (map_put (attrKey attrs name) vals attrs)"
  by (rule attrs_ok_put) (use attrKey_fold in \<open>auto simp: EqualFold_def\<close>)

lemma attrs_ok_apply_mod: "attrs_ok attrs \<Longrightarrow> attrs_ok (apply_mod md attrs)"
  by (auto simp: apply_mod_def Let_def attrs_ok_delete attrs_ok_key_put split: mod_op.split)

lemma attrs_ok_apply_mods: "attrs_ok attrs \<Longrightarrow> attrs_ok (fold apply_mod mods attrs)"
  by (induction mods arbitrary: attrs) (simp_all add: attrs_ok_apply_mod)

text \<open>Names of which no two differ in case only, among them those a directory stamps.\<close>

definition stamped :: "string list" where
  "stamped = [''objectGUID'', ''nTSecurityDescriptor'', ''distinguishedName'', ''name'', ''objectSid'']"

definition spelled :: "string list \<Rightarrow> bool" where
  "spelled names \<longleftrightarrow> (\<forall>x \<in> set names. \<forall>y \<in> set names. EqualFold x y \<longrightarrow> x = y)"

definition add_ok :: "attribute list \<Rightarrow> bool" where
  "add_ok add \<longleftrightarrow> spelled (map aType add @ stamped)"

definition named_in :: "string list \<Rightarrow> attr_map \<Rightarrow> bool" where
  "named_in names attrs \<longleftrightarrow> attrs_ok attrs \<and> fst ` set attrs \<subseteq> set names"

lemma named_in_put:
  assumes "spelled names" "named_in names attrs" "k \<in> set names"
  shows "named_in names (map_put k v attrs)"
proof -
  have "attrs_ok (map_put k v attrs)"
  proof (rule attrs_ok_put)
    show "\<forall>kv \<in> set attrs. EqualFold (fst kv) k \<longrightarrow> fst kv = k"
      using assms unfolding named_in_def spelled_def by (meson image_eqI subsetD)
  qed (use assms in \<open>simp add: named_in_def\<close>)
  with assms show ?thesis by (auto simp: named_in_def map_put_def)
qed

lemma named_in_fold:
  assumes "spelled names" "set (map aType add) \<subseteq> set names"
  shows "named_in names attrs \<Longrightarrow> named_in names (fold (\<lambda>x. map_put (aType x) (aVals x)) add attrs)"
  using assms(2) by (induction add arbitrary: attrs) (simp_all add: named_in_put [OF assms(1)])

section \<open>Entries\<close>

lemma mem_ok_new:
  assumes "mem_ok m" "\<not> existsLocked m dn" "dn \<noteq> []" "attrs_ok attrs"
  shows "mem_ok (m\<lparr>seq := n, entries := map_put dn attrs (entries m)\<rparr>)"
proof -
  have "ToLower (normalizeDN dn) \<notin> (\<lambda>e. ToLower (normalizeDN (fst e))) ` set (entries m)"
    using assms(2) by (auto simp: existsLocked_def list_ex_iff equalFoldDN_def EqualFold_def)
  with assms show ?thesis
    by (auto simp: mem_ok_def map_put_def distinct_map attrs_ok_def intro: inj_on_subset)
qed

lemma mem_ok_delete: "mem_ok m \<Longrightarrow> mem_ok (m\<lparr>entries := map_delete k (entries m)\<rparr>)"
  by (auto simp: mem_ok_def map_delete_def distinct_map intro: inj_on_subset)

lemma mem_ok_Add:
  assumes "mem_ok m" "dn \<noteq> []" "add_ok add"
  shows "mem_ok (snd (mem_Add a dn add m))"
proof (cases "existsLocked m dn")
  case False
  let ?names = "map aType add @ stamped"
  have sp: "spelled ?names" using assms(3) by (simp add: add_ok_def)
  define f where "f = fold (\<lambda>x. map_put (aType x) (aVals x)) add []"
  have "named_in ?names f"
    unfolding f_def by (rule named_in_fold [OF sp]) (simp_all add: named_in_def attrs_ok_def)
  then have "named_in ?names (map_put ''name'' v1 (map_put ''distinguishedName'' v2
      (map_put ''nTSecurityDescriptor'' v3 (map_put ''objectGUID'' v4 f))))" for v1 v2 v3 v4
    by (intro named_in_put [OF sp]) (simp_all add: stamped_def)
  then have "attrs_ok (stampSID (map_put ''name'' v1 (map_put ''distinguishedName'' v2
      (map_put ''nTSecurityDescriptor'' v3 (map_put ''objectGUID'' v4 f)))) rid)" for v1 v2 v3 v4 rid
    using named_in_put [OF sp, of _ "''objectSid''"] by (simp add: stampSID_def named_in_def stamped_def)
  with mem_ok_new [OF assms(1) False assms(2)] False show ?thesis
    by (simp add: mem_Add_def Let_def nextGUID_def f_def)
qed (use assms in \<open>simp add: mem_Add_def\<close>)

lemma mem_ok_Modify:
  assumes "mem_ok m" shows "mem_ok (snd (mem_Modify dn mods cs m))"
proof (cases "entry_of m dn")
  case None
  then have "keyLocked m dn = []" by (simp add: keyLocked_def entry_of_def)
  with assms show ?thesis by (simp add: mem_Modify_def)
next
  case (Some e)
  then obtain k attrs where e: "entry_of m dn = Some (k, attrs)" by (cases e) simp
  from entry_of_Some [OF e] have k: "(k, attrs) \<in> set (entries m)" by simp
  then have "attrs_ok attrs" using assms by (auto simp: mem_ok_def attrs_ok_def)
  from mem_ok_put(1) [OF assms k attrs_ok_apply_mods [OF this] refl] show ?thesis
    by (simp add: mem_Modify_entry [OF assms e])
qed

section \<open>Reachable states\<close>

text \<open>Renames change names below the renamed object by their text and are left out.\<close>

inductive mem_step :: "'id adcore \<Rightarrow> mem_server \<Rightarrow> mem_server \<Rightarrow> bool" for a where
  search: "mem_step a m (snd (mem_Search req m))"
| add: "dn \<noteq> [] \<Longrightarrow> add_ok add \<Longrightarrow> mem_step a m (snd (mem_Add a dn add m))"
| modify: "mem_step a m (snd (mem_Modify dn mods cs m))"
| delete: "mem_step a m (snd (mem_Delete dn m))"
| range_limit: "mem_step a m (RangeLimit n m)"

lemma mem_step_ok: "mem_step a m m' \<Longrightarrow> mem_ok m \<Longrightarrow> mem_ok m'"
proof (induction rule: mem_step.induct)
  case (search m req)
  then show ?case by (auto simp: mem_Search_def split: sum.split)
next
  case (delete m dn)
  then show ?case by (simp add: mem_Delete_def Let_def mem_ok_delete)
next
  case (range_limit m n)
  then show ?case by (simp add: RangeLimit_def mem_ok_def)
qed (simp_all add: mem_ok_Add mem_ok_Modify)

text \<open>
  C24. Whatever searches, adds, modifications and deletes a test runs against a fresh in-memory directory,
  no two objects have names that \<open>equalFoldDN\<close> takes for the same, and no attribute is stored under two
  spellings, provided that no add names one attribute in two spellings; so that an operation that
  looks an object or an attribute up finds the only one there is.
\<close>

theorem mem_reachable_ok:
  assumes "(mem_step a)\<^sup>*\<^sup>* StartMemory m"
  shows "mem_ok m \<and> (\<forall>dn e e'. e \<in> set (entries m) \<longrightarrow> e' \<in> set (entries m) \<longrightarrow>
    equalFoldDN (fst e) dn \<longrightarrow> equalFoldDN (fst e') dn \<longrightarrow> e = e')"
proof -
  have "mem_ok StartMemory"
    by (simp add: mem_ok_def StartMemory_def Seed_def map_put_def DNC_def ToLower_def lower_char_def is_upper_def)
  with assms have "mem_ok m" by (induction rule: rtranclp_induct) (simp_all add: mem_step_ok)
  with mem_ok_eq show ?thesis by blast
qed

theorem mem_reachable_ok_witness:
  "mem_ok (snd (mem_Modify DNC [\<lparr>mOp = ModReplace, mType = ''Description'', mVals = [[1]]\<rparr>] [] StartMemory))"
proof -
  have "(mem_step sample_ad)\<^sup>*\<^sup>* StartMemory
      (snd (mem_Modify DNC [\<lparr>mOp = ModReplace, mType = ''Description'', mVals = [[1]]\<rparr>] [] StartMemory))"
    by (rule r_into_rtranclp) (rule mem_step.modify)
  from mem_reachable_ok [OF this] show ?thesis by (rule conjunct1)
qed

end
