(* ===== verification/Lifecycle.thy ===== *)
theory Lifecycle
  imports Lookup Consistency
begin

text \<open>
  The life of an object in the in-memory directory, through every layer of the client: it is created,
  read by an identity, updated and deleted.
\<close>

section \<open>A client of the in-memory directory\<close>

text \<open>
  The client is connected to the directory, does not wait for replication, and builds filters and
  identities the way \<open>adcore\<close> documents them; the directory does not page attribute values.
\<close>

definition mem_client :: "(mem_server, 'id) core \<Rightarrow> bool" where
  "mem_client c \<longleftrightarrow> quiet c (memConn (ad c)) \<and> filter_laws (ad c) \<and> \<not> rWait (repl c) \<and>
     (\<forall>s. IdentityForm (ad c) (ByGUID (ad c) s) = ''guid'' \<and> IdentityArg (ad c) (ByGUID (ad c) s) = s) \<and>
     (\<forall>s. IdentityForm (ad c) (ByDN (ad c) s) = ''dn'' \<and> IdentityArg (ad c) (ByDN (ad c) s) = s) \<and>
     (\<forall>op i cls. IsErrNotFound (ad c) (notFound (ad c) op i cls))"

definition mem_live :: "mem_server \<Rightarrow> bool" where
  "mem_live m \<longleftrightarrow> mem_ok m \<and> rangeLimit m \<le> 0"

lemma mem_clientD:
  assumes "mem_client c"
  shows "quiet c (memConn (ad c))" "filter_laws (ad c)" "\<not> rWait (repl c)"
    "IdentityForm (ad c) (ByGUID (ad c) s) = ''guid''" "IdentityArg (ad c) (ByGUID (ad c) s) = s"
    "IdentityForm (ad c) (ByDN (ad c) s) = ''dn''" "IdentityArg (ad c) (ByDN (ad c) s) = s"
    "isNotFound c (notFound (ad c) op i cls)"
  using assms by (simp_all add: mem_client_def isNotFound_def)

abbreviation up :: "(mem_server, 'id) core \<Rightarrow> mem_server conn pool \<Rightarrow> bool" where
  "up c p \<equiv> open_pool (memConn (ad c)) p"

section \<open>Entries after a change\<close>

text \<open>A state in which one entry has other attributes, or another name as well.\<close>

definition changed :: "mem_server \<Rightarrow> string \<times> attr_map \<Rightarrow> string \<times> attr_map \<Rightarrow> mem_server \<Rightarrow> bool" where
  "changed m e e' m' \<longleftrightarrow> mem_live m' \<and> set (entries m') = insert e' (set (entries m) - {e})"

lemma distinct_found: "mem_ok m \<Longrightarrow> distinct (found m b sc P)"
  by (simp add: found_def mem_ok_def distinct_map distinct_filter)

lemma singleton_list: "distinct xs \<Longrightarrow> xs = [x] \<longleftrightarrow> set xs = {x}"
proof (cases xs)
  case (Cons a list)
  assume "distinct xs"
  with Cons show ?thesis by (cases list) auto
qed simp

lemma found_single:
  "mem_ok m \<Longrightarrow> found m b sc P = [e] \<longleftrightarrow>
     {e \<in> set (entries m). inScopeMem (fst e) b sc \<and> \<not> isTombstone (snd e) \<and> P (snd e)} = {e}"
  using singleton_list [OF distinct_found [of m b sc P]] by (simp add: found_def)

lemma found_changed:
  assumes "mem_ok m" "found m b sc P = [e]" "changed m e e' m'" "inScopeMem (fst e') b sc" "P (snd e')" "\<not> isTombstone (snd e')"
  shows "found m' b sc P = [e']"
proof -
  have "{e \<in> set (entries m). inScopeMem (fst e) b sc \<and> \<not> isTombstone (snd e) \<and> P (snd e)} = {e}"
    using assms(1,2) found_single by blast
  with assms(3-6) show ?thesis
    by (subst found_single) (auto simp: changed_def mem_live_def)
qed

lemma named_entry:
  assumes "mem_ok m" "named c m cls i = [(k, attrs)]"
  shows "(k, attrs) \<in> set (entries m)" "attrs_ok attrs" "entry_of m k = Some (k, attrs)" "\<not> isTombstone attrs"
    "class_match cls attrs" "ident_match (ad c) i attrs" "isUnder k (dnc c)"
proof -
  have "(k, attrs) \<in> set (named c m cls i)" using assms(2) by simp
  then show e: "(k, attrs) \<in> set (entries m)" and "\<not> isTombstone attrs" "class_match cls attrs" "ident_match (ad c) i attrs"
    "isUnder k (dnc c)"
    by (simp_all add: named_def found_def)
  show "attrs_ok attrs" using assms(1) e by (auto simp: mem_ok_def attrs_ok_def)
  show "entry_of m k = Some (k, attrs)" by (rule entry_of_unique [OF assms(1) e]) (simp add: equalFoldDN_def)
qed

lemma lookupFold_mods:
  assumes "attrs_ok attrs" "plain_mods names mods" "ToLower name \<notin> set (lower_names names)"
  shows "lookupFold (fold apply_mod mods attrs) name = lookupFold attrs name"
  using assms(1,2)
proof (induction mods arbitrary: attrs)
  case (Cons md mods)
  then have md: "plain_mod md" "mType md \<in> set names" "plain_mods names mods" by (simp_all add: plain_mods_def)
  then have "\<not> EqualFold name (mType md)" using assms(3) by (auto simp: lower_names_def EqualFold_def)
  then have "lookupFold (apply_mod md attrs) name = lookupFold attrs name"
    using apply_replace(2) [OF Cons.prems(1) _ refl] apply_delete(2) [OF Cons.prems(1) refl] md(1)
    unfolding plain_mod_def by (metis list.distinct(1))
  with Cons.IH [OF First_apply_mod(1) [OF Cons.prems(1) md(1)] md(3)] show ?case by simp
qed simp

lemma changed_put:
  assumes "mem_live m" "(k, attrs) \<in> set (entries m)" "attrs_ok attrs'"
  shows "changed m (k, attrs) (k, attrs') (m\<lparr>entries := map_put k attrs' (entries m)\<rparr>)"
proof -
  have "mem_ok m" using assms(1) by (simp add: mem_live_def)
  then have "fst e \<noteq> k \<longleftrightarrow> e \<noteq> (k, attrs)" if "e \<in> set (entries m)" for e
    using mem_ok_eq [of m e "(k, attrs)" k] that assms(2) by (auto simp: equalFoldDN_def)
  then have "{e \<in> set (entries m). fst e \<noteq> k} = set (entries m) - {(k, attrs)}" by blast
  then have "set (map_put k attrs' (entries m)) = insert (k, attrs') (set (entries m) - {(k, attrs)})"
    by (simp add: map_put_def)
  with mem_ok_put(1) [OF \<open>mem_ok m\<close> assms(2,3) refl] assms(1) show ?thesis by (simp add: changed_def mem_live_def)
qed

lemma write_mods_changed:
  assumes "mem_client c" "up c p" "mem_live m" "(k, attrs) \<in> set (entries m)" "plain_mods names mods"
  shows "\<exists>p' m'. write_mods c op i k mods p m = Some (Inr (), p', m') \<and> up c p' \<and>
    changed m (k, attrs) (k, fold apply_mod mods attrs) m'"
proof (cases "mods = []")
  case True
  with assms show ?thesis by (auto simp: write_mods_def ret_def changed_def)
next
  case False
  let ?m = "m\<lparr>entries := map_put k (fold apply_mod mods attrs) (entries m)\<rparr>"
  have ok: "mem_ok m" using assms(3) by (simp add: mem_live_def)
  then have e: "entry_of m k = Some (k, attrs)" by (rule entry_of_unique [OF _ assms(4)]) (simp add: equalFoldDN_def)
  have "attrs_ok attrs" using ok assms(4) by (auto simp: mem_ok_def attrs_ok_def)
  then have "attrs_ok (fold apply_mod mods attrs)" by (rule attrs_ok_apply_mods)
  note ch = changed_put [OF assms(3,4) this]
  let ?fn = "\<lambda>cn w. effect (cModify cn k mods [] w)"
  have fn: "?fn (memConn (ad c)) m = (Inr (), ?m)" by (simp add: mem_Modify_entry [OF ok e] effect_def)
  from run_quiet [where fn = ?fn and op = op and d = "()", OF mem_clientD(1) [OF assms(1)] assms(2) fn] ch False
  show ?thesis by (auto simp: write_mods_def prog_simps)
qed

text \<open>Attributes that neither select an object of its class nor name it by its GUID.\<close>

definition keys_free :: "string list \<Rightarrow> bool" where
  "keys_free names \<longleftrightarrow> set (lower_names names) \<inter> {''objectguid'', ''objectclass'', ''isdeleted''} = {}"

lemma mods_keep:
  assumes "attrs_ok attrs" "plain_mods names mods" "keys_free names"
  shows "class_match cls (fold apply_mod mods attrs) = class_match cls attrs"
    "guid_match b (fold apply_mod mods attrs) = guid_match b attrs"
    "isTombstone (fold apply_mod mods attrs) = isTombstone attrs"
proof -
  have "ToLower ''objectGUID'' = ''objectguid''" "ToLower ''objectClass'' = ''objectclass''" "ToLower ''isDeleted'' = ''isdeleted''"
    by code_simp+
  with assms(3) have "ToLower n \<notin> set (lower_names names)" if "n \<in> {''objectGUID'', ''objectClass'', ''isDeleted''}" for n
    using that by (auto simp: keys_free_def)
  then have "lookupFold (fold apply_mod mods attrs) n = lookupFold attrs n" if "n \<in> {''objectGUID'', ''objectClass'', ''isDeleted''}" for n
    using lookupFold_mods [OF assms(1,2)] that by blast
  then show "class_match cls (fold apply_mod mods attrs) = class_match cls attrs"
    "guid_match b (fold apply_mod mods attrs) = guid_match b attrs"
    "isTombstone (fold apply_mod mods attrs) = isTombstone attrs"
    by (simp_all add: class_match_def guid_match_def has_value_def isTombstone_def)
qed

section \<open>Reading, changing and deleting an object\<close>

text \<open>
  What the handlers of an object class promise over the in-memory directory: a read of the identity
  that names one object gives that object, a read of one that names none says so.
\<close>

locale directory_object =
  fixes get :: "(mem_server, 'id) core \<Rightarrow> 'id \<Rightarrow> (mem_server, 'm) prog"
    and cls :: string
    and model :: "'id adcore \<Rightarrow> entry \<Rightarrow> 'm res"
    and dnOf guidOf :: "'m \<Rightarrow> string"
  assumes get_law: "mem_client c \<Longrightarrow> up c p \<Longrightarrow> mem_live m \<Longrightarrow> plain_identity (ad c) i \<Longrightarrow>
      named c m cls i = [(k, attrs)] \<Longrightarrow> model (ad c) \<lparr>DN = k, Attrs = attrs\<rparr> = Inr x \<Longrightarrow>
      \<exists>p'. up c p' \<and> get c i p m = Some (Inr x, p', m)"
    and missing_law: "mem_client c \<Longrightarrow> up c p \<Longrightarrow> mem_live m \<Longrightarrow> plain_identity (ad c) i \<Longrightarrow> named c m cls i = [] \<Longrightarrow>
      \<exists>p' op. up c p' \<and> get c i p m = Some (Inl (notFound (ad c) op i cls), p', m)"
    and model_law: "model a e = Inr x \<Longrightarrow> dnOf x = DN e \<and> GUIDToString (First e ''objectGUID'') = Inr (guidOf x)"
begin

lemma by_guid:
  assumes "mem_client c" "model (ad c) \<lparr>DN = k, Attrs = attrs\<rparr> = Inr x"
    "plain_guid (First \<lparr>DN = k, Attrs = attrs\<rparr> ''objectGUID'')"
  shows "plain_identity (ad c) (ByGUID (ad c) (guidOf x))"
    "ident_match (ad c) (ByGUID (ad c) (guidOf x)) = guid_match (First \<lparr>DN = k, Attrs = attrs\<rparr> ''objectGUID'')"
proof -
  let ?b = "First \<lparr>DN = k, Attrs = attrs\<rparr> ''objectGUID''"
  have "length ?b = 16" using assms(3) by (simp add: plain_guid_def)
  then obtain s where "GUIDToString ?b = Inr s" "GUIDToBytes s = Inr ?b" by (rule GUID_print_parse)
  with model_law [OF assms(2)] have "GUIDToBytes (guidOf x) = Inr ?b" by simp
  with assms(1,3) show "plain_identity (ad c) (ByGUID (ad c) (guidOf x))"
    "ident_match (ad c) (ByGUID (ad c) (guidOf x)) = guid_match ?b"
    by (auto simp: plain_identity_def ident_match_def mem_clientD [OF assms(1)])
qed

lemma delete:
  assumes c: "mem_client c" "up c p" "mem_live m"
    and i: "plain_identity (ad c) i" "named c m cls i = [(k, attrs)]"
    and x: "model (ad c) \<lparr>DN = k, Attrs = attrs\<rparr> = Inr x" "plain_guid (First \<lparr>DN = k, Attrs = attrs\<rparr> ''objectGUID'')"
      "named c m cls (ByGUID (ad c) (guidOf x)) = [(k, attrs)]"
    and leaf: "\<forall>e \<in> set (entries m). isUnder (fst e) k \<longrightarrow> fst e = k"
    and m': "m' = m\<lparr>entries := map_delete k (entries m)\<rparr>"
  shows "\<exists>p'. delete_object c op i (get c) dnOf guidOf p m = Some (Inr (), p', m') \<and> up c p' \<and> mem_live m' \<and>
    named c m' cls i = [] \<and> entry_of m' k = None"
proof -
  have ok: "mem_ok m" using c(3) by (simp add: mem_live_def)
  note e = named_entry [OF ok i(2)]
  have k: "k \<noteq> []" "keyLocked m k = k" using ok e(1,3) by (auto simp: mem_ok_def keyLocked_def entry_of_def)
  have live: "mem_live m'" using c(3) mem_ok_delete [of m k] by (simp add: m' mem_live_def)
  from get_law [OF c i x(1)] obtain p1 where p1: "up c p1" "get c i p m = Some (Inr x, p1, m)" by blast
  let ?fn = "\<lambda>cn w. effect (cDelete cn k w)"
  have "\<not> list_ex (\<lambda>e. fst e \<noteq> k \<and> isUnder (fst e) k) (entries m)" using leaf by (auto simp: list_ex_iff)
  then have fn: "?fn (memConn (ad c)) m = (Inr (), m')"
    using k by (simp add: mem_Delete_def Let_def effect_def m')
  from run_quiet [where fn = ?fn and op = op and d = "()", OF mem_clientD(1) [OF c(1)] p1(1) fn]
  obtain p2 where p2: "up c p2" "run c op () ?fn p1 m = Some (Inr (), p2, m')" by auto
  have gone: "named c m' cls j = []" if "named c m cls j = [(k, attrs)]" for j
  proof -
    have "named c m' cls j = filter (\<lambda>e. fst e \<noteq> k) (named c m cls j)"
      by (simp add: named_def found_def m' map_delete_def conj_commute)
    with that show ?thesis by simp
  qed
  from missing_law [OF c(1) p2(1) live by_guid(1) [OF c(1) x(1,2)] gone [OF x(3)]]
  obtain p3 op' where p3: "up c p3" "get c (ByGUID (ad c) (guidOf x)) p2 m' =
      Some (Inl (notFound (ad c) op' (ByGUID (ad c) (guidOf x)) cls), p3, m')" by blast
  have "delete_object c op i (get c) dnOf guidOf p m = Some (Inr (), p3, m')"
    using p1(2) p2(2) p3(2) model_law [OF x(1)] mem_clientD(8) [OF c(1)]
    by (simp add: delete_object_def confirm_gone_def prog_simps)
  moreover have "entry_of m' k = None"
  proof -
    have "\<not> equalFoldDN (fst y) k" if "y \<in> set (entries m)" "fst y \<noteq> k" for y
      using leaf that by (auto simp: isUnder_def)
    then show ?thesis by (auto simp: entry_of_def find_None_iff m' map_delete_def)
  qed
  ultimately show ?thesis using p3(1) live gone [OF i(2)] by blast
qed

lemma update:
  assumes c: "mem_client c" "up c p" "mem_live m"
    and i: "plain_identity (ad c) i" "named c m cls i = [(k, attrs)]"
    and x: "model (ad c) \<lparr>DN = k, Attrs = attrs\<rparr> = Inr x" "plain_guid (First \<lparr>DN = k, Attrs = attrs\<rparr> ''objectGUID'')"
      "named c m cls (ByGUID (ad c) (guidOf x)) = [(k, attrs)]"
    and mods: "plain_mods names mods" "keys_free names" "model (ad c) \<lparr>DN = k, Attrs = fold apply_mod mods attrs\<rparr> = Inr y"
  shows "\<exists>p1 p2 p3 m'. get c i p m = Some (Inr x, p1, m) \<and> write_mods c op i k mods p1 m = Some (Inr (), p2, m') \<and>
    get c (ByGUID (ad c) (guidOf x)) p2 m' = Some (Inr y, p3, m') \<and> up c p3 \<and>
    named c m' cls (ByGUID (ad c) (guidOf x)) = [(k, fold apply_mod mods attrs)] \<and>
    set (entries m') = insert (k, fold apply_mod mods attrs) (set (entries m) - {(k, attrs)})"
proof -
  let ?attrs = "fold apply_mod mods attrs" and ?j = "ByGUID (ad c) (guidOf x)"
  have ok: "mem_ok m" using c(3) by (simp add: mem_live_def)
  note e = named_entry [OF ok i(2)]
  note guid = by_guid [OF c(1) x(1,2)]
  from get_law [OF c i x(1)] obtain p1 where p1: "up c p1" "get c i p m = Some (Inr x, p1, m)" by blast
  from write_mods_changed [OF c(1) p1(1) c(3) e(1) mods(1), of op i] obtain p2 m' where
    w: "write_mods c op i k mods p1 m = Some (Inr (), p2, m')" "up c p2" and ch: "changed m (k, attrs) (k, ?attrs) m'" by blast
  have live: "mem_live m'" using ch by (simp add: changed_def)
  note keep = mods_keep [OF e(2) mods(1,2)]
  have n: "named c m' cls ?j = [(k, ?attrs)]"
    using found_changed [OF ok x(3) [unfolded named_def] ch] named_entry(4-7) [OF ok x(3)]
    by (simp add: named_def guid(2) keep)
  from get_law [OF c(1) w(2) live guid(1) n mods(3)] obtain p3 where
    "up c p3" "get c ?j p2 m' = Some (Inr y, p3, m')" by blast
  with p1(2) w(1) n ch [unfolded changed_def] show ?thesis by blast
qed

text \<open>A delete of what is not there succeeds and changes nothing.\<close>

lemma delete_missing:
  assumes "mem_client c" "up c p" "mem_live m" "plain_identity (ad c) i" "named c m cls i = []"
  shows "\<exists>p'. delete_object c op i (get c) dnOf guidOf p m = Some (Inr (), p', m) \<and> up c p'"
  using missing_law [OF assms] mem_clientD(8) [OF assms(1)] by (auto simp: delete_object_def prog_simps)

end

section \<open>The handlers that keep the contract\<close>

lemma First_wanted:
  "attrs_ok attrs \<Longrightarrow> list_all (\<lambda>w. baseAttr w = w) want \<Longrightarrow> name \<in> set want \<Longrightarrow>
     First (shown want (k, attrs)) name = First \<lparr>DN = k, Attrs = attrs\<rparr> name"
  by (rule First_shown [of attrs name]) (auto simp: list_all_iff)

lemma plain_attrs:
  "list_all (\<lambda>w. baseAttr w = w) groupAttrs" "list_all (\<lambda>w. baseAttr w = w) userAttrs" "list_all (\<lambda>w. baseAttr w = w) ouAttrs"
  by code_simp+

lemma DN_shown [simp]: "DN (shown want (k, attrs)) = k"
  by (simp add: shown_def)

lemma group_model_shown:
  assumes "attrs_ok attrs"
  shows "group_model a (shown groupAttrs (k, attrs)) = group_model a \<lparr>DN = k, Attrs = attrs\<rparr>"
proof -
  have "First (shown groupAttrs (k, attrs)) n = First \<lparr>DN = k, Attrs = attrs\<rparr> n"
    if "n \<in> {''objectGUID'', ''objectSid'', ''groupType'', ''name'', ''sAMAccountName'', ''description'', ''managedBy''}" for n
    by (rule First_wanted [OF assms plain_attrs(1)]) (use that in \<open>auto simp: groupAttrs_def\<close>)
  then show ?thesis by (simp add: group_model_def FirstString_def)
qed

lemma user_model_shown:
  assumes "attrs_ok attrs"
  shows "user_model a (shown userAttrs (k, attrs)) = user_model a \<lparr>DN = k, Attrs = attrs\<rparr>"
proof -
  have "First (shown userAttrs (k, attrs)) n = First \<lparr>DN = k, Attrs = attrs\<rparr> n" if "n \<in> set userAttrs" for n
    by (rule First_wanted [OF assms plain_attrs(2) that])
  then show ?thesis by (simp add: userAttrs_def user_model_def FirstString_def uint_or_zero_def mustSID_def)
qed

lemma ou_model_shown:
  assumes "attrs_ok attrs"
  shows "ou_model a (shown ouAttrs (k, attrs)) = ou_model a \<lparr>DN = k, Attrs = attrs\<rparr>"
proof -
  have "First (shown ouAttrs (k, attrs)) n = First \<lparr>DN = k, Attrs = attrs\<rparr> n" if "n \<in> set ouAttrs" for n
    by (rule First_wanted [OF assms plain_attrs(3) that])
  then show ?thesis by (simp add: ouAttrs_def ou_model_def FirstString_def)
qed

text \<open>A handler that reads one entry and makes a model of it, from attributes it asked for.\<close>

locale reading_handler =
  fixes get :: "(mem_server, 'id) core \<Rightarrow> 'id \<Rightarrow> (mem_server, 'm) prog"
    and cls :: string
    and model :: "'id adcore \<Rightarrow> entry \<Rightarrow> 'm res"
    and dnOf guidOf :: "'m \<Rightarrow> string"
    and op :: string
    and want :: "string list"
    and controls :: "control list"
  assumes get_eq: "get c i = andThen (getOne c op i cls want controls) (\<lambda>e.
        case model (ad c) e of Inl err \<Rightarrow> fail (ad_err KindTransport op err) | Inr x \<Rightarrow> ret x)"
    and plain_class: "plain_value cls"
    and live_only: "\<not> hasControl controls ControlShowDeleted"
    and model_shown: "attrs_ok attrs \<Longrightarrow> model a (shown want (k, attrs)) = model a \<lparr>DN = k, Attrs = attrs\<rparr>"
    and model_key: "model a e = Inr x \<Longrightarrow> dnOf x = DN e \<and> GUIDToString (First e ''objectGUID'') = Inr (guidOf x)"
begin

lemma get_named:
  assumes "mem_client c" "up c p" "mem_live m" "plain_identity (ad c) i" "length (named c m cls i) \<le> 1"
  shows "\<exists>p'. up c p' \<and> getOne c op i cls want controls p m =
    Some (case named c m cls i of [] \<Rightarrow> Inl (notFound (ad c) op i cls) | e # _ \<Rightarrow> Inr (shown want e), p', m)"
  by (rule getOne_named [OF mem_clientD(1) [OF assms(1)] assms(2) mem_clientD(2) [OF assms(1)] assms(4)])
     (use assms(3,5) plain_class live_only in \<open>simp_all add: mem_live_def\<close>)

end

sublocale reading_handler \<subseteq> directory_object get cls model dnOf guidOf
proof
  fix c :: "(mem_server, 'id) core" and p m i k attrs x
  assume c: "mem_client c" "up c p" "mem_live m" "plain_identity (ad c) i"
  note one = get_named [OF c]
  show "\<exists>p'. up c p' \<and> get c i p m = Some (Inr x, p', m)"
    if n: "named c m cls i = [(k, attrs)]" and x: "model (ad c) \<lparr>DN = k, Attrs = attrs\<rparr> = Inr x"
  proof -
    have "mem_ok m" using c(3) by (simp add: mem_live_def)
    from one n x model_shown [OF named_entry(2) [OF this n], of "ad c" k] show ?thesis
      by (auto simp: get_eq prog_simps)
  qed
  show "\<exists>p' op. up c p' \<and> get c i p m = Some (Inl (notFound (ad c) op i cls), p', m)" if "named c m cls i = []"
    using one that by (auto simp: get_eq prog_simps)
qed (rule model_key)

lemma sdDACL_shown: "\<not> hasControl [sdDACL] ControlShowDeleted"
  by (simp add: hasControl_def sdDACL_def SDFlagsControl_def ControlShowDeleted_def)

interpretation groups: reading_handler group_Get "''group''" group_model gDN gGUID "''Group.Get''" groupAttrs "[]"
  by unfold_locales (simp_all add: group_Get_def group_model_shown plain_value_def hasControl_def group_model_Inr)

interpretation users: reading_handler user_Get "''user''" user_model uDN uGUID "''User.Get''" userAttrs "[sdDACL]"
  by unfold_locales (simp_all add: user_Get_def user_model_shown plain_value_def sdDACL_shown user_model_Inr)

lemma ou_model_key: "ou_model a e = Inr x \<Longrightarrow> ouDN x = DN e \<and> GUIDToString (First e ''objectGUID'') = Inr (ouGUID x)"
  by (auto simp: ou_model_def)

interpretation ous: reading_handler ou_Get "''organizationalUnit''" ou_model ouDN ouGUID "''OU.Get''" ouAttrs "[sdDACL]"
  by unfold_locales (simp_all add: ou_Get_def ou_model_shown plain_value_def sdDACL_shown ou_model_key)

section \<open>Updates\<close>

lemma with_wait_off: "\<not> rWait (repl c) \<Longrightarrow> with_wait fuel c guid x p w = Some (Inr (x, None), p, w)"
  by (simp add: with_wait_def replicate_wait_def prog_simps)

lemma keys_kept: "keys_free groupModAttrs" "keys_free userModAttrs"
  by code_simp+

text \<open>A group that keeps its name and container.\<close>

lemma group_Update_stays:
  assumes c: "mem_client c" "up c p" "mem_live m"
    and i: "plain_identity (ad c) i" "named c m ''group'' i = [(k, attrs)]"
    and g: "group_model (ad c) \<lparr>DN = k, Attrs = attrs\<rparr> = Inr g" "plain_guid (First \<lparr>DN = k, Attrs = attrs\<rparr> ''objectGUID'')"
      "named c m ''group'' (ByGUID (ad c) (gGUID g)) = [(k, attrs)]"
    and spec: "GroupValidate (ad c) gs ''Group.Update'' False = None"
      "gsScope gs = GroupScopeOther [] \<or> named_scope (gsScope gs)"
      "gsCategory gs = GroupCategoryOther [] \<or> named_category (gsCategory gs)"
      "gsName gs = gName g" "EqualFoldDN (ad c) (gsContainer gs) (gContainer g) = Inr True"
  shows "\<exists>p' m' attrs'. group_Update fuel c i gs p m = Some (Inr (group_asked gs g, None), p', m') \<and>
    named c m' ''group'' (ByGUID (ad c) (gGUID g)) = [(k, attrs')] \<and>
    group_model (ad c) \<lparr>DN = k, Attrs = attrs'\<rparr> = Inr (group_asked gs g) \<and>
    set (entries m') = insert (k, attrs') (set (entries m) - {(k, attrs)})"
proof -
  let ?attrs = "fold apply_mod (group_mods gs g) attrs"
  have "attrs_ok attrs" using named_entry(2) [OF _ i(2)] c(3) by (simp add: mem_live_def)
  note after = group_model_after [OF this g(1) spec(2,3)]
  have dn: "gDN g = k" using g(1) by (simp add: group_model_Inr)
  from groups.update [OF c i g group_mods_plain keys_kept(1) after, of "''Group.Update''"]
  obtain p1 p2 p3 m' where u: "group_Get c i p m = Some (Inr g, p1, m)"
    "write_mods c ''Group.Update'' i k (group_mods gs g) p1 m = Some (Inr (), p2, m')"
    "group_Get c (ByGUID (ad c) (gGUID g)) p2 m' = Some (Inr (group_asked gs g), p3, m')"
    and stored: "named c m' ''group'' (ByGUID (ad c) (gGUID g)) = [(k, ?attrs)]"
      "set (entries m') = insert (k, ?attrs) (set (entries m) - {(k, attrs)})"
    by (elim exE conjE) (rule that; assumption)
  have "group_Update fuel c i gs p m = Some (Inr (group_asked gs g, None), p3, m')"
    using u dn spec(1,4,5) mem_clientD(3) [OF c(1)]
    by (simp add: group_Update_def Let_def andThen_def handle_def rename_or_move_def ret_def with_wait_off)
  with stored after show ?thesis by blast
qed

section \<open>A small directory\<close>

lemma sample_container: "ContainerOf sample_ad ''CN=u,DC=corp'' = Inr ''DC=corp''" "ContainerOf sample_ad ''CN=g,DC=corp'' = Inr ''DC=corp''"
  by (simp_all add: sample_ad_def Index.simps HasPrefix_def)

definition enable_spec :: user_spec where
  "enable_spec =
     \<lparr>usName = None, usSamAccountName = [], usContainer = ''DC=corp'', usUserPrincipalName = None, usDisplayName = Some ''U'',
      usGivenName = None, usSurname = None, usDescription = Some [], usEnabled = Some True, usPasswordExpires = None,
      usChangePasswordAtLogon = None, usCanChangePassword = None, usPassword = None, usAccountExpiration = ExpirationKeep\<rparr>"

lemma more_lower_names:
  "ToLower ''objectClass'' = ''objectclass''" "ToLower ''cn'' = ''cn''" "ToLower ''distinguishedName'' = ''distinguishedname''"
  "ToLower ''isDeleted'' = ''isdeleted''"
  by code_simp+

definition small_group :: attr_map where
  "small_group =
     [(''objectClass'', [bytes_of ''top'', bytes_of ''group'']), (''objectGUID'', [replicate 16 1]), (''name'', [bytes_of ''g'']),
      (''distinguishedName'', [bytes_of ''CN=g,DC=corp'']), (''groupType'', [bytes_of ''2''])]"

definition small_user :: attr_map where
  "small_user =
     [(''objectClass'', [bytes_of ''top'', bytes_of ''user'']), (''objectGUID'', [replicate 16 2]), (''name'', [bytes_of ''u'']),
      (''distinguishedName'', [bytes_of ''CN=u,DC=corp'']), (''userAccountControl'', [bytes_of ''514''])]"

definition small_dir :: mem_server where
  "small_dir = \<lparr>entries = [(''CN=g,DC=corp'', small_group), (''CN=u,DC=corp'', small_user)], seq = 2, rangeLimit = 0\<rparr>"

abbreviation small_client :: "(mem_server, string \<times> string) core" where
  "small_client \<equiv> client_of (memConn sample_ad)"

lemma sample_ad_names [simp]:
  "IdentityForm sample_ad (ByGUID sample_ad s) = ''guid''" "IdentityArg sample_ad (ByGUID sample_ad s) = s"
  "IdentityForm sample_ad (ByDN sample_ad s) = ''dn''" "IdentityArg sample_ad (ByDN sample_ad s) = s"
  "IdentityForm sample_ad (f, s) = f" "IdentityArg sample_ad (f, s) = s"
  by (simp_all add: sample_ad_def)

lemma small_client: "mem_client small_client"
proof -
  have "quiet small_client (memConn sample_ad)" by (rule quiet_client_of) simp
  moreover have "filter_laws sample_ad" by (simp add: filter_laws_def sample_ad_def)
  moreover have "IsErrNotFound sample_ad (notFound sample_ad op i cls)" for op i cls
    by (simp add: sample_ad_def notFound_def has_kind_def Let_def)
  ultimately show ?thesis by (simp add: mem_client_def)
qed

lemma small_live: "mem_live small_dir"
  by code_simp

lemma small_keys: "attrs_ok small_group" "attrs_ok small_user"
  by code_simp+

lemma sample_ad_dn:
  "ident_match sample_ad (''dn'', s) = (\<lambda>attrs. has_value attrs ''distinguishedName'' (\<lambda>v. EqualFold (str_of v) s))"
  by (simp add: fun_eq_iff ident_match_def)

lemma small_lookup:
  "lookupFold small_group ''objectClass'' = Some [bytes_of ''top'', bytes_of ''group'']"
  "lookupFold small_user ''objectClass'' = Some [bytes_of ''top'', bytes_of ''user'']"
  "lookupFold small_group ''objectGUID'' = Some [replicate 16 1]" "lookupFold small_user ''objectGUID'' = Some [replicate 16 2]"
  "lookupFold small_group ''distinguishedName'' = Some [bytes_of ''CN=g,DC=corp'']"
  "lookupFold small_user ''distinguishedName'' = Some [bytes_of ''CN=u,DC=corp'']"
  "lookupFold small_group ''isDeleted'' = None" "lookupFold small_user ''isDeleted'' = None"
  by (simp_all add: small_group_def small_user_def lookupFold_def EqualFold_def lower_user_names more_lower_names)

lemma small_found:
  "found small_dir ''DC=corp'' ScopeSubtree (\<lambda>attrs. class_match ''group'' attrs \<and> P attrs) =
     (if P small_group then [(''CN=g,DC=corp'', small_group)] else [])"
  "found small_dir ''DC=corp'' ScopeSubtree (\<lambda>attrs. class_match ''user'' attrs \<and> P attrs) =
     (if P small_user then [(''CN=u,DC=corp'', small_user)] else [])"
proof -
  have "isUnder ''CN=g,DC=corp'' ''DC=corp''" "isUnder ''CN=u,DC=corp'' ''DC=corp''" by code_simp+
  moreover have "\<not> isTombstone small_group" "\<not> isTombstone small_user" by (simp_all add: isTombstone_def small_lookup)
  moreover have "ToLower ''group'' = ''group''" "ToLower ''user'' = ''user''" "ToLower ''top'' = ''top''" by code_simp+
  then have "class_match ''group'' small_group" "\<not> class_match ''group'' small_user" "class_match ''user'' small_user"
    "\<not> class_match ''user'' small_group"
    by (simp_all add: class_match_def has_value_def small_lookup EqualFold_def)
  ultimately show
    "found small_dir ''DC=corp'' ScopeSubtree (\<lambda>attrs. class_match ''group'' attrs \<and> P attrs) =
       (if P small_group then [(''CN=g,DC=corp'', small_group)] else [])"
    "found small_dir ''DC=corp'' ScopeSubtree (\<lambda>attrs. class_match ''user'' attrs \<and> P attrs) =
       (if P small_user then [(''CN=u,DC=corp'', small_user)] else [])"
    by (simp_all add: found_def small_dir_def)
qed

lemma small_named:
  "named small_client small_dir ''group'' (''dn'', ''CN=g,DC=corp'') = [(''CN=g,DC=corp'', small_group)]"
  "named small_client small_dir ''user'' (''dn'', ''CN=u,DC=corp'') = [(''CN=u,DC=corp'', small_user)]"
  by (simp_all add: named_def small_found sample_ad_dn has_value_def small_lookup)

lemma small_guids:
  "First \<lparr>DN = ''CN=g,DC=corp'', Attrs = small_group\<rparr> ''objectGUID'' = replicate 16 1"
  "First \<lparr>DN = ''CN=u,DC=corp'', Attrs = small_user\<rparr> ''objectGUID'' = replicate 16 2"
  "plain_guid (replicate 16 1)" "plain_guid (replicate 16 2)"
  by code_simp+

lemma small_group_model:
  "\<exists>g. group_model sample_ad \<lparr>DN = ''CN=g,DC=corp'', Attrs = small_group\<rparr> = Inr g \<and> gName g = ''g'' \<and> gContainer g = ''DC=corp'' \<and>
     gScope g = GroupScopeGlobal \<and> gCategory g = GroupCategoryDistribution"
proof -
  let ?g = "\<lparr>DN = ''CN=g,DC=corp'', Attrs = small_group\<rparr>"
  have g: "First ?g ''objectSid'' = []" "First ?g ''groupType'' = bytes_of ''2''" "First ?g ''name'' = bytes_of ''g''"
    using small_keys(1) by (simp_all add: First_lookup) (simp_all add: small_group_def lookupFold_def EqualFold_def lower_user_names more_lower_names)
  have "GroupTypeString 2 = ''2''"
    by (simp add: GroupTypeString_def FormatInt_def fmt_nat.simps digit_char_def char_of_def bit_0)
  then have two: "ParseGroupType ''2'' = Inr 2" "ScopeAndCategory 2 = (GroupScopeGlobal, GroupCategoryDistribution)"
    using parse_signed_word(1) [of 2] by (simp_all add: ParseGroupType_def GroupTypeString_def ScopeAndCategory_def group_type_defs)
  have "length (replicate 16 (1 :: byte)) = 16" by simp
  then obtain s where "GUIDToString (replicate 16 1) = Inr s" by (rule GUID_print_parse)
  then show ?thesis by (simp add: group_model_def g small_guids(1) sample_container FirstString_def two)
qed

lemma small_user_model:
  "\<exists>u. user_model sample_ad \<lparr>DN = ''CN=u,DC=corp'', Attrs = small_user\<rparr> = Inr u \<and> uName u = ''u'' \<and> uContainer u = ''DC=corp'' \<and>
     \<not> uEnabled u"
proof -
  let ?u = "\<lparr>DN = ''CN=u,DC=corp'', Attrs = small_user\<rparr>"
  have u: "First ?u ''nTSecurityDescriptor'' = []" "First ?u ''userAccountControl'' = bytes_of ''514''"
    "First ?u ''accountExpires'' = []" "First ?u ''name'' = bytes_of ''u''"
    using small_keys(2) by (simp_all add: First_lookup) (simp_all add: small_user_def lookupFold_def EqualFold_def lower_user_names more_lower_names)
  have "Uint32String 514 = ''514''"
    by (simp add: Uint32String_def FormatInt_def fmt_nat.simps digit_char_def char_of_def bit_0)
  with ParseUint32_Uint32String(1) [of 514] have uac: "ParseUint32 ''514'' = Inr 514" by simp
  have str_Nil: "str_of [] = []" by (simp add: str_of_def)
  have "length (replicate 16 (2 :: byte)) = 16" by simp
  then obtain s where "GUIDToString (replicate 16 2) = Inr s" by (rule GUID_print_parse)
  then show ?thesis
    by (simp add: user_model_def u small_guids(2) sample_container uint_or_zero_def FirstString_def uac
        FileTimeToTime_def UACAccountDisable_def str_Nil)
qed

lemma small_named_guid:
  assumes "group_model sample_ad \<lparr>DN = ''CN=g,DC=corp'', Attrs = small_group\<rparr> = Inr g"
  shows "named small_client small_dir ''group'' (ByGUID sample_ad (gGUID g)) = [(''CN=g,DC=corp'', small_group)]"
proof -
  have m: "ident_match sample_ad (ByGUID sample_ad (gGUID g)) = guid_match (replicate 16 1)"
    using groups.by_guid(2) [OF small_client, of "''CN=g,DC=corp''" small_group g] assms by (simp add: small_guids)
  show ?thesis by (simp add: named_def small_found m guid_match_def has_value_def small_lookup)
qed

lemma small_named_guid_user:
  assumes "user_model sample_ad \<lparr>DN = ''CN=u,DC=corp'', Attrs = small_user\<rparr> = Inr u"
  shows "named small_client small_dir ''user'' (ByGUID sample_ad (uGUID u)) = [(''CN=u,DC=corp'', small_user)]"
proof -
  have m: "ident_match sample_ad (ByGUID sample_ad (uGUID u)) = guid_match (replicate 16 2)"
    using users.by_guid(2) [OF small_client, of "''CN=u,DC=corp''" small_user u] assms by (simp add: small_guids)
  show ?thesis by (simp add: named_def small_found m guid_match_def has_value_def small_lookup)
qed

lemma small_plain:
  "plain_identity sample_ad (''dn'', ''CN=g,DC=corp'')" "plain_identity sample_ad (''dn'', ''CN=u,DC=corp'')"
  by code_simp+

lemma small_spec:
  "UserValidate sample_ad us op = None" "GroupValidate sample_ad gs op b = None" "EqualFoldDN sample_ad s t = Inr (EqualFold s t)"
  by (simp_all add: sample_ad_def)

section \<open>Properties\<close>



text \<open>
  C21. A delete of a group or a user over the in-memory directory succeeds, removes exactly that object, and asked
  for again succeeds without a change.
\<close>

theorem Delete_removes:
  assumes c: "mem_client c" "open_pool (memConn (ad c)) p" "mem_live m" "plain_identity (ad c) i"
    and leaf: "\<forall>e \<in> set (entries m). isUnder (fst e) k \<longrightarrow> fst e = k"
    and guid: "plain_guid (First \<lparr>DN = k, Attrs = attrs\<rparr> ''objectGUID'')"
    and m': "m' = m\<lparr>entries := map_delete k (entries m)\<rparr>"
  shows "(named c m ''group'' i = [(k, attrs)] \<and> group_model (ad c) \<lparr>DN = k, Attrs = attrs\<rparr> = Inr g \<and>
       named c m ''group'' (ByGUID (ad c) (gGUID g)) = [(k, attrs)] \<longrightarrow>
       (\<exists>p1 p2. group_Delete c i p m = Some (Inr (), p1, m') \<and> entry_of m' k = None \<and>
          group_Delete c i p1 m' = Some (Inr (), p2, m'))) \<and>
    (named c m ''user'' i = [(k, attrs)] \<and> user_model (ad c) \<lparr>DN = k, Attrs = attrs\<rparr> = Inr u \<and>
       named c m ''user'' (ByGUID (ad c) (uGUID u)) = [(k, attrs)] \<longrightarrow>
       (\<exists>p1 p2. user_Delete c i p m = Some (Inr (), p1, m') \<and> entry_of m' k = None \<and>
          user_Delete c i p1 m' = Some (Inr (), p2, m')))"
  unfolding group_Delete_def user_Delete_def
  using groups.delete [OF c _ _ guid _ leaf m'] groups.delete_missing [OF c(1) _ _ c(4)]
    users.delete [OF c _ _ guid _ leaf m'] users.delete_missing [OF c(1) _ _ c(4)]
  by meson

theorem Delete_removes_witness:
  "\<exists>p1 p2 m'. group_Delete small_client (''dn'', ''CN=g,DC=corp'') (NewPool 1) small_dir = Some (Inr (), p1, m') \<and>
     entry_of m' ''CN=g,DC=corp'' = None \<and> length (entries m') = 1 \<and>
     group_Delete small_client (''dn'', ''CN=g,DC=corp'') p1 m' = Some (Inr (), p2, m')"
proof -
  obtain g where g: "group_model sample_ad \<lparr>DN = ''CN=g,DC=corp'', Attrs = small_group\<rparr> = Inr g" using small_group_model by blast
  have leaf: "\<forall>e \<in> set (entries small_dir). isUnder (fst e) ''CN=g,DC=corp'' \<longrightarrow> fst e = ''CN=g,DC=corp''"
    and len: "length (map_delete ''CN=g,DC=corp'' (entries small_dir)) = 1"
    by code_simp+
  from Delete_removes [OF small_client, where p = "NewPool 1" and m = small_dir and i = "(''dn'', ''CN=g,DC=corp'')" and
      k = "''CN=g,DC=corp''" and attrs = small_group and g = g, unfolded client_of_simps,
      OF open_pool_NewPool small_live small_plain(1) leaf _ refl, THEN conjunct1] len
  show ?thesis using small_named(1) small_named_guid [OF g] g by (auto simp: small_guids)
qed

end
