(* ===== verification/Creation.thy ===== *)
theory Creation
  imports Lifecycle
begin

text \<open>
  The creation of a group over the in-memory directory: what an add stores, and what the handler
  that re-reads the object returns.
\<close>

section \<open>Case and the normal form of a name\<close>

lemma lower_comma: "lower_char c = CHR '','' \<longleftrightarrow> c = CHR '',''"
proof
  assume h: "lower_char c = CHR '',''"
  have "(of_char (lower_char c) :: nat) = (if is_upper c then of_char c + 32 else of_char c)"
    by (auto simp: lower_char_def is_upper_def)
  with h have "\<not> is_upper c" by (auto simp: is_upper_def)
  with h show "c = CHR '',''" by (simp add: lower_char_def)
qed (simp add: lower_char_def is_upper_def)

lemma is_space_lower [simp]: "is_space (lower_char c) = is_space c"
  by (auto simp: lower_char_def is_upper_def is_space_def)

lemma Split_lower: "Split CHR '','' (ToLower s) = map ToLower (Split CHR '','' s)"
  by (induction s) (auto simp: ToLower_def lower_comma split: list.split)

lemma TrimSpace_lower: "TrimSpace (ToLower s) = ToLower (TrimSpace s)"
  by (simp add: TrimSpace_def ToLower_def dropWhile_map rev_map comp_def)

lemma Join_lower: "Join '','' (map ToLower ps) = ToLower (Join '','' ps)"
  by (induction "'',''" ps rule: Join.induct) (simp_all add: ToLower_def lower_char_def is_upper_def)

lemma normalizeDN_lower: "normalizeDN (ToLower s) = ToLower (normalizeDN s)"
  by (simp add: normalizeDN_def Split_lower TrimSpace_lower comp_def flip: Join_lower)

lemma EqualFold_equalFoldDN: "EqualFold a b \<Longrightarrow> equalFoldDN a b"
  unfolding equalFoldDN_def EqualFold_def by (simp flip: normalizeDN_lower)

section \<open>What an add stores\<close>

definition stored_attrs :: "'id adcore \<Rightarrow> string \<Rightarrow> attribute list \<Rightarrow> u32 \<Rightarrow> attr_map" where
  "stored_attrs a dn add n =
     stampSID (map_put ''name'' [bytes_of (rdnValue a dn)] (map_put ''distinguishedName'' [bytes_of dn]
       (map_put ''nTSecurityDescriptor'' [emptyDescriptor] (map_put ''objectGUID'' [le32 n @ replicate 12 0]
         (fold (\<lambda>x. map_put (aType x) (aVals x)) add []))))) (1000 + n)"

lemma mem_Add_new:
  "\<not> existsLocked m dn \<Longrightarrow> mem_Add a dn add m =
     (None, m\<lparr>seq := seq m + 1, entries := map_put dn (stored_attrs a dn add (seq m + 1)) (entries m)\<rparr>)"
  by (simp add: mem_Add_def Let_def nextGUID_def stored_attrs_def)

lemma lookupFold_put1:
  assumes "attrs_ok attrs" "\<forall>kv \<in> set attrs. EqualFold (fst kv) k \<longrightarrow> fst kv = k"
  shows "lookupFold (map_put k v attrs) n = (if EqualFold n k then Some v else lookupFold attrs n)"
proof (cases "EqualFold n k")
  case True
  then have "EqualFold k n" by (simp add: EqualFold_def)
  with lookupFold_Some [OF attrs_ok_put [OF assms, of v], of k v n] True show ?thesis by (simp add: map_put_def)
next
  case False
  have ff: "find P (filter Q l @ [x]) = find P l" if "\<And>y. P y \<Longrightarrow> Q y" "\<not> P x" for P Q l and x :: "string \<times> bytes list"
    using that by (induction l) auto
  have "find (\<lambda>kv. EqualFold (fst kv) n) (filter (\<lambda>kv. fst kv \<noteq> k) attrs @ [(k, v)]) =
      find (\<lambda>kv. EqualFold (fst kv) n) attrs"
    by (rule ff) (use False in \<open>auto simp: EqualFold_def\<close>)
  with False show ?thesis by (simp add: lookupFold_def map_put_def)
qed

lemma lookupFold_put:
  assumes "spelled names" "named_in names attrs" "k \<in> set names"
  shows "lookupFold (map_put k v attrs) n = (if EqualFold n k then Some v else lookupFold attrs n)"
proof (rule lookupFold_put1)
  show "\<forall>kv \<in> set attrs. EqualFold (fst kv) k \<longrightarrow> fst kv = k"
    using assms unfolding named_in_def spelled_def by (meson image_eqI subsetD)
qed (use assms in \<open>simp add: named_in_def\<close>)

lemma lookupFold_added:
  assumes "spelled names" "set (map aType add) \<subseteq> set names"
  shows "lookupFold (fold (\<lambda>x. map_put (aType x) (aVals x)) add []) n =
    map_option aVals (find (\<lambda>x. EqualFold n (aType x)) (rev add))"
  using assms(2)
proof (induction add rule: rev_induct)
  case (snoc x add)
  have "named_in names (fold (\<lambda>x. map_put (aType x) (aVals x)) add [])"
    using snoc.prems by (intro named_in_fold [OF assms(1)]) (simp_all add: named_in_def attrs_ok_def)
  from lookupFold_put [OF assms(1) this, of "aType x" "aVals x" n] snoc show ?case by simp
qed (simp add: lookupFold_def)

lemma map_of_added:
  "map_of (fold (\<lambda>x. map_put (aType x) (aVals x)) add []) n = map_option aVals (find (\<lambda>x. aType x = n) (rev add))"
  by (induction add rule: rev_induct) auto

definition principal_add :: "attribute list \<Rightarrow> bool" where
  "principal_add add \<longleftrightarrow> list_ex (\<lambda>c. ToLower (str_of c) \<in> set principalClasses)
     (case find (\<lambda>x. aType x = ''objectClass'') (rev add) of None \<Rightarrow> [] | Some x \<Rightarrow> aVals x)"

lemma stored_attrs_stamp:
  "stored_attrs a dn add n =
     (let attrs = map_put ''name'' [bytes_of (rdnValue a dn)] (map_put ''distinguishedName'' [bytes_of dn]
        (map_put ''nTSecurityDescriptor'' [emptyDescriptor] (map_put ''objectGUID'' [le32 n @ replicate 12 0]
          (fold (\<lambda>x. map_put (aType x) (aVals x)) add []))))
      in if principal_add add then map_put ''objectSid'' [principalSID (1000 + n)] attrs else attrs)"
  by (simp add: stored_attrs_def stampSID_def map_get_def map_of_added principal_add_def Let_def split: option.split)

lemma stored_lookup:
  assumes "add_ok add"
  shows "attrs_ok (stored_attrs a dn add n)"
    "lookupFold (stored_attrs a dn add n) nm =
       (if EqualFold nm ''objectSid'' \<and> principal_add add then Some [principalSID (1000 + n)]
        else if EqualFold nm ''name'' then Some [bytes_of (rdnValue a dn)]
        else if EqualFold nm ''distinguishedName'' then Some [bytes_of dn]
        else if EqualFold nm ''nTSecurityDescriptor'' then Some [emptyDescriptor]
        else if EqualFold nm ''objectGUID'' then Some [le32 n @ replicate 12 0]
        else map_option aVals (find (\<lambda>x. EqualFold nm (aType x)) (rev add)))"
proof -
  let ?names = "map aType add @ stamped"
  have sp: "spelled ?names" using assms by (simp add: add_ok_def)
  have st: "set stamped \<subseteq> set ?names" by simp
  define f where "f = fold (\<lambda>x. map_put (aType x) (aVals x)) add []"
  have f: "named_in ?names f"
    unfolding f_def by (rule named_in_fold [OF sp]) (simp_all add: named_in_def attrs_ok_def)
  have "k \<in> set ?names" if "k \<in> set stamped" for k using that by simp
  then have k: "''objectGUID'' \<in> set ?names" "''nTSecurityDescriptor'' \<in> set ?names" "''distinguishedName'' \<in> set ?names"
    "''name'' \<in> set ?names" "''objectSid'' \<in> set ?names"
    unfolding stamped_def by (meson list.set_intros)+
  note put = named_in_put [OF sp] and look = lookupFold_put [OF sp]
  have n1: "named_in ?names (map_put ''objectGUID'' v f)" for v by (rule put [OF f k(1)])
  have n2: "named_in ?names (map_put ''nTSecurityDescriptor'' v (map_put ''objectGUID'' w f))" for v w by (rule put [OF n1 k(2)])
  have n3: "named_in ?names (map_put ''distinguishedName'' u (map_put ''nTSecurityDescriptor'' v (map_put ''objectGUID'' w f)))"
    for u v w by (rule put [OF n2 k(3)])
  have n4: "named_in ?names (map_put ''name'' t (map_put ''distinguishedName'' u (map_put ''nTSecurityDescriptor'' v
      (map_put ''objectGUID'' w f))))" for t u v w by (rule put [OF n3 k(4)])
  show "attrs_ok (stored_attrs a dn add n)"
    using put [OF n4 k(5)] n4 unfolding stored_attrs_stamp f_def [symmetric] Let_def named_in_def by simp
  show "lookupFold (stored_attrs a dn add n) nm =
       (if EqualFold nm ''objectSid'' \<and> principal_add add then Some [principalSID (1000 + n)]
        else if EqualFold nm ''name'' then Some [bytes_of (rdnValue a dn)]
        else if EqualFold nm ''distinguishedName'' then Some [bytes_of dn]
        else if EqualFold nm ''nTSecurityDescriptor'' then Some [emptyDescriptor]
        else if EqualFold nm ''objectGUID'' then Some [le32 n @ replicate 12 0]
        else map_option aVals (find (\<lambda>x. EqualFold nm (aType x)) (rev add)))"
    using look [OF n4 k(5)] look [OF n3 k(4)] look [OF n2 k(3)] look [OF n1 k(2)] look [OF f k(1)]
      lookupFold_added [OF sp, of add nm]
    unfolding stored_attrs_stamp f_def [symmetric] Let_def by simp
qed

section \<open>A new group\<close>

lemma spelled_subset: "spelled ys \<Longrightarrow> set xs \<subseteq> set ys \<Longrightarrow> spelled xs"
  by (auto simp: spelled_def)

lemma spelledI: "distinct (map ToLower names) \<Longrightarrow> spelled names"
  by (auto simp: spelled_def distinct_map inj_on_def EqualFold_def)

lemma group_add_ok: "add_ok (group_add_attrs gs)"
proof -
  have "spelled ([''objectClass'', ''cn'', ''sAMAccountName'', ''groupType'', ''description'', ''managedBy''] @ stamped)"
    by (rule spelledI) (simp add: stamped_def lower_user_names more_lower_names)
  then show ?thesis unfolding add_ok_def
    by (rule spelled_subset) (auto simp: group_add_attrs_def add_string_def split: option.split)
qed

lemma find_add_string:
  "find P (rev (add_string attr v)) =
     (if wanted v [] \<noteq> [] \<and> P \<lparr>aType = attr, aVals = [bytes_of (wanted v [])]\<rparr>
      then Some \<lparr>aType = attr, aVals = [bytes_of (wanted v [])]\<rparr> else None)"
  by (auto simp: add_string_def wanted_def split: option.split)

lemmas group_find = group_add_attrs_def find_append find_add_string EqualFold_def lower_user_names more_lower_names

lemma group_principal: "principal_add (group_add_attrs gs)"
proof -
  have "find (\<lambda>x. aType x = ''objectClass'') (rev (group_add_attrs gs)) =
      Some \<lparr>aType = ''objectClass'', aVals = [bytes_of ''top'', bytes_of ''group'']\<rparr>"
    by (simp add: group_find)
  moreover have "ToLower ''group'' \<in> set principalClasses" by code_simp
  ultimately show ?thesis by (simp add: principal_add_def)
qed

lemma group_stored_lookup:
  assumes "attrs = stored_attrs a dn (group_add_attrs gs) n"
  shows "lookupFold attrs ''objectSid'' = Some [principalSID (1000 + n)]"
    "lookupFold attrs ''objectGUID'' = Some [le32 n @ replicate 12 0]"
    "lookupFold attrs ''name'' = Some [bytes_of (rdnValue a dn)]"
    "lookupFold attrs ''distinguishedName'' = Some [bytes_of dn]"
    "lookupFold attrs ''objectClass'' = Some [bytes_of ''top'', bytes_of ''group'']"
    "lookupFold attrs ''sAMAccountName'' = Some [bytes_of (gsSamAccountName gs)]"
    "lookupFold attrs ''groupType'' = Some [bytes_of (GroupTypeString (GroupTypeValue (gsScope gs) (gsCategory gs)))]"
    "lookupFold attrs ''description'' =
       (if wanted (gsDescription gs) [] = [] then None else Some [bytes_of (wanted (gsDescription gs) [])])"
    "lookupFold attrs ''managedBy'' =
       (if wanted (gsManagedBy gs) [] = [] then None else Some [bytes_of (wanted (gsManagedBy gs) [])])"
    "lookupFold attrs ''isDeleted'' = None"
  unfolding assms stored_lookup(2) [OF group_add_ok] eqTrueI [OF group_principal] simp_thms(21)
  by (simp_all add: group_find)

lemma SID_of_principal: "\<exists>s. SIDToString (principalSID rid) = Inr s"
  by (simp add: SIDToString_def principalSID_def DomainSID_def Let_def)

text \<open>The group a new object reads as.\<close>

lemma group_model_stored:
  assumes "named_scope (gsScope gs)" "named_category (gsCategory gs)" "ContainerOf a dn = Inr (gsContainer gs)"
    "rdnValue a dn = gsName gs" "attrs = stored_attrs a dn (group_add_attrs gs) n"
  shows "\<exists>g. group_model a \<lparr>DN = dn, Attrs = attrs\<rparr> = Inr g \<and> gDN g = dn \<and> gName g = gsName gs \<and>
    gSamAccountName g = gsSamAccountName gs \<and> gContainer g = gsContainer gs \<and> gScope g = gsScope gs \<and>
    gCategory g = gsCategory gs \<and> gDescription g = wanted (gsDescription gs) [] \<and> gManagedBy g = wanted (gsManagedBy gs) []"
proof -
  let ?e = "\<lparr>DN = dn, Attrs = attrs\<rparr>"
  have ok: "attrs_ok (Attrs ?e)" using stored_lookup(1) [OF group_add_ok] by (simp add: assms(5))
  note look = group_stored_lookup [OF assms(5)]
  have f: "First ?e ''objectGUID'' = le32 n @ replicate 12 0" "First ?e ''objectSid'' = principalSID (1000 + n)"
    "FirstString ?e ''name'' = gsName gs" "FirstString ?e ''sAMAccountName'' = gsSamAccountName gs"
    "FirstString ?e ''groupType'' = GroupTypeString (GroupTypeValue (gsScope gs) (gsCategory gs))"
    "FirstString ?e ''description'' = wanted (gsDescription gs) []" "FirstString ?e ''managedBy'' = wanted (gsManagedBy gs) []"
    by (simp_all add: FirstString_def First_lookup [OF ok] look assms(4) str_of_def [of "[]"])
  have "length (le32 n @ replicate 12 0) = 16" by simp
  then obtain s where s: "GUIDToString (le32 n @ replicate 12 0) = Inr s" by (rule GUID_print_parse)
  obtain t where t: "SIDToString (principalSID (1000 + n)) = Inr t" using SID_of_principal by blast
  have "principalSID (1000 + n) \<noteq> []" by (simp add: principalSID_def DomainSID_def)
  moreover have "ParseGroupType (GroupTypeString v) = Inr v" for v
    by (simp add: ParseGroupType_def GroupTypeString_def parse_signed_word)
  ultimately show ?thesis
    using s t assms(3) ScopeAndCategory_GroupTypeValue [OF assms(1,2)] by (simp add: group_model_def f)
qed

text \<open>Every entry's \<open>distinguishedName\<close>, if it has one, is its name.\<close>

definition dn_true :: "mem_server \<Rightarrow> bool" where
  "dn_true m \<longleftrightarrow> (\<forall>(k, attrs) \<in> set (entries m). lookupFold attrs ''distinguishedName'' \<in> {None, Some [bytes_of k]})"

lemma named_new:
  assumes "mem_client c" "mem_ok m'" "dn_true m" "\<not> existsLocked m dn" "isUnder dn (dnc c)"
    "set (entries m') = insert (dn, attrs) (set (entries m))" "class_match cls attrs" "\<not> isTombstone attrs"
    "lookupFold attrs ''distinguishedName'' = Some [bytes_of dn]"
  shows "named c m' cls (ByDN (ad c) dn) = [(dn, attrs)]"
proof -
  have i: "ident_match (ad c) (ByDN (ad c) dn) a = has_value a ''distinguishedName'' (\<lambda>v. EqualFold (str_of v) dn)" for a
    by (simp add: ident_match_def mem_clientD [OF assms(1)])
  have "\<not> ident_match (ad c) (ByDN (ad c) dn) (snd e)" if e: "e \<in> set (entries m)" for e
  proof
    assume "ident_match (ad c) (ByDN (ad c) dn) (snd e)"
    with e assms(3) have "EqualFold (fst e) dn" by (fastforce simp: i has_value_def dn_true_def)
    with e assms(4) show False by (auto simp: existsLocked_def list_ex_iff dest: EqualFold_equalFoldDN)
  qed
  moreover have "ident_match (ad c) (ByDN (ad c) dn) attrs" by (simp add: i has_value_def assms(9))
  ultimately show ?thesis
    unfolding named_def using assms(5-8) by (subst found_single [OF assms(2)]) auto
qed

lemma rdnValue_cn:
  assumes "SplitDN a dn = Inr (cnRDN a name # rest)" "remove_char CHR 0x5C (EscapeValue a name) = name"
  shows "rdnValue a dn = name"
  using assms by (simp add: rdnValue_def cnRDN_def HasPrefix_def)

section \<open>Properties\<close>

text \<open>
  C19. \<open>Group.Create\<close> through every layer of the program: over the in-memory directory, a specification whose name is free there is
  created without an error; what the handler returns, read back from the directory, is the group that was asked for
  field by field; the object is stored under the name built from the specification, everything else in the directory is
  as it was, and the directory stays consistent.
\<close>

theorem group_Create_returns:
  assumes c: "mem_client c" "open_pool (memConn (ad c)) p" "mem_live m" "dn_true m"
    and dn: "dn = cnRDN (ad c) (gsName gs) @ '','' @ gsContainer gs" "plain_value dn" "\<not> existsLocked m dn" "isUnder dn (dnc c)"
    and laws: "ContainerOf (ad c) dn = Inr (gsContainer gs)" "SplitDN (ad c) dn = Inr (cnRDN (ad c) (gsName gs) # rest)"
      "remove_char CHR 0x5C (EscapeValue (ad c) (gsName gs)) = gsName gs"
    and spec: "GroupValidate (ad c) gs ''Group.Create'' True = None" "named_scope (gsScope gs)" "named_category (gsCategory gs)"
  shows "\<exists>p' m' g attrs. group_Create fuel c gs p m = Some (Inr (g, None), p', m') \<and> gDN g = dn \<and> gName g = gsName gs \<and>
    gSamAccountName g = gsSamAccountName gs \<and> gContainer g = gsContainer gs \<and> gScope g = gsScope gs \<and>
    gCategory g = gsCategory gs \<and> gDescription g = wanted (gsDescription gs) [] \<and> gManagedBy g = wanted (gsManagedBy gs) [] \<and>
    mem_live m' \<and> dn_true m' \<and> entry_of m' dn = Some (dn, attrs) \<and> group_model (ad c) \<lparr>DN = dn, Attrs = attrs\<rparr> = Inr g \<and>
    (\<forall>e. e \<in> set (entries m') \<longleftrightarrow> e = (dn, attrs) \<or> e \<in> set (entries m))"
proof -
  let ?attrs = "stored_attrs (ad c) dn (group_add_attrs gs) (seq m + 1)"
  let ?m = "m\<lparr>seq := seq m + 1, entries := map_put dn ?attrs (entries m)\<rparr>"
  let ?fn = "\<lambda>cn w. effect (cAdd cn dn (group_add_attrs gs) w)"
  note look = group_stored_lookup [OF refl, of "ad c" dn gs "seq m + 1"]
  have ok: "mem_ok m" "rangeLimit m \<le> 0" using c(3) by (simp_all add: mem_live_def)
  have "dn \<noteq> []" by (simp add: dn(1) cnRDN_def)
  then have ok': "mem_ok ?m" by (rule mem_ok_new [OF ok(1) dn(3) _ stored_lookup(1) [OF group_add_ok]])
  then have live: "mem_live ?m" using ok(2) by (simp add: mem_live_def)
  have "fst e \<noteq> dn" if "e \<in> set (entries m)" for e
    using dn(3) that by (auto simp: existsLocked_def list_ex_iff equalFoldDN_def)
  then have es: "set (entries ?m) = insert (dn, ?attrs) (set (entries m))" by (auto simp: map_put_def)
  have fn: "?fn (memConn (ad c)) m = (Inr (), ?m)" by (simp add: mem_Add_new [OF dn(3)] effect_def)
  from run_quiet [where fn = ?fn and op = "''Group.Create''" and d = "()", OF mem_clientD(1) [OF c(1)] c(2) fn]
  obtain p1 where p1: "open_pool (memConn (ad c)) p1" "run c ''Group.Create'' () ?fn p m = Some (Inr (), p1, ?m)" by auto
  have "class_match ''group'' ?attrs" "\<not> isTombstone ?attrs"
    by (simp_all add: class_match_def has_value_def isTombstone_def look)
  note n = named_new [OF c(1) ok' c(4) dn(3,4) es this look(4)]
  obtain g where g: "group_model (ad c) \<lparr>DN = dn, Attrs = ?attrs\<rparr> = Inr g" "gDN g = dn" "gName g = gsName gs"
    "gSamAccountName g = gsSamAccountName gs" "gContainer g = gsContainer gs" "gScope g = gsScope gs"
    "gCategory g = gsCategory gs" "gDescription g = wanted (gsDescription gs) []" "gManagedBy g = wanted (gsManagedBy gs) []"
    using group_model_stored [OF spec(2,3) laws(1) rdnValue_cn [OF laws(2,3)] refl, of "seq m + 1"] by blast
  have "plain_identity (ad c) (ByDN (ad c) dn)" by (simp add: plain_identity_def mem_clientD [OF c(1)] dn(2))
  from groups.get_law [OF c(1) p1(1) live this n g(1)] obtain p2 where
    p2: "open_pool (memConn (ad c)) p2" "group_Get c (ByDN (ad c) dn) p1 ?m = Some (Inr g, p2, ?m)" by blast
  have "group_Create fuel c gs p m = Some (Inr (g, None), p2, ?m)"
    using p1(2) p2(2) spec(1) mem_clientD(3) [OF c(1)] unfolding group_Create_def Let_def dn(1) [symmetric]
    by (simp add: add_object_def andThen_def handle_def ret_def with_wait_off)
  moreover have "entry_of ?m dn = Some (dn, ?attrs)"
    by (rule entry_of_unique [OF ok']) (use es in \<open>simp_all add: equalFoldDN_def\<close>)
  moreover have "dn_true ?m" using c(4) es look(4) by (auto simp: dn_true_def)
  ultimately show ?thesis using g live es by blast
qed

definition new_spec :: group_spec where
  "new_spec =
     \<lparr>gsName = ''h'', gsSamAccountName = ''hs'', gsContainer = ''DC=corp'', gsScope = GroupScopeGlobal,
      gsCategory = GroupCategorySecurity, gsDescription = Some ''new'', gsManagedBy = None\<rparr>"

lemma sample_ad_dns:
  "cnRDN sample_ad ''h'' = ''CN=h''" "ContainerOf sample_ad ''CN=h,DC=corp'' = Inr ''DC=corp''"
  "SplitDN sample_ad ''CN=h,DC=corp'' = Inr [''CN=h'', ''DC=corp'']"
  "remove_char CHR 0x5C (EscapeValue sample_ad ''h'') = ''h''"
  by (simp_all add: sample_ad_def cnRDN_def remove_char_def Index.simps HasPrefix_def)

lemma small_free: "plain_value ''CN=h,DC=corp''" "\<not> existsLocked small_dir ''CN=h,DC=corp''" "isUnder ''CN=h,DC=corp'' ''DC=corp''"
  by code_simp+

lemma small_dn_true: "dn_true small_dir"
  by (simp add: dn_true_def small_dir_def small_lookup)

theorem group_Create_returns_witness:
  "\<exists>p' m' g. group_Create 0 small_client new_spec (NewPool 1) small_dir = Some (Inr (g, None), p', m') \<and> gDN g = ''CN=h,DC=corp'' \<and>
     gName g = ''h'' \<and> gSamAccountName g = ''hs'' \<and> gCategory g = GroupCategorySecurity \<and> gDescription g = ''new'' \<and>
     dn_true m'"
proof -
  have spec: "gsName new_spec = ''h''" "gsSamAccountName new_spec = ''hs''" "gsContainer new_spec = ''DC=corp''"
    "gsScope new_spec = GroupScopeGlobal" "gsCategory new_spec = GroupCategorySecurity" "gsDescription new_spec = Some ''new''"
    by (simp_all add: new_spec_def)
  have dn: "''CN=h,DC=corp'' = cnRDN sample_ad (gsName new_spec) @ '','' @ gsContainer new_spec" by (simp add: spec sample_ad_dns)
  have laws: "ContainerOf sample_ad ''CN=h,DC=corp'' = Inr (gsContainer new_spec)"
    "SplitDN sample_ad ''CN=h,DC=corp'' = Inr (cnRDN sample_ad (gsName new_spec) # [''DC=corp''])"
    "remove_char CHR 0x5C (EscapeValue sample_ad (gsName new_spec)) = gsName new_spec"
    "named_scope (gsScope new_spec)" "named_category (gsCategory new_spec)"
    by (simp_all add: spec sample_ad_dns)
  from group_Create_returns [OF small_client, unfolded client_of_simps, OF open_pool_NewPool small_live small_dn_true dn small_free
      laws(1-3) small_spec(2) laws(4,5), of 0 1]
  show ?thesis unfolding spec wanted_def option.case by (elim exE conjE) (rule exI, rule exI, rule exI, intro conjI; assumption)
qed

end
