(* ===== verification/Moves.thy ===== *)
theory Moves
  imports Creation
begin

text \<open>
  Renaming and moving an object in the in-memory directory, and the update of a group that does
  either.
\<close>

section \<open>The renamed entry\<close>

definition relabel :: "'id adcore \<Rightarrow> string \<Rightarrow> attr_map \<Rightarrow> attr_map" where
  "relabel a target attrs =
     map_put ''name'' [bytes_of (rdnValue a target)] (map_put ''distinguishedName'' [bytes_of target] attrs)"

text \<open>The attributes a rename sets are stored under the spelling it uses, if at all.\<close>

definition labels_ok :: "attr_map \<Rightarrow> bool" where
  "labels_ok attrs \<longleftrightarrow> (\<forall>kv \<in> set attrs. (EqualFold (fst kv) ''name'' \<longrightarrow> fst kv = ''name'') \<and>
     (EqualFold (fst kv) ''distinguishedName'' \<longrightarrow> fst kv = ''distinguishedName''))"

definition labels_free :: "string list \<Rightarrow> bool" where
  "labels_free names \<longleftrightarrow> set (lower_names names) \<inter> {''name'', ''distinguishedname''} = {}"

lemma label_names: "\<not> EqualFold ''distinguishedName'' ''name''" "\<not> EqualFold ''name'' ''distinguishedName''"
  by (simp_all add: EqualFold_def lower_user_names more_lower_names)

lemma relabel_lookup:
  assumes "attrs_ok attrs" "labels_ok attrs"
  shows "attrs_ok (relabel a target attrs)"
    "lookupFold (relabel a target attrs) n =
       (if EqualFold n ''name'' then Some [bytes_of (rdnValue a target)]
        else if EqualFold n ''distinguishedName'' then Some [bytes_of target] else lookupFold attrs n)"
proof -
  let ?a = "map_put ''distinguishedName'' [bytes_of target] attrs"
  have h: "\<forall>kv \<in> set attrs. EqualFold (fst kv) ''distinguishedName'' \<longrightarrow> fst kv = ''distinguishedName''"
    using assms(2) unfolding labels_ok_def by blast
  have h': "\<forall>kv \<in> set ?a. EqualFold (fst kv) ''name'' \<longrightarrow> fst kv = ''name''"
  proof
    fix kv assume "kv \<in> set ?a"
    then have "kv \<in> set attrs \<or> fst kv = ''distinguishedName''" by (auto simp: map_put_def)
    with assms(2) label_names(1) show "EqualFold (fst kv) ''name'' \<longrightarrow> fst kv = ''name''"
      unfolding labels_ok_def by metis
  qed
  note ok = attrs_ok_put [OF assms(1) h]
  show "attrs_ok (relabel a target attrs)" unfolding relabel_def by (rule attrs_ok_put [OF ok h'])
  show "lookupFold (relabel a target attrs) n =
       (if EqualFold n ''name'' then Some [bytes_of (rdnValue a target)]
        else if EqualFold n ''distinguishedName'' then Some [bytes_of target] else lookupFold attrs n)"
    unfolding relabel_def lookupFold_put1 [OF ok h'] lookupFold_put1 [OF assms(1) h] by simp
qed

lemma keys_apply_mod: "fst ` set (apply_mod md attrs) \<subseteq> insert (mType md) (fst ` set attrs)"
proof -
  have "attrKey attrs (mType md) \<in> insert (mType md) (fst ` set attrs)"
    unfolding attrKey_def by (cases "find (\<lambda>kv. EqualFold (fst kv) (mType md)) attrs") (auto dest!: find_SomeD intro: rev_image_eqI)
  then show ?thesis by (auto simp: apply_mod_def Let_def map_put_def map_delete_def split: mod_op.split)
qed

lemma labels_ok_mods:
  assumes "labels_ok attrs" "plain_mods names mods" "labels_free names"
  shows "labels_ok (fold apply_mod mods attrs)"
  using assms(1,2)
proof (induction mods arbitrary: attrs)
  case (Cons md mods)
  then have "mType md \<in> set names" by (simp add: plain_mods_def)
  then have "ToLower (mType md) \<in> set (lower_names names)" by (simp add: lower_names_def)
  with assms(3) have "\<not> EqualFold (mType md) ''name''" "\<not> EqualFold (mType md) ''distinguishedName''"
    by (auto simp: labels_free_def EqualFold_def lower_user_names more_lower_names)
  moreover have "fst kv = mType md \<or> (\<exists>kv' \<in> set attrs. fst kv' = fst kv)" if "kv \<in> set (apply_mod md attrs)" for kv
    using keys_apply_mod [of md attrs] that by force
  ultimately have "labels_ok (apply_mod md attrs)" using Cons.prems(1) unfolding labels_ok_def by metis
  with Cons show ?case by (simp add: plain_mods_def)
qed simp

section \<open>The rename\<close>

lemma reparent_leaf:
  "\<forall>d \<in> set dns. d = target \<or> \<not> isUnder d key \<Longrightarrow> reparent key target dns es = (None, es)"
  by (induction dns) (auto split: option.split)

lemma mem_ModifyDN_leaf:
  assumes "mem_ok m" "(k, attrs) \<in> set (entries m)"
    and leaf: "\<forall>e \<in> set (entries m). isUnder (fst e) k \<longrightarrow> fst e = k"
    and free: "\<forall>e \<in> set (entries m). equalFoldDN (fst e) target \<longrightarrow> fst e = k"
    and target: "(if superior = [] then ContainerOf a k else Inr superior) = Inr parent" "target = rdn @ '','' @ parent"
    and m': "m' = m\<lparr>entries := map_put target (relabel a target attrs) (map_delete k (entries m))\<rparr>"
  shows "mem_ModifyDN a k rdn del superior m = (None, m')"
proof -
  have e: "entry_of m k = Some (k, attrs)" by (rule entry_of_unique [OF assms(1,2)]) (simp add: equalFoldDN_def)
  then have k: "keyLocked m k = k" "k \<noteq> []" using assms(1,2) by (auto simp: keyLocked_def entry_of_def mem_ok_def)
  have "distinct (map fst (entries m))" using assms(1) by (auto simp: mem_ok_def distinct_map inj_on_def)
  then have get: "map_get (entries m) k = attrs" using assms(2) by (simp add: map_get_def)
  have ex: "\<not> (\<not> equalFoldDN target k \<and> existsLocked m target)"
    using free by (auto simp: existsLocked_def list_ex_iff equalFoldDN_def EqualFold_def)
  let ?es = "map_put target (relabel a target attrs) (map_delete k (entries m))"
  have "reparent k target (map fst ?es) ?es = (None, ?es)"
    by (rule reparent_leaf) (use leaf in \<open>auto simp: map_put_def map_delete_def\<close>)
  then show ?thesis using k get ex target by (simp add: mem_ModifyDN_def Let_def relabel_def m')
qed

lemma changed_move:
  assumes "mem_live m" "(k, attrs) \<in> set (entries m)" "target \<noteq> []" "attrs_ok attrs'"
    and free: "\<forall>e \<in> set (entries m). equalFoldDN (fst e) target \<longrightarrow> fst e = k"
  shows "changed m (k, attrs) (target, attrs') (m\<lparr>entries := map_put target attrs' (map_delete k (entries m))\<rparr>)"
proof -
  let ?f = "\<lambda>e :: string \<times> attr_map. ToLower (normalizeDN (fst e))"
  have ok: "mem_ok m" using assms(1) by (simp add: mem_live_def)
  have k: "fst e \<noteq> k \<longleftrightarrow> e \<noteq> (k, attrs)" if "e \<in> set (entries m)" for e
    using mem_ok_eq [OF ok that assms(2), of k] by (auto simp: equalFoldDN_def)
  have t: "fst e = k" if "e \<in> set (entries m)" "?f e = ToLower (normalizeDN target)" for e
    using free that by (simp add: equalFoldDN_def EqualFold_def)
  have kept: "filter (\<lambda>kv. fst kv \<noteq> target) (map_delete k (entries m)) = map_delete k (entries m)"
    unfolding filter_id_conv using t by (auto simp: map_delete_def)
  have "distinct (map ?f (map_delete k (entries m) @ [(target, attrs')]))"
    using ok t by (auto simp: mem_ok_def map_delete_def distinct_map intro: inj_on_subset)
  then have "mem_ok (m\<lparr>entries := map_put target attrs' (map_delete k (entries m))\<rparr>)"
    using ok assms(3,4) by (auto simp: mem_ok_def map_put_def kept attrs_ok_def) (auto simp: map_delete_def)
  moreover have "set (map_delete k (entries m)) = set (entries m) - {(k, attrs)}"
    using k by (auto simp: map_delete_def)
  ultimately show ?thesis using assms(1) by (simp add: changed_def mem_live_def map_put_def kept)
qed

text \<open>
  An object that can take the name \<open>target\<close>: nothing is below it, and nothing else has that name.
\<close>

definition can_move :: "mem_server \<Rightarrow> string \<Rightarrow> string \<Rightarrow> bool" where
  "can_move m k target \<longleftrightarrow>
     list_all (\<lambda>e. (isUnder (fst e) k \<longrightarrow> fst e = k) \<and> (equalFoldDN (fst e) target \<longrightarrow> fst e = k)) (entries m)"

lemma can_move_changed:
  "can_move m k target \<Longrightarrow> changed m (k, attrs) (k, attrs') m' \<Longrightarrow> can_move m' k target"
  by (auto simp: can_move_def list_all_iff changed_def)

lemma rename_moves:
  assumes c: "mem_client c" "up c p" "mem_live m" "(k, attrs) \<in> set (entries m)" "labels_ok attrs"
    and same: "EqualFoldDN (ad c) container curContainer = Inr same" "name \<noteq> curName \<or> \<not> same"
    and target: "(if same \<or> container = [] then ContainerOf (ad c) k else Inr container) = Inr parent"
      "target = cnRDN (ad c) name @ '','' @ parent" "can_move m k target"
  shows "\<exists>p' m'. rename_or_move c op i k curName curContainer name container p m = Some (Inr (), p', m') \<and> up c p' \<and>
    changed m (k, attrs) (target, relabel (ad c) target attrs) m'"
proof -
  let ?sup = "if \<not> same then container else []"
  let ?fn = "\<lambda>cn w. effect (cModifyDN cn k (cnRDN (ad c) name) True ?sup w)"
  let ?m = "m\<lparr>entries := map_put target (relabel (ad c) target attrs) (map_delete k (entries m))\<rparr>"
  have ok: "mem_ok m" using c(3) by (simp add: mem_live_def)
  then have "attrs_ok attrs" using c(4) by (auto simp: mem_ok_def attrs_ok_def)
  note a = relabel_lookup(1) [OF this c(5), of "ad c" target]
  have free: "\<forall>e \<in> set (entries m). isUnder (fst e) k \<longrightarrow> fst e = k"
    "\<forall>e \<in> set (entries m). equalFoldDN (fst e) target \<longrightarrow> fst e = k"
    using target(3) by (simp_all add: can_move_def list_all_iff)
  have "(if ?sup = [] then ContainerOf (ad c) k else Inr ?sup) = Inr parent" using target(1) by (cases same) auto
  from mem_ModifyDN_leaf [OF ok c(4) free this target(2) refl, of True]
  have fn: "?fn (memConn (ad c)) m = (Inr (), ?m)" by (simp add: effect_def)
  have "target \<noteq> []" by (simp add: target(2) cnRDN_def)
  note ch = changed_move [OF c(3,4) this a free(2)]
  from run_quiet [where fn = ?fn and op = op and d = "()", OF mem_clientD(1) [OF c(1)] c(2) fn]
  obtain p' where "up c p'" "run c op () ?fn p m = Some (Inr (), p', ?m)" by auto
  with ch same show ?thesis
    unfolding rename_or_move_def by (intro exI [of _ p'] exI [of _ ?m]) (simp add: Let_def prog_simps)
qed

context directory_object
begin

lemma update_move:
  assumes c: "mem_client c" "up c p" "mem_live m"
    and i: "plain_identity (ad c) i" "named c m cls i = [(k, attrs)]"
    and x: "model (ad c) \<lparr>DN = k, Attrs = attrs\<rparr> = Inr x" "plain_guid (First \<lparr>DN = k, Attrs = attrs\<rparr> ''objectGUID'')"
      "named c m cls (ByGUID (ad c) (guidOf x)) = [(k, attrs)]"
    and mods: "plain_mods names mods" "keys_free names" "labels_free names" "labels_ok attrs"
    and same: "EqualFoldDN (ad c) container curContainer = Inr same" "name \<noteq> curName \<or> \<not> same"
    and target: "(if same \<or> container = [] then ContainerOf (ad c) k else Inr container) = Inr parent"
      "target = cnRDN (ad c) name @ '','' @ parent" "can_move m k target" "isUnder target (dnc c)"
    and y: "attrs' = relabel (ad c) target (fold apply_mod mods attrs)" "model (ad c) \<lparr>DN = target, Attrs = attrs'\<rparr> = Inr y"
  shows "\<exists>p1 p2 p3 p4 m1 m'. get c i p m = Some (Inr x, p1, m) \<and> write_mods c op i k mods p1 m = Some (Inr (), p2, m1) \<and>
    rename_or_move c op i k curName curContainer name container p2 m1 = Some (Inr (), p3, m') \<and>
    get c (ByGUID (ad c) (guidOf x)) p3 m' = Some (Inr y, p4, m') \<and>
    named c m' cls (ByGUID (ad c) (guidOf x)) = [(target, attrs')] \<and>
    set (entries m') = insert (target, attrs') (set (entries m) - {(k, attrs)})"
proof -
  let ?attrs = "fold apply_mod mods attrs" and ?j = "ByGUID (ad c) (guidOf x)"
  have ok: "mem_ok m" using c(3) by (simp add: mem_live_def)
  note e = named_entry [OF ok i(2)]
  note guid = by_guid [OF c(1) x(1,2)]
  from get_law [OF c i x(1)] obtain p1 where p1: "up c p1" "get c i p m = Some (Inr x, p1, m)" by blast
  from write_mods_changed [OF c(1) p1(1) c(3) e(1) mods(1), of op i] obtain p2 m1 where
    w: "write_mods c op i k mods p1 m = Some (Inr (), p2, m1)" "up c p2" and ch1: "changed m (k, attrs) (k, ?attrs) m1" by blast
  have m1: "mem_live m1" "(k, ?attrs) \<in> set (entries m1)" using ch1 by (simp_all add: changed_def)
  note lab = labels_ok_mods [OF mods(4,1,3)]
  have aok: "attrs_ok ?attrs" using e(2) by (rule attrs_ok_apply_mods)
  from rename_moves [OF c(1) w(2) m1 lab same target(1,2) can_move_changed [OF target(3) ch1], of op i] obtain p3 m' where
    r: "rename_or_move c op i k curName curContainer name container p2 m1 = Some (Inr (), p3, m')" "up c p3"
    and ch2: "changed m1 (k, ?attrs) (target, attrs') m'" unfolding y(1) by blast
  have dup: "(k, ?attrs) \<notin> set (entries m) - {(k, attrs)}"
    using mem_ok_eq [OF ok _ e(1), of "(k, ?attrs)" k] by (auto simp: equalFoldDN_def)
  have es: "set (entries m') = insert (target, attrs') (set (entries m) - {(k, attrs)})"
    using ch1 ch2 dup unfolding changed_def by auto
  then have ch: "changed m (k, attrs) (target, attrs') m'" using ch2 by (simp add: changed_def)
  have live: "mem_live m'" using ch by (simp add: changed_def)
  note keep = mods_keep [OF e(2) mods(1,2)]
  have other: "\<not> EqualFold n ''name'' \<and> \<not> EqualFold n ''distinguishedName''" if "n \<in> {''objectGUID'', ''objectClass'', ''isDeleted''}" for n
    using that by (auto simp: EqualFold_def lower_user_names more_lower_names)
  then have l: "lookupFold attrs' n = lookupFold ?attrs n" if "n \<in> {''objectGUID'', ''objectClass'', ''isDeleted''}" for n
    using that unfolding y(1) relabel_lookup(2) [OF aok lab] by meson
  have keep': "class_match cls attrs' = class_match cls ?attrs" "guid_match b attrs' = guid_match b ?attrs"
    "isTombstone attrs' = isTombstone ?attrs" for b
    by (simp_all add: class_match_def guid_match_def has_value_def isTombstone_def l)
  have n: "named c m' cls ?j = [(target, attrs')]"
    using found_changed [OF ok x(3) [unfolded named_def] ch] named_entry(4-7) [OF ok x(3)] target(4)
    by (simp add: named_def guid(2) keep keep')
  from get_law [OF c(1) r(2) live guid(1) n y(2)] obtain p4 where "get c ?j p3 m' = Some (Inr y, p4, m')" by blast
  with p1(2) w(1) r(1) n es show ?thesis by blast
qed

end

section \<open>Moving a group\<close>

lemma group_model_relabel:
  assumes "attrs_ok attrs" "labels_ok attrs" "group_model a \<lparr>DN = k, Attrs = attrs\<rparr> = Inr g" "ContainerOf a target = Inr parent"
  shows "group_model a \<lparr>DN = target, Attrs = relabel a target attrs\<rparr> =
    Inr (g\<lparr>gDN := target, gName := rdnValue a target, gContainer := parent\<rparr>)"
proof -
  let ?e = "\<lparr>DN = k, Attrs = attrs\<rparr>" and ?e' = "\<lparr>DN = target, Attrs = relabel a target attrs\<rparr>"
  note look = relabel_lookup [OF assms(1,2), of a target]
  have f: "First ?e' n = (if EqualFold n ''name'' then bytes_of (rdnValue a target) else
      if EqualFold n ''distinguishedName'' then bytes_of target else First ?e n)" for n
    using First_lookup [of ?e' n] First_lookup [of ?e n] look(1) look(2) [of n] assms(1) by simp
  have "First ?e' ''name'' = bytes_of (rdnValue a target)" by (simp add: f)
  moreover have "First ?e' ''objectGUID'' = First ?e ''objectGUID''" "First ?e' ''objectSid'' = First ?e ''objectSid''"
    "First ?e' ''groupType'' = First ?e ''groupType''" "First ?e' ''sAMAccountName'' = First ?e ''sAMAccountName''"
    "First ?e' ''description'' = First ?e ''description''" "First ?e' ''managedBy'' = First ?e ''managedBy''"
    by (simp_all add: f EqualFold_def lower_user_names more_lower_names)
  ultimately show ?thesis
    using assms(3,4) unfolding group_model_Inr group_sid_def FirstString_def by simp
qed

lemma groupModAttrs_free: "labels_free groupModAttrs"
  by code_simp

lemma group_Update_moves:
  assumes c: "mem_client c" "up c p" "mem_live m"
    and i: "plain_identity (ad c) i" "named c m ''group'' i = [(k, attrs)]"
    and g: "group_model (ad c) \<lparr>DN = k, Attrs = attrs\<rparr> = Inr g" "plain_guid (First \<lparr>DN = k, Attrs = attrs\<rparr> ''objectGUID'')"
      "named c m ''group'' (ByGUID (ad c) (gGUID g)) = [(k, attrs)]" "labels_ok attrs"
    and spec: "GroupValidate (ad c) gs ''Group.Update'' False = None"
      "gsScope gs = GroupScopeOther [] \<or> named_scope (gsScope gs)"
      "gsCategory gs = GroupCategoryOther [] \<or> named_category (gsCategory gs)"
      "EqualFoldDN (ad c) (gsContainer gs) (gContainer g) = Inr same" "gsName gs \<noteq> gName g \<or> \<not> same"
    and target: "parent = (if same \<or> gsContainer gs = [] then gContainer g else gsContainer gs)"
      "dn = cnRDN (ad c) (gsName gs) @ '','' @ parent" "can_move m k dn" "isUnder dn (dnc c)"
    and laws: "ContainerOf (ad c) dn = Inr parent" "SplitDN (ad c) dn = Inr (cnRDN (ad c) (gsName gs) # rest)"
      "remove_char CHR 0x5C (EscapeValue (ad c) (gsName gs)) = gsName gs"
    and g': "g' = (group_asked gs g)\<lparr>gDN := dn, gName := gsName gs, gContainer := parent\<rparr>"
  shows "\<exists>p' m' attrs'. group_Update fuel c i gs p m = Some (Inr (g', None), p', m') \<and>
    named c m' ''group'' (ByGUID (ad c) (gGUID g)) = [(dn, attrs')] \<and> group_model (ad c) \<lparr>DN = dn, Attrs = attrs'\<rparr> = Inr g' \<and>
    set (entries m') = insert (dn, attrs') (set (entries m) - {(k, attrs)})"
proof -
  let ?attrs = "relabel (ad c) dn (fold apply_mod (group_mods gs g) attrs)"
  have aok: "attrs_ok attrs" using named_entry(2) [OF _ i(2)] c(3) by (simp add: mem_live_def)
  note after = group_model_after [OF aok g(1) spec(2,3)]
  have y: "group_model (ad c) \<lparr>DN = dn, Attrs = ?attrs\<rparr> = Inr g'"
    using group_model_relabel [OF attrs_ok_apply_mods [OF aok] labels_ok_mods [OF g(4) group_mods_plain groupModAttrs_free] after laws(1)]
    by (simp add: g' rdnValue_cn [OF laws(2,3)])
  have k: "gDN g = k" "ContainerOf (ad c) k = Inr (gContainer g)" using g(1) by (simp_all add: group_model_Inr)
  have par: "(if same \<or> gsContainer gs = [] then ContainerOf (ad c) k else Inr (gsContainer gs)) = Inr parent"
    by (simp add: target(1) k(2))
  from groups.update_move [OF c i g(1-3) group_mods_plain keys_kept(1) groupModAttrs_free g(4) spec(4,5) par target(2-4) refl y,
      of "''Group.Update''"]
  obtain p1 p2 p3 p4 m1 m' where u: "group_Get c i p m = Some (Inr g, p1, m)"
    "write_mods c ''Group.Update'' i k (group_mods gs g) p1 m = Some (Inr (), p2, m1)"
    "rename_or_move c ''Group.Update'' i k (gName g) (gContainer g) (gsName gs) (gsContainer gs) p2 m1 = Some (Inr (), p3, m')"
    "group_Get c (ByGUID (ad c) (gGUID g)) p3 m' = Some (Inr g', p4, m')"
    and stored: "named c m' ''group'' (ByGUID (ad c) (gGUID g)) = [(dn, ?attrs)]"
      "set (entries m') = insert (dn, ?attrs) (set (entries m) - {(k, attrs)})"
    by (elim exE conjE) (rule that; assumption)
  have "group_Update fuel c i gs p m = Some (Inr (g', None), p4, m')"
    using u spec(1) k(1) mem_clientD(3) [OF c(1)]
    by (simp add: group_Update_def Let_def andThen_def handle_def ret_def with_wait_off)
  with stored y show ?thesis by blast
qed

section \<open>Properties\<close>

text \<open>
  C20. \<open>Group.Update\<close> through every layer of the program, renames and moves included: over the in-memory directory, with an
  identity of any form that names one group, the update returns without an error exactly the group that was
  asked for, under its new name where one was asked for; scope or category left open is kept.  The object the group's
  GUID names afterwards reads as that group, and no other object changed.
\<close>

theorem group_Update_returns:
  assumes c: "mem_client c" "open_pool (memConn (ad c)) p" "mem_live m"
    and i: "plain_identity (ad c) i" "named c m ''group'' i = [(k, attrs)]"
    and g: "group_model (ad c) \<lparr>DN = k, Attrs = attrs\<rparr> = Inr g" "plain_guid (First \<lparr>DN = k, Attrs = attrs\<rparr> ''objectGUID'')"
      "named c m ''group'' (ByGUID (ad c) (gGUID g)) = [(k, attrs)]" "labels_ok attrs"
    and spec: "GroupValidate (ad c) gs ''Group.Update'' False = None"
      "gsScope gs = GroupScopeOther [] \<or> named_scope (gsScope gs)"
      "gsCategory gs = GroupCategoryOther [] \<or> named_category (gsCategory gs)"
      "EqualFoldDN (ad c) (gsContainer gs) (gContainer g) = Inr same"
    and target: "parent = (if same \<or> gsContainer gs = [] then gContainer g else gsContainer gs)"
      "dn = cnRDN (ad c) (gsName gs) @ '','' @ parent" "can_move m k dn" "isUnder dn (dnc c)"
    and laws: "ContainerOf (ad c) dn = Inr parent" "SplitDN (ad c) dn = Inr (cnRDN (ad c) (gsName gs) # rest)"
      "remove_char CHR 0x5C (EscapeValue (ad c) (gsName gs)) = gsName gs"
    and g': "g' = (if gsName gs = gName g \<and> same then group_asked gs g
       else (group_asked gs g)\<lparr>gDN := dn, gName := gsName gs, gContainer := parent\<rparr>)"
  shows "\<exists>p' m' attrs'. group_Update fuel c i gs p m = Some (Inr (g', None), p', m') \<and>
    named c m' ''group'' (ByGUID (ad c) (gGUID g)) = [(gDN g', attrs')] \<and>
    group_model (ad c) \<lparr>DN = gDN g', Attrs = attrs'\<rparr> = Inr g' \<and>
    set (entries m') = insert (gDN g', attrs') (set (entries m) - {(k, attrs)})"
proof (cases "gsName gs = gName g \<and> same")
  case True
  then have n: "gsName gs = gName g" "EqualFoldDN (ad c) (gsContainer gs) (gContainer g) = Inr True" using spec(4) by simp_all
  have "gDN (group_asked gs g) = k" using g(1) by (simp add: group_asked_def group_model_Inr)
  with True group_Update_stays [OF c i g(1-3) spec(1-3) n, of fuel] show ?thesis by (simp add: g')
next
  case False
  then have n: "gsName gs \<noteq> gName g \<or> \<not> same" by blast
  from group_Update_moves [OF c i g spec n target laws refl, of fuel] False show ?thesis by (auto simp: g')
qed

definition rename_spec :: group_spec where
  "rename_spec =
     \<lparr>gsName = ''h'', gsSamAccountName = [], gsContainer = ''DC=corp'', gsScope = GroupScopeOther [],
      gsCategory = GroupCategorySecurity, gsDescription = Some ''new'', gsManagedBy = None\<rparr>"

lemma small_can_move: "can_move small_dir ''CN=g,DC=corp'' ''CN=h,DC=corp''"
  by code_simp

lemma small_labels: "labels_ok small_group"
  by (simp add: labels_ok_def small_group_def EqualFold_def lower_user_names more_lower_names)

theorem group_Update_returns_witness:
  "\<exists>p' m' g'. group_Update 0 small_client (''dn'', ''CN=g,DC=corp'') rename_spec (NewPool 1) small_dir = Some (Inr (g', None), p', m') \<and>
     gDN g' = ''CN=h,DC=corp'' \<and> gName g' = ''h'' \<and> gScope g' = GroupScopeGlobal \<and> gCategory g' = GroupCategorySecurity \<and>
     gDescription g' = ''new'' \<and> fst ` set (entries m') = {''CN=h,DC=corp'', ''CN=u,DC=corp''}"
proof -
  obtain g where g: "group_model sample_ad \<lparr>DN = ''CN=g,DC=corp'', Attrs = small_group\<rparr> = Inr g" "gName g = ''g''"
    "gContainer g = ''DC=corp''" "gScope g = GroupScopeGlobal" "gCategory g = GroupCategoryDistribution"
    using small_group_model by blast
  have spec: "gsName rename_spec = ''h''" "gsContainer rename_spec = ''DC=corp''" "gsScope rename_spec = GroupScopeOther []"
    "gsCategory rename_spec = GroupCategorySecurity" "gsDescription rename_spec = Some ''new''"
    by (simp_all add: rename_spec_def)
  let ?g' = "(group_asked rename_spec g)\<lparr>gDN := ''CN=h,DC=corp'', gName := ''h'', gContainer := ''DC=corp''\<rparr>"
  have s: "gScope ?g' = GroupScopeGlobal" "gCategory ?g' = GroupCategorySecurity" "gDescription ?g' = ''new''"
    by (simp_all add: group_asked_def spec g(4,5) wanted_def)
  have same: "EqualFoldDN sample_ad (gsContainer rename_spec) (gContainer g) = Inr True" by (simp add: small_spec spec g(3))
  have es: "set (entries small_dir) - {(''CN=g,DC=corp'', small_group)} = {(''CN=u,DC=corp'', small_user)}"
    by (simp add: small_dir_def)
  have pre: "plain_guid (First \<lparr>DN = ''CN=g,DC=corp'', Attrs = small_group\<rparr> ''objectGUID'')"
    "gsScope rename_spec = GroupScopeOther [] \<or> named_scope (gsScope rename_spec)"
    "gsCategory rename_spec = GroupCategoryOther [] \<or> named_category (gsCategory rename_spec)"
    "''DC=corp'' = (if True \<or> gsContainer rename_spec = [] then gContainer g else gsContainer rename_spec)"
    "''CN=h,DC=corp'' = cnRDN sample_ad (gsName rename_spec) @ '','' @ ''DC=corp''"
    "SplitDN sample_ad ''CN=h,DC=corp'' = Inr (cnRDN sample_ad (gsName rename_spec) # [''DC=corp''])"
    "remove_char CHR 0x5C (EscapeValue sample_ad (gsName rename_spec)) = gsName rename_spec"
    "?g' = (if gsName rename_spec = gName g \<and> True then group_asked rename_spec g
       else (group_asked rename_spec g)\<lparr>gDN := ''CN=h,DC=corp'', gName := gsName rename_spec, gContainer := ''DC=corp''\<rparr>)"
    by (simp_all add: spec g(2,3) sample_ad_dns small_guids)
  obtain p' m' attrs' where u: "group_Update 0 small_client (''dn'', ''CN=g,DC=corp'') rename_spec (NewPool 1) small_dir = Some (Inr (?g', None), p', m')"
    "set (entries m') = insert (gDN ?g', attrs') (set (entries small_dir) - {(''CN=g,DC=corp'', small_group)})"
    using group_Update_returns [OF small_client, unfolded client_of_simps, OF open_pool_NewPool small_live small_plain(1) small_named(1)
        g(1) pre(1) small_named_guid [OF g(1)] small_labels small_spec(2) pre(2,3) same pre(4,5) small_can_move small_free(3)
        sample_ad_dns(2) pre(6-8), of 0 1]
    by (elim exE conjE) (rule that; assumption)
  have "fst ` set (entries m') = {''CN=h,DC=corp'', ''CN=u,DC=corp''}" unfolding u(2) es by simp
  with u(1) s show ?thesis by (intro exI [of _ p'] exI [of _ m'] exI [of _ ?g']) simp
qed

end
