(* ===== verification/Goldap.thy ===== *)
theory Goldap
  imports Ldaperr
begin

text \<open>
  Package \<open>internal/conn\<close>, files \<open>goldap.go\<close>, \<open>dial.go\<close>, \<open>bind.go\<close> and \<open>bind_ntlm.go\<close>: the adapter of
  the LDAP library to the seam, the dialler, and the simple and NTLM binds.

  The library go-ldap is the record \<open>ldap_lib\<close> of the calls the code makes, each on the pointer of a
  connection and the state of the world.  The files and the certificate parser of the host are the
  functions \<open>ReadFile\<close> and \<open>PEMCerts\<close>.
\<close>

section \<open>The library\<close>

datatype ldap_scope = ScopeBaseObject | ScopeSingleLevel | ScopeWholeSubtree

record ldap_control =
  lcType :: string
  lcCritical :: bool
  lcValue :: string

text \<open>A request; aliases are never dereferenced, there is no time limit, and values are asked for.\<close>

record ldap_search =
  lsBaseDN :: string
  lsScope :: ldap_scope
  lsSizeLimit :: int
  lsFilter :: string
  lsAttributes :: "string list"
  lsControls :: "ldap_control list"

record ldap_entry =
  leDN :: string
  leAttributes :: "(string \<times> bytes list) list"

text \<open>A response control: its type, and its cookie when it is a \<open>*ldap.ControlPaging\<close>.\<close>

record ldap_response_control =
  lrType :: string
  lrPaging :: "bytes option"

record ldap_result =
  lrEntries :: "ldap_entry list"
  lrControls :: "ldap_response_control list"

record ldap_change =
  chOp :: mod_op
  chType :: string
  chVals :: "string list"

record x509_certificate =
  certRaw :: bytes
  certSignatureAlgorithm :: string

record tls_config =
  ServerName :: string
  MinVersion :: nat
  InsecureSkipVerify :: bool
  RootCAs :: "x509_certificate list option"

text \<open>
  \<open>lDialURL url timeout tls\<close>; \<open>lTLSState\<close> is \<open>None\<close> on a connection without TLS, and otherwise the peer's
  certificates.
\<close>

record 'w ldap_lib =
  lDialURL :: "string \<Rightarrow> int \<Rightarrow> tls_config option \<Rightarrow> 'w \<Rightarrow> nat res \<times> 'w"
  lStartTLS :: "nat \<Rightarrow> tls_config \<Rightarrow> 'w \<Rightarrow> go_error option \<times> 'w"
  lSetTimeout :: "nat \<Rightarrow> int \<Rightarrow> 'w \<Rightarrow> 'w"
  lTLSState :: "nat \<Rightarrow> 'w \<Rightarrow> x509_certificate list option"
  lBind :: "nat \<Rightarrow> string \<Rightarrow> string \<Rightarrow> 'w \<Rightarrow> go_error option \<times> 'w"
  lNTLMBind :: "nat \<Rightarrow> string \<Rightarrow> string \<Rightarrow> string \<Rightarrow> 'w \<Rightarrow> go_error option \<times> 'w"
  lSearch :: "nat \<Rightarrow> ldap_search \<Rightarrow> 'w \<Rightarrow> ldap_result res \<times> 'w"
  lSearchWithPaging :: "nat \<Rightarrow> ldap_search \<Rightarrow> nat \<Rightarrow> 'w \<Rightarrow> ldap_result res \<times> 'w"
  lAdd :: "nat \<Rightarrow> string \<Rightarrow> (string \<times> string list) list \<Rightarrow> 'w \<Rightarrow> go_error option \<times> 'w"
  lModify :: "nat \<Rightarrow> string \<Rightarrow> ldap_change list \<Rightarrow> ldap_control list \<Rightarrow> 'w \<Rightarrow> go_error option \<times> 'w"
  lModifyDN :: "nat \<Rightarrow> string \<Rightarrow> string \<Rightarrow> bool \<Rightarrow> string \<Rightarrow> 'w \<Rightarrow> go_error option \<times> 'w"
  lDel :: "nat \<Rightarrow> string \<Rightarrow> 'w \<Rightarrow> go_error option \<times> 'w"
  lClose :: "nat \<Rightarrow> 'w \<Rightarrow> go_error option \<times> 'w"

section \<open>The adapter\<close>

fun scopeToGoLDAP :: "scope \<Rightarrow> ldap_scope" where
  "scopeToGoLDAP ScopeBase = ScopeBaseObject"
| "scopeToGoLDAP ScopeOneLevel = ScopeSingleLevel"
| "scopeToGoLDAP ScopeSubtree = ScopeWholeSubtree"

text \<open>What \<open>Error()\<close> returns; the text of an \<open>*adcore.Error\<close> is the argument \<open>ad_text\<close>.\<close>

fun error_text :: "(ad_error \<Rightarrow> string) \<Rightarrow> go_error \<Rightarrow> string" where
  "error_text ad_text (ErrMsg m) = m"
| "error_text ad_text (ErrWrap m e) = m @ '': '' @ error_text ad_text e"
| "error_text ad_text (ErrWrapEnd e m) = error_text ad_text e @ '': '' @ m"
| "error_text ad_text ErrCanceled = ''context canceled''"
| "error_text ad_text ErrDeadlineExceeded = ''context deadline exceeded''"
| "error_text ad_text ErrPoolClosed = ''adldap: connection pool is closed''"
| "error_text ad_text (ErrRejected e) = error_text ad_text e"
| "error_text ad_text (ErrRaw c d e) = d"
| "error_text ad_text (ErrLdap c t e) = t"
| "error_text ad_text (ErrAd a) = ad_text a"
| "error_text ad_text (GoPanic m) = m"

definition is_ldap :: "go_error \<Rightarrow> bool" where
  "is_ldap e = (case e of ErrLdap _ _ _ \<Rightarrow> True | _ \<Rightarrow> False)"

definition toRawError :: "(ad_error \<Rightarrow> string) \<Rightarrow> go_error option \<Rightarrow> go_error option" where
  "toRawError ad_text err =
     (case err of
        None \<Rightarrow> None
      | Some e \<Rightarrow>
          (case find is_ldap (error_chain e) of
             Some (ErrLdap code txt inner) \<Rightarrow>
               Some (ErrRaw code (case inner of None \<Rightarrow> txt | Some i \<Rightarrow> error_text ad_text i) (Some e))
           | _ \<Rightarrow> Some e))"

definition pageSize :: nat where "pageSize = 1000"

definition ldap_control_of :: "control \<Rightarrow> ldap_control" where
  "ldap_control_of ct = \<lparr>lcType = OID ct, lcCritical = Critical ct, lcValue = str_of (Value ct)\<rparr>"

definition ldap_search_of :: "search_request \<Rightarrow> ldap_search" where
  "ldap_search_of req =
     \<lparr>lsBaseDN = BaseDN req, lsScope = scopeToGoLDAP (Scope req), lsSizeLimit = SizeLimit req,
      lsFilter = Filter req, lsAttributes = Attributes req, lsControls = map ldap_control_of (Controls req)\<rparr>"

definition entry_from :: "ldap_entry \<Rightarrow> entry" where
  "entry_from e = \<lparr>DN = leDN e, Attrs = fold (\<lambda>(name, vals). map_put name vals) (leAttributes e) []\<rparr>"

definition controlFromGoLDAP :: "ldap_response_control \<Rightarrow> control" where
  "controlFromGoLDAP ct =
     \<lparr>OID = lrType ct, Critical = False, Value = (case lrPaging ct of Some cookie \<Rightarrow> cookie | None \<Rightarrow> [])\<rparr>"

text \<open>An error of the library, lifted; and the same for a call that returns only an error.\<close>

definition lifted :: "(ad_error \<Rightarrow> string) \<Rightarrow> go_error \<Rightarrow> go_error" where
  "lifted ad_text e = (case toRawError ad_text (Some e) of Some e' \<Rightarrow> e' | None \<Rightarrow> e)"

definition raw_effect :: "(ad_error \<Rightarrow> string) \<Rightarrow> go_error option \<times> 'w \<Rightarrow> go_error option \<times> 'w" where
  "raw_effect ad_text r = (case r of (err, w) \<Rightarrow> (toRawError ad_text err, w))"

definition goldap_Search ::
  "(ad_error \<Rightarrow> string) \<Rightarrow> 'w ldap_lib \<Rightarrow> nat \<Rightarrow> search_request \<Rightarrow> 'w \<Rightarrow> search_result res \<times> 'w" where
  "goldap_Search ad_text lib l req w =
     (case (if Scope req = ScopeBase then lSearch lib l (ldap_search_of req) w
            else lSearchWithPaging lib l (ldap_search_of req) pageSize w) of
        (Inl err, w) \<Rightarrow> (Inl (lifted ad_text err), w)
      | (Inr res, w) \<Rightarrow>
          (Inr \<lparr>Entries = map entry_from (lrEntries res),
                RespControls = map controlFromGoLDAP (lrControls res)\<rparr>, w))"

definition toStrings :: "bytes list \<Rightarrow> string list" where
  "toStrings vals = map str_of vals"

definition goldap_Add ::
  "(ad_error \<Rightarrow> string) \<Rightarrow> 'w ldap_lib \<Rightarrow> nat \<Rightarrow> string \<Rightarrow> attribute list \<Rightarrow> 'w \<Rightarrow> go_error option \<times> 'w" where
  "goldap_Add ad_text lib l dn attrs w =
     raw_effect ad_text (lAdd lib l dn (map (\<lambda>a. (aType a, toStrings (aVals a))) attrs) w)"

definition change_of :: "modification \<Rightarrow> ldap_change" where
  "change_of m = \<lparr>chOp = mOp m, chType = mType m, chVals = toStrings (mVals m)\<rparr>"

definition goldap_Modify ::
  "(ad_error \<Rightarrow> string) \<Rightarrow> 'w ldap_lib \<Rightarrow> nat \<Rightarrow> string \<Rightarrow> modification list \<Rightarrow> control list \<Rightarrow> 'w \<Rightarrow>
     go_error option \<times> 'w" where
  "goldap_Modify ad_text lib l dn mods controls w =
     raw_effect ad_text (lModify lib l dn (map change_of mods) (map ldap_control_of controls) w)"

definition goldap_ModifyDN ::
  "(ad_error \<Rightarrow> string) \<Rightarrow> 'w ldap_lib \<Rightarrow> nat \<Rightarrow> string \<Rightarrow> string \<Rightarrow> bool \<Rightarrow> string \<Rightarrow> 'w \<Rightarrow> go_error option \<times> 'w" where
  "goldap_ModifyDN ad_text lib l dn newRDN deleteOldRDN newSuperior w =
     raw_effect ad_text (lModifyDN lib l dn newRDN deleteOldRDN newSuperior w)"

definition goldap_Delete :: "(ad_error \<Rightarrow> string) \<Rightarrow> 'w ldap_lib \<Rightarrow> nat \<Rightarrow> string \<Rightarrow> 'w \<Rightarrow> go_error option \<times> 'w" where
  "goldap_Delete ad_text lib l dn w = raw_effect ad_text (lDel lib l dn w)"

definition goldap_Close :: "'w ldap_lib \<Rightarrow> nat \<Rightarrow> 'w \<Rightarrow> go_error option \<times> 'w" where
  "goldap_Close lib l w = lClose lib l w"

definition goldapConn :: "(ad_error \<Rightarrow> string) \<Rightarrow> 'w ldap_lib \<Rightarrow> nat \<Rightarrow> 'w conn" where
  "goldapConn ad_text lib l =
     \<lparr>cSearch = goldap_Search ad_text lib l, cAdd = goldap_Add ad_text lib l,
      cModify = goldap_Modify ad_text lib l,
      cModifyDN = goldap_ModifyDN ad_text lib l, cDelete = goldap_Delete ad_text lib l,
      cClose = goldap_Close lib l, cLdap = Some l\<rparr>"

section \<open>Dialling\<close>

definition VersionTLS12 :: nat where "VersionTLS12 = 0x0303"

record host_files =
  ReadFile :: "string \<Rightarrow> bytes res"
  PEMCerts :: "bytes \<Rightarrow> x509_certificate list"

definition BuildTLSConfig :: "host_files \<Rightarrow> string \<Rightarrow> string \<Rightarrow> bool \<Rightarrow> tls_config res" where
  "BuildTLSConfig files host caFile skipVerify =
     (let cfg = \<lparr>ServerName = host, MinVersion = VersionTLS12, InsecureSkipVerify = skipVerify, RootCAs = None\<rparr> in
      if caFile = [] then Inr cfg
      else case ReadFile files caFile of
          Inl err \<Rightarrow> Inl (ErrWrap (''adldap: cannot read CA certificate '' @ quote caFile) err)
        | Inr pemBytes \<Rightarrow>
            if PEMCerts files pemBytes = []
            then Inl (ErrMsg (''adldap: '' @ quote caFile @ '' contains no PEM certificate''))
            else Inr (cfg\<lparr>RootCAs := Some (PEMCerts files pemBytes)\<rparr>))"

record dial_options =
  doHost :: string
  doPort :: int
  doStartTLS :: bool
  doTLSConfig :: tls_config
  doTimeout :: int

definition JoinHostPort :: "string \<Rightarrow> string \<Rightarrow> string" where
  "JoinHostPort host port = (if Contains host '':'' then ''['' @ host @ '']:'' @ port else host @ '':'' @ port)"

definition Dial ::
  "(ad_error \<Rightarrow> string) \<Rightarrow> 'w ldap_lib \<Rightarrow> dial_options \<Rightarrow> 'w \<Rightarrow> 'w conn res \<times> 'w" where
  "Dial ad_text lib opts w =
     (let addr = JoinHostPort (doHost opts) (FormatInt (doPort opts));
          timed = (\<lambda>l w. (Inr (goldapConn ad_text lib l),
                          if 0 < doTimeout opts then lSetTimeout lib l (doTimeout opts) w else w)) in
      if doStartTLS opts
      then case lDialURL lib (''ldap://'' @ addr) (doTimeout opts) None w of
          (Inl err, w) \<Rightarrow> (Inl err, w)
        | (Inr l, w) \<Rightarrow>
            (case lStartTLS lib l (doTLSConfig opts) w of
               (Some err, w) \<Rightarrow> (Inl err, snd (lClose lib l w))
             | (None, w) \<Rightarrow> timed l w)
      else case lDialURL lib (''ldaps://'' @ addr) (doTimeout opts) (Some (doTLSConfig opts)) w of
          (Inl err, w) \<Rightarrow> (Inl err, w)
        | (Inr l, w) \<Rightarrow> timed l w)"

section \<open>Simple and NTLM binds\<close>

definition errWrongConn :: "string \<Rightarrow> go_error" where
  "errWrongConn mechanism = ErrMsg (''adldap: '' @ mechanism @ '' requires the go-ldap connection'')"

record simple_binder =
  sbUsername :: string
  sbPassword :: string

definition simple_Describe :: "simple_binder \<Rightarrow> string" where
  "simple_Describe b = ''simple bind as '' @ sbUsername b"

definition simple_Bind ::
  "(ad_error \<Rightarrow> string) \<Rightarrow> 'w ldap_lib \<Rightarrow> simple_binder \<Rightarrow> 'w conn \<Rightarrow> 'w \<Rightarrow> go_error option \<times> 'w" where
  "simple_Bind ad_text lib b c w =
     (if sbPassword b = []
      then (Some (ErrMsg ''adldap: simple bind with an empty password would bind anonymously''), w)
      else case cLdap c of
          None \<Rightarrow> (Some (errWrongConn ''SimpleBinder''), w)
        | Some l \<Rightarrow> raw_effect ad_text (lBind lib l (sbUsername b) (sbPassword b) w))"

record ntlm_binder =
  nbDomain :: string
  nbUsername :: string
  nbPassword :: string

definition ntlm_Describe :: "ntlm_binder \<Rightarrow> string" where
  "ntlm_Describe b = ''NTLM bind as '' @ nbDomain b @ [char_of (92 :: nat)] @ nbUsername b"

definition ntlm_Bind ::
  "(ad_error \<Rightarrow> string) \<Rightarrow> 'w ldap_lib \<Rightarrow> ntlm_binder \<Rightarrow> 'w conn \<Rightarrow> 'w \<Rightarrow> go_error option \<times> 'w" where
  "ntlm_Bind ad_text lib b c w =
     (case cLdap c of
        None \<Rightarrow> (Some (errWrongConn ''NTLMBinder''), w)
      | Some l \<Rightarrow> raw_effect ad_text (lNTLMBind lib l (nbDomain b) (nbUsername b) (nbPassword b) w))"

end
