(* ===== verification/Wire.thy ===== *)
theory Wire
  imports Memory Goldap "HOL-Library.List_Lexorder" "HOL-Library.Char_ord"
begin

text \<open>
  Package \<open>internal/adtest\<close>, files \<open>handlers.go\<close> and \<open>server.go\<close>: the handlers of the LDAP server that
  the adapter is tested against.

  The library gldap parses a request and sends the responses.  A handler takes the message it got,
  \<open>None\<close> for one that gldap could not parse, and the state of the server, and gives the entries it
  writes, the final response and the state.  A panic is an error value.  \<open>sort.Slice\<close> sorts the hits by
  their distinct DNs, byte by byte.
\<close>

section \<open>State and messages\<close>

record wire_server =
  sEntries :: "(string \<times> attr_map) list"
  sSeq :: u32

definition bindDN :: string where "bindDN = ''CN=tester,DC=corp,DC=local''"
definition bindPassword :: string where "bindPassword = ''test''"

abbreviation ResultSuccess :: u16 where "ResultSuccess \<equiv> 0"
abbreviation ResultOperationsError :: u16 where "ResultOperationsError \<equiv> 1"
abbreviation ResultSizeLimitExceeded :: u16 where "ResultSizeLimitExceeded \<equiv> 4"
abbreviation ResultNoSuchObject :: u16 where "ResultNoSuchObject \<equiv> 32"
abbreviation ResultInvalidCredentials :: u16 where "ResultInvalidCredentials \<equiv> 49"
abbreviation ResultEntryAlreadyExists :: u16 where "ResultEntryAlreadyExists \<equiv> 68"

text \<open>A control of a request: the paging control with its size and cookie, or another by its type.\<close>

datatype gldap_control = PagingRequest u32 bytes | OtherControl string

fun GetControlType :: "gldap_control \<Rightarrow> string" where
  "GetControlType (PagingRequest n cookie) = ''1.2.840.113556.1.4.319''"
| "GetControlType (OtherControl oid) = oid"

record search_message =
  smBaseDN :: string
  smScope :: scope
  smFilter :: string
  smAttributes :: "string list"
  smSizeLimit :: int
  smControls :: "gldap_control list"

text \<open>The entries a search writes, and its final response with the cookie of the paging control.\<close>

record wire_entry =
  weDN :: string
  weAttrs :: "(string \<times> string list) list"

record search_done =
  sdCode :: u16
  sdCookie :: "bytes option"

definition showDeletedOID :: string where "showDeletedOID = ''1.2.840.113556.1.4.417''"
definition MaxPageSize :: nat where "MaxPageSize = 1000"
definition MaxValRange :: int where "MaxValRange = 1500"

section \<open>Search\<close>

definition handleBind :: "(string \<times> string) option \<Rightarrow> u16" where
  "handleBind msg =
     (case msg of
        None \<Rightarrow> ResultInvalidCredentials
      | Some (userName, password) \<Rightarrow>
          if equalFoldDN userName bindDN \<and> password = bindPassword then ResultSuccess
          else ResultInvalidCredentials)"

definition wire_rootDSE :: attr_map where
  "wire_rootDSE =
     [(''defaultNamingContext'', [bytes_of DNC]),
      (''dnsHostName'', [bytes_of ''dc01.corp.local'']),
      (''schemaNamingContext'', [bytes_of (''CN=Schema,CN=Configuration,'' @ DNC)]),
      (''configurationNamingContext'', [bytes_of (''CN=Configuration,'' @ DNC)]),
      (''supportedLDAPVersion'', [bytes_of ''3''])]"

definition wire_exists :: "wire_server \<Rightarrow> string \<Rightarrow> bool" where
  "wire_exists s dn = list_ex (\<lambda>e. equalFoldDN (fst e) dn) (sEntries s)"

fun inScope :: "string \<Rightarrow> string \<Rightarrow> scope \<Rightarrow> bool" where
  "inScope dn base ScopeBase = equalFoldDN dn base"
| "inScope dn base ScopeOneLevel = isChildOf dn base"
| "inScope dn base ScopeSubtree = isUnder dn base"

definition addAttrs :: "string \<Rightarrow> attr_map \<Rightarrow> string list \<Rightarrow> wire_entry res" where
  "addAttrs dn attrs requested =
     bind_res (rangePages (project attrs requested) requested MaxValRange) (\<lambda>page.
       Inr \<lparr>weDN = dn, weAttrs = map (\<lambda>(name, vals). (name, map str_of vals)) page\<rparr>)"

definition pagingControl :: "gldap_control list \<Rightarrow> (u32 \<times> bytes) option" where
  "pagingControl controls =
     (case find (\<lambda>c. case c of PagingRequest n cookie \<Rightarrow> True | _ \<Rightarrow> False) controls of
        Some (PagingRequest n cookie) \<Rightarrow> Some (n, cookie)
      | _ \<Rightarrow> None)"

definition hasGldapControl :: "gldap_control list \<Rightarrow> string \<Rightarrow> bool" where
  "hasGldapControl controls oid = list_ex (\<lambda>c. GetControlType c = oid) controls"

text \<open>The entries in scope that match, in the order of the map.\<close>

fun wire_hits :: "search_message \<Rightarrow> (string \<times> attr_map) list \<Rightarrow> (string \<times> attr_map) list res" where
  "wire_hits m [] = Inr []"
| "wire_hits m ((dn, attrs) # es) =
     (if \<not> inScope dn (smBaseDN m) (smScope m) then wire_hits m es
      else if isTombstone attrs \<and> \<not> hasGldapControl (smControls m) showDeletedOID then wire_hits m es
      else bind_res (matchFilter (smFilter m) attrs) (\<lambda>b.
        if \<not> b then wire_hits m es
        else bind_res (wire_hits m es) (\<lambda>hits. Inr ((dn, attrs) # hits))))"

text \<open>The value \<open>strconv.Atoi\<close> returns beside its error: zero, or the bound that was exceeded.\<close>

definition atoi_value :: "string \<Rightarrow> int" where
  "atoi_value s =
     (case ParseInt s 10 64 of
        Inr n \<Rightarrow> n
      | Inl e \<Rightarrow>
          if e = num_error ''ParseInt'' s ''value out of range''
          then (if HasPrefix s ''-'' then - (2 ^ 63) else 2 ^ 63 - 1) else 0)"

definition page_size :: "u32 \<Rightarrow> nat" where
  "page_size n = (if unat n = 0 \<or> MaxPageSize < unat n then MaxPageSize else unat n)"

definition write_hits :: "search_message \<Rightarrow> (string \<times> attr_map) list \<Rightarrow> wire_entry list res" where
  "write_hits m hits = map_res (\<lambda>(dn, attrs). addAttrs dn attrs (smAttributes m)) hits"

definition page_response ::
  "search_message \<Rightarrow> u32 \<Rightarrow> bytes \<Rightarrow> (string \<times> attr_map) list \<Rightarrow> (wire_entry list \<times> search_done) res" where
  "page_response m n cookie hits =
     (let offset = (if cookie \<noteq> [] then atoi_value (str_of cookie) else 0);
          stop = min (wrap64 (offset + int (page_size n))) (int (length hits)) in
      if offset < 0 \<or> stop < offset then Inl (GoPanic ''slice bounds out of range'')
      else bind_res (write_hits m (slice (nat offset) (nat stop) hits)) (\<lambda>out.
        Inr (out, \<lparr>sdCode = ResultSuccess,
                   sdCookie = Some (if stop < int (length hits) then bytes_of (FormatInt stop) else [])\<rparr>)))"

definition handleSearch ::
  "search_message option \<Rightarrow> wire_server \<Rightarrow> (wire_entry list \<times> search_done) res" where
  "handleSearch msg s =
     (case msg of
        None \<Rightarrow> Inr ([], \<lparr>sdCode = ResultOperationsError, sdCookie = None\<rparr>)
      | Some m \<Rightarrow>
          if smBaseDN m = [] \<and> smScope m = ScopeBase
          then bind_res (addAttrs [] wire_rootDSE (smAttributes m)) (\<lambda>e.
            Inr ([e], \<lparr>sdCode = ResultSuccess, sdCookie = None\<rparr>))
          else bind_res (wire_hits m (sEntries s)) (\<lambda>hits.
            if hits = [] \<and> \<not> wire_exists s (smBaseDN m) \<and> smScope m = ScopeBase
            then Inr ([], \<lparr>sdCode = ResultNoSuchObject, sdCookie = None\<rparr>)
            else let hits = sort_key fst hits in
              case pagingControl (smControls m) of
                Some (n, cookie) \<Rightarrow> page_response m n cookie hits
              | None \<Rightarrow>
                  if MaxPageSize < length hits \<and> (smSizeLimit m = 0 \<or> int MaxPageSize < smSizeLimit m)
                  then bind_res (write_hits m (take MaxPageSize hits)) (\<lambda>out.
                    Inr (out, \<lparr>sdCode = ResultSizeLimitExceeded, sdCookie = None\<rparr>))
                  else if 0 < smSizeLimit m \<and> smSizeLimit m < int (length hits)
                  then bind_res (write_hits m (take (nat (smSizeLimit m)) hits)) (\<lambda>out.
                    Inr (out, \<lparr>sdCode = ResultSizeLimitExceeded, sdCookie = None\<rparr>))
                  else bind_res (write_hits m hits) (\<lambda>out.
                    Inr (out, \<lparr>sdCode = ResultSuccess, sdCookie = None\<rparr>))))"

section \<open>Writes\<close>

text \<open>A response: its code and its diagnostic message.\<close>

definition wire_nextGUID :: "wire_server \<Rightarrow> bytes \<times> wire_server" where
  "wire_nextGUID s = (let n = sSeq s + 1 in (le32 n @ replicate 12 0, s\<lparr>sSeq := n\<rparr>))"

definition wire_Seed :: "string \<Rightarrow> attr_map \<Rightarrow> wire_server \<Rightarrow> wire_server" where
  "wire_Seed dn attrs s = s\<lparr>sEntries := map_put dn attrs (sEntries s)\<rparr>"

definition handleAdd ::
  "'id adcore \<Rightarrow> (string \<times> (string \<times> string list) list) option \<Rightarrow> wire_server \<Rightarrow> (u16 \<times> string) \<times> wire_server" where
  "handleAdd a msg s =
     (case msg of
        None \<Rightarrow> ((ResultOperationsError, []), s)
      | Some (dn, add) \<Rightarrow>
          if wire_exists s dn then ((ResultEntryAlreadyExists, diagEntryExists), s)
          else
            let attrs = fold (\<lambda>(typ, vals). map_put typ (map bytes_of vals)) add [];
                (guid, s) = wire_nextGUID s;
                attrs = map_put ''objectGUID'' [guid] attrs;
                attrs = map_put ''distinguishedName'' [bytes_of dn] attrs;
                attrs = map_put ''name'' [bytes_of (rdnValue a dn)] attrs;
                attrs = stampSID attrs (1000 + sSeq s)
            in ((ResultSuccess, []), wire_Seed dn attrs s))"

text \<open>One change: the value read under any spelling, the write under the spelling of the request.\<close>

definition wire_change :: "ldap_change \<Rightarrow> attr_map \<Rightarrow> attr_map" where
  "wire_change ch attrs =
     (let name = chType ch; vals = map bytes_of (chVals ch);
          existing = (case lookupFold attrs name of Some v \<Rightarrow> v | None \<Rightarrow> []) in
      case chOp ch of
        ModAdd \<Rightarrow> map_put name (existing @ vals) attrs
      | ModDelete \<Rightarrow>
          if vals = [] then map_delete name attrs else map_put name (without existing vals) attrs
      | ModReplace \<Rightarrow> if vals = [] then map_delete name attrs else map_put name vals attrs)"

definition handleModify ::
  "(string \<times> ldap_change list) option \<Rightarrow> wire_server \<Rightarrow> (u16 \<times> string) \<times> wire_server" where
  "handleModify msg s =
     (case msg of
        None \<Rightarrow> ((ResultOperationsError, []), s)
      | Some (dn, changes) \<Rightarrow>
          (case find (\<lambda>e. equalFoldDN (fst e) dn) (sEntries s) of
             None \<Rightarrow> ((ResultNoSuchObject, diagNoObject), s)
           | Some (key, attrs) \<Rightarrow>
               if key = [] then ((ResultNoSuchObject, diagNoObject), s)
               else ((ResultSuccess, []), wire_Seed key (fold wire_change changes attrs) s)))"

definition handleDelete :: "string option \<Rightarrow> wire_server \<Rightarrow> (u16 \<times> string) \<times> wire_server" where
  "handleDelete msg s =
     (case msg of
        None \<Rightarrow> ((ResultOperationsError, []), s)
      | Some dn \<Rightarrow>
          (case find (\<lambda>e. equalFoldDN (fst e) dn) (sEntries s) of
             None \<Rightarrow> ((ResultNoSuchObject, diagNoObject), s)
           | Some (key, attrs) \<Rightarrow> ((ResultSuccess, []), s\<lparr>sEntries := map_delete key (sEntries s)\<rparr>)))"

text \<open>
  The change is written under the spelling of the request: unlike in the in-memory directory, a replace
  under another spelling leaves the old value beside the new one.
\<close>

lemma wire_change_spelling:
  assumes "EqualFold name key" "name \<noteq> key" "vals \<noteq> []"
  shows "map_of (wire_change \<lparr>chOp = ModReplace, chType = name, chVals = vals\<rparr> [(key, old)]) key = Some old"
    "map_of (wire_change \<lparr>chOp = ModReplace, chType = name, chVals = vals\<rparr> [(key, old)]) name = Some (map bytes_of vals)"
    "apply_mod \<lparr>mOp = ModReplace, mType = name, mVals = map bytes_of vals\<rparr> [(key, old)] = [(key, map bytes_of vals)]"
  using assms by (auto simp: wire_change_def apply_mod_def attrKey_def map_put_def EqualFold_def)

section \<open>Starting a server\<close>

text \<open>The entries a server starts with, and the configuration a client of it gets; host, port and trusted
  certificates are what the listener has.\<close>

definition Start :: wire_server where
  "Start = wire_Seed DNC
     [(''objectClass'', [bytes_of ''top'', bytes_of ''domainDNS'']),
      (''distinguishedName'', [bytes_of DNC]),
      (''objectSid'', [DomainSID])]
     \<lparr>sEntries = [], sSeq = 0\<rparr>"

section \<open>Paging\<close>

text \<open>
  A client that follows the cookies, as the paged results control prescribes: it repeats the request
  with the cookie of the last response until that is empty.
\<close>

fun page_walk :: "nat \<Rightarrow> (bytes \<Rightarrow> search_message) \<Rightarrow> wire_server \<Rightarrow> bytes \<Rightarrow> wire_entry list list res option" where
  "page_walk 0 request s cookie = None"
| "page_walk (Suc fuel) request s cookie =
     (case handleSearch (Some (request cookie)) s of
        Inl e \<Rightarrow> Some (Inl e)
      | Inr (out, d) \<Rightarrow>
          (case sdCookie d of
             Some (b # bs) \<Rightarrow>
               map_option (\<lambda>r. bind_res r (\<lambda>pages. Inr (out # pages))) (page_walk fuel request s (b # bs))
           | _ \<Rightarrow> Some (Inr [out])))"

lemma map_res_take_drop:
  "map_res f xs = Inr ys \<Longrightarrow> map_res f (take n xs) = Inr (take n ys) \<and> map_res f (drop n xs) = Inr (drop n ys)"
proof (induction xs arbitrary: n ys)
  case (Cons x xs)
  then show ?case by (cases n) auto
qed simp

lemma write_slice: "write_hits m H = Inr out \<Longrightarrow> write_hits m (slice i j H) = Inr (slice i j out)"
  unfolding write_hits_def slice_def using map_res_take_drop by blast

definition cookie_at :: "nat \<Rightarrow> bytes" where
  "cookie_at k = (if k = 0 then [] else bytes_of (FormatInt (int k)))"

lemma page_size_bounds: "0 < page_size n" "page_size n \<le> MaxPageSize"
  by (auto simp: page_size_def MaxPageSize_def)

lemma FormatInt_not_Nil [simp]: "FormatInt i \<noteq> []"
  by (simp add: FormatInt_def)

lemma bytes_of_Nil_iff [simp]: "bytes_of s = [] \<longleftrightarrow> s = []"
  by (simp add: bytes_of_def)

lemma page_response_at:
  assumes "write_hits m H = Inr out" "k \<le> length H" "int (length H) + int MaxPageSize < 2 ^ 63"
  shows "page_response m n (cookie_at k) H =
    Inr (slice k (min (k + page_size n) (length H)) out,
      \<lparr>sdCode = ResultSuccess, sdCookie = Some (if k + page_size n < length H then cookie_at (k + page_size n) else [])\<rparr>)"
proof -
  have off: "(if cookie_at k \<noteq> [] then atoi_value (str_of (cookie_at k)) else 0) = int k"
    using assms(2,3) ParseInt_FormatInt [of "int k"] by (auto simp: cookie_at_def atoi_value_def)
  have wr: "wrap64 (int k + int (page_size n)) = int k + int (page_size n)"
    using assms(2,3) page_size_bounds(2) [of n] by (intro wrap64_id) linarith+
  let ?stop = "min (k + page_size n) (length H)"
  have stop: "min (int k + int (page_size n)) (int (length H)) = int ?stop" by simp
  have "write_hits m (slice k ?stop H) = Inr (slice k ?stop out)" by (rule write_slice [OF assms(1)])
  with assms(2) show ?thesis
    unfolding page_response_def Let_def off wr stop using page_size_bounds(1) [of n] by (auto simp: cookie_at_def min_def)
qed

text \<open>The requests of one paged search, which differ in the cookie only.\<close>

definition paged :: "search_message \<Rightarrow> u32 \<Rightarrow> bytes \<Rightarrow> search_message" where
  "paged m n cookie = m\<lparr>smControls := PagingRequest n cookie # smControls m\<rparr>"

lemma wire_hits_paged: "wire_hits (paged m n cookie) es = wire_hits m es"
proof -
  have "hasGldapControl (smControls (paged m n cookie)) showDeletedOID = hasGldapControl (smControls m) showDeletedOID"
    by (simp add: hasGldapControl_def paged_def showDeletedOID_def)
  moreover have "smBaseDN (paged m n cookie) = smBaseDN m" "smScope (paged m n cookie) = smScope m"
    "smFilter (paged m n cookie) = smFilter m"
    by (simp_all add: paged_def)
  ultimately show ?thesis
  proof (induction es)
    case (Cons e es)
    then show ?case by (cases e; cases "matchFilter (smFilter m) (snd e)") simp_all
  qed simp
qed

lemma handleSearch_paged:
  assumes "wire_hits m (sEntries s) = Inr hits" "smBaseDN m \<noteq> []" "hits \<noteq> [] \<or> wire_exists s (smBaseDN m)"
  shows "handleSearch (Some (paged m n cookie)) s = page_response m n cookie (sort_key fst hits)"
proof -
  have "handleSearch (Some (paged m n cookie)) s = page_response (paged m n cookie) n cookie (sort_key fst hits)"
    using assms by (auto simp: handleSearch_def wire_hits_paged pagingControl_def) (auto simp: paged_def)
  moreover have "write_hits (paged m n cookie) = write_hits m" by (rule ext) (simp add: write_hits_def paged_def)
  ultimately show ?thesis by (simp add: page_response_def Let_def)
qed

lemma page_walk_complete:
  assumes walk: "\<And>cookie. handleSearch (Some (paged m n cookie)) s = page_response m n cookie H"
    and "write_hits m H = Inr out" "int (length H) + int MaxPageSize < 2 ^ 63"
  shows "k \<le> length H \<Longrightarrow> length H - k < fuel \<Longrightarrow>
    \<exists>pages. page_walk fuel (paged m n) s (cookie_at k) = Some (Inr pages) \<and> concat pages = drop k out \<and>
      list_all (\<lambda>pg. length pg \<le> MaxPageSize) pages"
proof (induction fuel arbitrary: k)
  case (Suc fuel)
  let ?next = "k + page_size n"
  have len: "length out = length H" using assms(2) map_res_Inr_length by (auto simp: write_hits_def)
  note r = page_response_at [OF assms(2) Suc.prems(1) assms(3), of n] and b = page_size_bounds [of n]
  show ?case
  proof (cases "?next < length H")
    case True
    then have "cookie_at ?next \<noteq> []" using b(1) by (simp add: cookie_at_def bytes_of_def)
    then obtain x xs where c: "cookie_at ?next = x # xs" by (cases "cookie_at ?next") auto
    from True Suc.prems b(1) have "?next \<le> length H" "length H - ?next < fuel" by linarith+
    from Suc.IH [OF this] obtain pages where
      p: "page_walk fuel (paged m n) s (cookie_at ?next) = Some (Inr pages)" "concat pages = drop ?next out"
        "list_all (\<lambda>pg. length pg \<le> MaxPageSize) pages"
      by auto
    have "slice k ?next out @ drop ?next out = drop k out"
      by (simp add: slice_def) (metis add.commute append_take_drop_id drop_drop)
    with True p r b(2) len show ?thesis by (simp add: walk c slice_length)
  next
    case False
    then have "slice k (length H) out = drop k out" using len by (simp add: slice_def)
    with False r b(2) len show ?thesis by (simp add: walk)
  qed
qed simp

section \<open>Properties\<close>

text \<open>
  C23. A paged search sees everything: a client that follows the cookies gets, after finitely many
  requests, every object in scope that matches, in the order of the names and each one once, in pages
  of at most \<open>MaxPageSize\<close> entries; while the unpaged search of more objects than that ends in
  \<open>sizeLimitExceeded\<close> with the first page only.
\<close>

theorem paged_search_complete:
  assumes "wire_hits m (sEntries s) = Inr hits" "smBaseDN m \<noteq> []" "hits \<noteq> [] \<or> wire_exists s (smBaseDN m)"
    and "write_hits m (sort_key fst hits) = Inr out" "int (length hits) + int MaxPageSize < 2 ^ 63"
  shows "(\<exists>pages. page_walk (Suc (length hits)) (paged m n) s [] = Some (Inr pages) \<and> concat pages = out \<and>
      list_all (\<lambda>pg. length pg \<le> MaxPageSize) pages) \<and>
    (pagingControl (smControls m) = None \<and> MaxPageSize < length hits \<and> smSizeLimit m = 0 \<longrightarrow>
      handleSearch (Some m) s = Inr (take MaxPageSize out, \<lparr>sdCode = ResultSizeLimitExceeded, sdCookie = None\<rparr>))"
proof (intro conjI impI)
  from page_walk_complete [OF handleSearch_paged [OF assms(1-3)] assms(4), of 0 "Suc (length hits)" n] assms(5)
  show "\<exists>pages. page_walk (Suc (length hits)) (paged m n) s [] = Some (Inr pages) \<and> concat pages = out \<and>
      list_all (\<lambda>pg. length pg \<le> MaxPageSize) pages"
    by (simp add: cookie_at_def)
next
  assume "pagingControl (smControls m) = None \<and> MaxPageSize < length hits \<and> smSizeLimit m = 0"
  moreover have "write_hits m (take MaxPageSize (sort_key fst hits)) = Inr (take MaxPageSize out)"
    using map_res_take_drop assms(4) unfolding write_hits_def by blast
  ultimately show "handleSearch (Some m) s = Inr (take MaxPageSize out, \<lparr>sdCode = ResultSizeLimitExceeded, sdCookie = None\<rparr>)"
    using assms(1-3) by (auto simp: handleSearch_def Let_def)
qed

definition two_entries :: wire_server where
  "two_entries = \<lparr>sEntries = [(''CN=b,DC=c'', [(''objectClass'', [bytes_of ''top''])]),
                              (''CN=a,DC=c'', [(''objectClass'', [bytes_of ''top''])])], sSeq = 2\<rparr>"

definition sample_search :: search_message where
  "sample_search = \<lparr>smBaseDN = ''DC=c'', smScope = ScopeSubtree, smFilter = ''(objectClass=*)'', smAttributes = [],
     smSizeLimit = 0, smControls = []\<rparr>"

lemma sample_scope: "isUnder ''CN=a,DC=c'' ''DC=c''" "isUnder ''CN=b,DC=c'' ''DC=c''"
proof -
  have n: "normalizeDN ''CN=a,DC=c'' = ''CN=a,DC=c''" "normalizeDN ''CN=b,DC=c'' = ''CN=b,DC=c''"
    "normalizeDN ''DC=c'' = ''DC=c''"
    by (simp_all add: normalizeDN_def TrimSpace_def is_space_def)
  show "isUnder ''CN=a,DC=c'' ''DC=c''" "isUnder ''CN=b,DC=c'' ''DC=c''"
    by (simp_all add: isUnder_def n ToLower_def HasSuffix_def lower_char_def is_upper_def)
qed

lemma sample_hits: "wire_hits sample_search (sEntries two_entries) = Inr (sEntries two_entries)"
proof -
  have "\<not> EqualFold ''objectClass'' ''isDeleted''" by (simp add: EqualFold_def ToLower_def)
  then have "\<not> isTombstone [(''objectClass'', [v])]" for v by (simp add: isTombstone_def lookupFold_def)
  moreover have "matchFilter ''(objectClass=*)'' [(''objectClass'', [v])] = Inr True" for v
    by (simp add: matchFilter_present lookupFold_def)
  ultimately show ?thesis
    using sample_scope by (simp add: sample_search_def two_entries_def)
qed

lemma sample_sorted: "sort_key fst (sEntries two_entries) = rev (sEntries two_entries)"
  by (simp add: two_entries_def)

lemma write_all_attributes:
  assumes "smAttributes m = []"
  shows "\<exists>out. write_hits m hits = Inr out \<and> map weDN out = map fst hits"
proof -
  have "\<exists>e. addAttrs dn attrs [] = Inr e \<and> weDN e = dn" for dn attrs
    by (simp add: addAttrs_def rangePages_def MaxValRange_def)
  with assms show ?thesis by (induction hits) (fastforce simp: write_hits_def)+
qed

lemma sample_names: "map fst (rev (sEntries two_entries)) = [''CN=a,DC=c'', ''CN=b,DC=c'']"
  by (simp add: two_entries_def)

theorem paged_search_complete_witness:
  "\<exists>pages. page_walk 3 (paged sample_search 1) two_entries [] = Some (Inr pages) \<and>
     map weDN (concat pages) = [''CN=a,DC=c'', ''CN=b,DC=c'']"
proof -
  have side: "smBaseDN sample_search \<noteq> []" "sEntries two_entries \<noteq> []" "length (sEntries two_entries) = 2"
    "smAttributes sample_search = []" "Suc 2 = (3 :: nat)"
    by (simp_all add: sample_search_def two_entries_def)
  from write_all_attributes [OF side(4), of "rev (sEntries two_entries)"] obtain out where
    "write_hits sample_search (rev (sEntries two_entries)) = Inr out" "map weDN out = map fst (rev (sEntries two_entries))"
    by (elim exE conjE)
  then have out: "write_hits sample_search (sort_key fst (sEntries two_entries)) = Inr out"
    "map weDN out = [''CN=a,DC=c'', ''CN=b,DC=c'']"
    by (simp_all only: sample_sorted sample_names)
  have big: "int (length (sEntries two_entries)) + int MaxPageSize < 2 ^ 63" unfolding side(3) MaxPageSize_def by simp
  note walk = paged_search_complete [OF sample_hits side(1) disjI1 [OF side(2)] out(1) big, THEN conjunct1, of 1]
  then obtain pages where "page_walk 3 (paged sample_search 1) two_entries [] = Some (Inr pages)" "concat pages = out"
    unfolding side(3,5) by (elim exE conjE)
  with out(2) show ?thesis by (intro exI [of _ pages]) (simp only: simp_thms)
qed

end
