(* ===== verification/Krb.thy ===== *)
theory Krb
  imports Goldap
begin

text \<open>
  Package \<open>internal/conn\<close>, files \<open>ccache.go\<close>, \<open>krb5conf.go\<close>, \<open>cbt.go\<close>, \<open>authchksum.go\<close>,
  \<open>ticketsource.go\<close>, \<open>gssclient.go\<close> and \<open>bind_krb.go\<close>: the Kerberos bind with its channel-binding token.

  The Kerberos library is the record \<open>krb_lib\<close> of the calls the code makes; its own objects
  (configurations, clients, tickets, tokens) are values of one type \<open>'o\<close> that the code never looks
  into, and its keys are values of \<open>'k\<close>.  The digests are the functions \<open>digest\<close> and \<open>md5\<close>.
\<close>

section \<open>Finding credentials and configuration\<close>

definition knownCCacheTypes :: "string list" where
  "knownCCacheTypes = [''FILE'', ''DIR'', ''KEYRING'', ''KCM'', ''MEMORY'', ''MSLSA'', ''API'']"

definition ResolveCCachePath :: "string \<Rightarrow> (string \<Rightarrow> string) \<Rightarrow> string res" where
  "ResolveCCachePath explicit getenv =
     (let raw = TrimSpace explicit;
          raw = (if raw = [] then TrimSpace (getenv ''KRB5CCNAME'') else raw) in
      if raw = []
      then Inl (ErrMsg (''adldap: no Kerberos credential cache: set KRB5CCNAME, or run '' @
             ''KRB5CCNAME=FILE:/tmp/krb5cc_tf kinit <user>@<REALM>''))
      else case Index raw '':'' of
          None \<Rightarrow> Inr raw
        | Some i \<Rightarrow>
            if i = 0 then Inr raw
            else let scheme = ToUpper (take i raw) in
              if scheme = ''FILE'' then Inr (drop (i + 1) raw)
              else if scheme \<in> set knownCCacheTypes
              then Inl (ErrMsg (''adldap: KRB5CCNAME names a '' @ scheme @
                     '' credential cache, which cannot be read from Go '' @
                     ''(only FILE caches can be). Re-obtain the ticket into a file: '' @
                     ''KRB5CCNAME=FILE:/tmp/krb5cc_tf kinit <user>@<REALM>, then run Terraform '' @
                     ''with that same KRB5CCNAME''))
              else Inr raw)"

definition RealmFromServer :: "string \<Rightarrow> string" where
  "RealmFromServer server =
     (let server = TrimSuffix server ''.'' in
      case Index server ''.'' of
        None \<Rightarrow> []
      | Some i \<Rightarrow> let domain = drop (i + 1) server in if domain = [] then [] else ToUpper domain)"

definition systemKrb5Conf :: string where "systemKrb5Conf = ''/etc/krb5.conf''"

definition nl :: string where "nl = [char_of (10 :: nat)]"

definition synthesizeKrb5Conf :: "string \<Rightarrow> string \<Rightarrow> string res" where
  "synthesizeKrb5Conf realm kdc =
     (if realm = []
      then Inl (ErrMsg (''adldap: no Kerberos realm: set Kerberos.Realm, or name a krb5.conf with '' @
             ''Kerberos.Krb5ConfPath. A realm cannot be guessed '' @ em_dash @ '' the wrong one sends the '' @
             ''request to the wrong KDC and reports the principal as unknown''))
      else if kdc = [] then Inl (ErrMsg ''adldap: no KDC: Config.Server is required'')
      else let domain = ToLower realm in
        Inr (''[libdefaults]'' @ nl @ ''    default_realm = '' @ realm @ nl @
             ''    dns_lookup_realm = false'' @ nl @ ''    dns_lookup_kdc = false'' @ nl @
             ''    rdns = false'' @ nl @ nl @ ''[realms]'' @ nl @ ''    '' @ realm @ '' = {'' @ nl @
             ''        kdc = '' @ kdc @ nl @ ''    }'' @ nl @ nl @ ''[domain_realm]'' @ nl @
             ''    .'' @ domain @ '' = '' @ realm @ nl @ ''    '' @ domain @ '' = '' @ realm @ nl))"

section \<open>The Kerberos library\<close>

text \<open>A token of the acceptor after \<open>Unmarshal\<close>.\<close>

datatype 'o acceptor_token = TokKRBError go_error | TokAPRep 'o | TokOther

record wrap_token =
  wtFlags :: byte
  wtEC :: u16
  wtRRC :: u16
  wtSndSeqNum :: u64
  wtCheckSum :: bytes
  wtPayload :: bytes

text \<open>
  \<open>kStat\<close> is \<open>os.Stat\<close>: \<open>None\<close> for a file that is there.  \<open>kDecryptAPRep\<close> decrypts the encrypted part of an
  AP-REP under a key, and \<open>kAPRepSubkey\<close> reads the subkey from it.
\<close>

record ('o, 'k, 'w) krb_lib =
  kStat :: "string \<Rightarrow> go_error option"
  kConfigLoad :: "string \<Rightarrow> 'o res"
  kConfigNewFromString :: "string \<Rightarrow> 'o res"
  kKeytabLoad :: "string \<Rightarrow> 'o res"
  kNewWithKeytab :: "string \<Rightarrow> string \<Rightarrow> 'o \<Rightarrow> 'o \<Rightarrow> 'o"
  kNewWithPassword :: "string \<Rightarrow> string \<Rightarrow> string \<Rightarrow> 'o \<Rightarrow> 'o"
  kLoadCCache :: "string \<Rightarrow> 'o res"
  kNewFromCCache :: "'o \<Rightarrow> 'o \<Rightarrow> 'o res"
  kDestroy :: "'o \<Rightarrow> 'w \<Rightarrow> 'w"
  kServiceTicket :: "'o \<Rightarrow> string \<Rightarrow> 'w \<Rightarrow> ('o \<times> 'k) res \<times> 'w"
  kNewTokenAPREQ :: "'o \<Rightarrow> 'o \<Rightarrow> 'k \<Rightarrow> int list \<Rightarrow> int list \<Rightarrow> 'o res"
  kNewAuthenticator :: "'o \<Rightarrow> 'o res"
  kNewAPReq :: "'o \<Rightarrow> 'k \<Rightarrow> 'o \<Rightarrow> bytes \<Rightarrow> 'o res"
  kSetFlag :: "'o \<Rightarrow> int \<Rightarrow> 'o"
  kSetAPReq :: "'o \<Rightarrow> 'o \<Rightarrow> 'o"
  kMarshalToken :: "'o \<Rightarrow> bytes res"
  kUnmarshalToken :: "bytes \<Rightarrow> 'o acceptor_token res"
  kDecryptAPRep :: "'o \<Rightarrow> 'k \<Rightarrow> bytes res"
  kAPRepSubkey :: "bytes \<Rightarrow> 'k res"
  kVerify :: "wrap_token \<Rightarrow> 'k \<Rightarrow> go_error option"
  kHMACBitLength :: "'k \<Rightarrow> int res"
  kSetCheckSum :: "wrap_token \<Rightarrow> 'k \<Rightarrow> wrap_token res"
  kMarshalWrap :: "wrap_token \<Rightarrow> bytes res"
  kZeroKey :: 'k
  ContextFlagDeleg :: int
  ContextFlagMutual :: int
  ContextFlagInteg :: int
  ContextFlagConf :: int
  APOptionMutualRequired :: int
  FillerByte :: byte
  HdrLen :: nat

definition ErrNotExist :: go_error where "ErrNotExist = ErrMsg ''file does not exist''"

definition loadKrb5Conf :: "('o, 'k, 'w) krb_lib \<Rightarrow> string \<Rightarrow> string \<Rightarrow> string \<Rightarrow> 'o res" where
  "loadKrb5Conf kl explicitPath realm kdc =
     (if explicitPath \<noteq> []
      then case kConfigLoad kl explicitPath of
          Inl err \<Rightarrow> Inl (ErrWrap (''adldap: reading the Kerberos configuration at '' @ explicitPath) err)
        | Inr cfg \<Rightarrow> Inr cfg
      else case kStat kl systemKrb5Conf of
          None \<Rightarrow>
            (case kConfigLoad kl systemKrb5Conf of
               Inl err \<Rightarrow> Inl (ErrWrap (''adldap: reading '' @ systemKrb5Conf) err)
             | Inr cfg \<Rightarrow> Inr cfg)
        | Some err \<Rightarrow>
            if \<not> errors_Is err ErrNotExist then Inl (ErrWrap (''adldap: checking for '' @ systemKrb5Conf) err)
            else bind_res (synthesizeKrb5Conf realm kdc) (\<lambda>txt.
              case kConfigNewFromString kl txt of
                Inl err \<Rightarrow> Inl (ErrWrap ''adldap: the synthesized Kerberos configuration did not parse'' err)
              | Inr cfg \<Rightarrow> Inr cfg))"

record ticket_source_options =
  tsCCachePath :: string
  tsKeytab :: string
  tsPassword :: string
  tsUsername :: string
  tsRealm :: string
  tsKrb5ConfPath :: string
  tsKDC :: string

text \<open>
  The source is the library's client; the constructors of the library are those with the settings
  \<open>krbSettings()\<close>.
\<close>

definition newTicketSource ::
  "('o, 'k, 'w) krb_lib \<Rightarrow> (string \<Rightarrow> string) \<Rightarrow> ticket_source_options \<Rightarrow> 'o res" where
  "newTicketSource kl getenv opts =
     (let realm = (if tsRealm opts = [] then RealmFromServer (tsKDC opts) else tsRealm opts) in
      bind_res (loadKrb5Conf kl (tsKrb5ConfPath opts) realm (tsKDC opts)) (\<lambda>krb5conf.
      if tsKeytab opts \<noteq> []
      then if tsUsername opts = [] then Inl (ErrMsg ''adldap: Kerberos.Keytab requires Kerberos.Username'')
           else (case kKeytabLoad kl (tsKeytab opts) of
               Inl err \<Rightarrow> Inl (ErrWrap (''adldap: reading the keytab at '' @ tsKeytab opts) err)
             | Inr kt \<Rightarrow> Inr (kNewWithKeytab kl (tsUsername opts) realm kt krb5conf))
      else if tsPassword opts \<noteq> []
      then if tsUsername opts = []
           then Inl (ErrMsg (''adldap: Kerberos.Password requires Kerberos.Username '' @ em_dash @
                  '' the AS-REQ has no '' @ ''client name without it, and the KDC reports an unknown principal rather '' @
                  ''than a missing one''))
           else Inr (kNewWithPassword kl (tsUsername opts) realm (tsPassword opts) krb5conf)
      else bind_res (ResolveCCachePath (tsCCachePath opts) getenv) (\<lambda>path.
           case kLoadCCache kl path of
             Inl err \<Rightarrow> Inl (ErrWrap (''adldap: reading the credential cache at '' @ path) err)
           | Inr cc \<Rightarrow> kNewFromCCache kl cc krb5conf)))"

section \<open>The channel-binding token\<close>

datatype hash_alg = SHA256 | SHA384 | SHA512

definition certificateHash :: "string \<Rightarrow> hash_alg" where
  "certificateHash alg =
     (if alg \<in> {''SHA384WithRSA'', ''ECDSAWithSHA384'', ''SHA384WithRSAPSS''} then SHA384
      else if alg \<in> {''SHA512WithRSA'', ''ECDSAWithSHA512'', ''SHA512WithRSAPSS''} then SHA512
      else SHA256)"

definition channelBindingStruct :: "bytes \<Rightarrow> bytes" where
  "channelBindingStruct appData =
     le32 0 @ le32 0 @ le32 0 @ le32 0 @ le32 (word_of_nat (length appData)) @ appData"

record digests =
  digest :: "hash_alg \<Rightarrow> bytes \<Rightarrow> bytes"
  md5 :: "bytes \<Rightarrow> bytes"

definition channelBindingToken :: "digests \<Rightarrow> x509_certificate \<Rightarrow> bytes" where
  "channelBindingToken dg cert =
     md5 dg (channelBindingStruct
       (bytes_of ''tls-server-end-point:'' @ digest dg (certificateHash (certSignatureAlgorithm cert)) (certRaw cert)))"

definition channelBindingLen :: nat where "channelBindingLen = 16"

text \<open>The loop over the context flags: the buffer grows for delegation, the flags are united.\<close>

fun checksum_flags :: "('o, 'k, 'w) krb_lib \<Rightarrow> int list \<Rightarrow> bytes \<Rightarrow> u32 \<Rightarrow> (bytes \<times> u32) res" where
  "checksum_flags kl [] b f = Inr (b, f)"
| "checksum_flags kl (flag # fs) b f =
     (if flag = ContextFlagDeleg kl
      then if 28 < length b then Inl (GoPanic ''makeslice: len out of range'')
           else checksum_flags kl fs (b @ replicate (28 - length b) 0) (f OR word_of_int flag)
      else checksum_flags kl fs b (f OR word_of_int flag))"

text \<open>\<open>None\<close> is a \<open>nil\<close> token.\<close>

definition authenticatorChecksum :: "('o, 'k, 'w) krb_lib \<Rightarrow> int list \<Rightarrow> bytes option \<Rightarrow> bytes res" where
  "authenticatorChecksum kl ctxFlags bnd =
     (case bnd of
        Some v \<Rightarrow>
          if length v \<noteq> channelBindingLen
          then Inl (GoPanic (''adldap: channel-binding token is '' @ fmt_nat 10 (length v) @ '' bytes, must be '' @
                 fmt_nat 10 channelBindingLen @ ''; '' @ ''a wrong width shifts every later checksum field''))
          else bind_res (checksum_flags kl ctxFlags
                 (put_at 4 v (put_at 0 (le32 (word_of_nat channelBindingLen)) (replicate 24 0))) 0)
               (\<lambda>(b, f). Inr (put_at 20 (le32 f) b))
      | None \<Rightarrow>
          bind_res (checksum_flags kl ctxFlags
            (put_at 0 (le32 (word_of_nat channelBindingLen)) (replicate 24 0)) 0)
          (\<lambda>(b, f). Inr (put_at 20 (le32 f) b)))"

section \<open>The GSSAPI client\<close>

record ('o, 'k) gss_client =
  gsSrc :: 'o
  gsCbt :: "bytes option"
  gsEkey :: 'k
  gsSubkey :: 'k

definition newGSSClient :: "('o, 'k, 'w) krb_lib \<Rightarrow> 'o \<Rightarrow> bytes option \<Rightarrow> ('o, 'k) gss_client" where
  "newGSSClient kl src cbt = \<lparr>gsSrc = src, gsCbt = cbt, gsEkey = kZeroKey kl, gsSubkey = kZeroKey kl\<rparr>"

definition contextFlags :: "('o, 'k, 'w) krb_lib \<Rightarrow> int list" where
  "contextFlags kl = [ContextFlagInteg kl, ContextFlagConf kl, ContextFlagMutual kl]"

definition checksum :: "('o, 'k, 'w) krb_lib \<Rightarrow> ('o, 'k) gss_client \<Rightarrow> bytes res" where
  "checksum kl c = authenticatorChecksum kl (contextFlags kl) (gsCbt c)"

definition gss_Close :: "('o, 'k, 'w) krb_lib \<Rightarrow> ('o, 'k) gss_client \<Rightarrow> 'w \<Rightarrow> 'w" where
  "gss_Close kl c w = kDestroy kl (gsSrc c) w"

definition DeleteSecContext :: "('o, 'k, 'w) krb_lib \<Rightarrow> ('o, 'k) gss_client \<Rightarrow> ('o, 'k) gss_client" where
  "DeleteSecContext kl c = c\<lparr>gsEkey := kZeroKey kl, gsSubkey := kZeroKey kl\<rparr>"

definition newAPREQToken ::
  "('o, 'k, 'w) krb_lib \<Rightarrow> ('o, 'k) gss_client \<Rightarrow> 'o \<Rightarrow> 'k \<Rightarrow> int list \<Rightarrow> 'o res" where
  "newAPREQToken kl c tkt ekey apOpts =
     bind_res (kNewTokenAPREQ kl (gsSrc c) tkt ekey (contextFlags kl) apOpts) (\<lambda>token.
     case kNewAuthenticator kl (gsSrc c) of
       Inl err \<Rightarrow> Inl (ErrWrap ''adldap: building the authenticator'' err)
     | Inr auth \<Rightarrow>
         bind_res (checksum kl c) (\<lambda>ck.
         case kNewAPReq kl tkt ekey auth ck of
           Inl err \<Rightarrow> Inl (ErrWrap ''adldap: building the AP-REQ'' err)
         | Inr apReq \<Rightarrow> Inr (kSetAPReq kl token (fold (\<lambda>flag req. kSetFlag kl req flag) apOpts apReq))))"

text \<open>
  The result is the token to send and whether the exchange goes on; a \<open>nil\<close> input is \<open>None\<close>.
\<close>

definition InitSecContextWithOptions ::
  "('o, 'k, 'w) krb_lib \<Rightarrow> ('o, 'k) gss_client \<Rightarrow> string \<Rightarrow> bytes option \<Rightarrow> int list \<Rightarrow> 'w \<Rightarrow>
     (bytes \<times> bool) res \<times> ('o, 'k) gss_client \<times> 'w" where
  "InitSecContextWithOptions kl c target input apOpts w =
     (case input of
        None \<Rightarrow>
          (case kServiceTicket kl (gsSrc c) target w of
             (Inl err, w) \<Rightarrow> (Inl err, c, w)
           | (Inr (tkt, ekey), w) \<Rightarrow>
               (let c = c\<lparr>gsEkey := ekey\<rparr> in
                (bind_res (newAPREQToken kl c tkt ekey apOpts) (\<lambda>token.
                 case kMarshalToken kl token of
                   Inl err \<Rightarrow> Inl (ErrWrap ''adldap: marshalling the AP-REQ'' err)
                 | Inr out \<Rightarrow> Inr (out, True)), c, w)))
      | Some inp \<Rightarrow>
          (case kUnmarshalToken kl inp of
             Inl err \<Rightarrow> (Inl (ErrWrap ''adldap: reading the acceptor's token'' err), c, w)
           | Inr (TokKRBError err) \<Rightarrow> (Inl err, c, w)
           | Inr (TokAPRep enc) \<Rightarrow>
               (case kDecryptAPRep kl enc (gsEkey c) of
                  Inl err \<Rightarrow> (Inl (ErrWrap ''adldap: decrypting the AP-REP'' err), c, w)
                | Inr part \<Rightarrow>
                    (case kAPRepSubkey kl part of
                       Inl err \<Rightarrow> (Inl (ErrWrap ''adldap: reading the AP-REP'' err), c, w)
                     | Inr key \<Rightarrow> (Inr ([], False), c\<lparr>gsSubkey := key\<rparr>, w)))
           | Inr TokOther \<Rightarrow> (Inr ([], True), c, w)))"

definition InitSecContext ::
  "('o, 'k, 'w) krb_lib \<Rightarrow> ('o, 'k) gss_client \<Rightarrow> string \<Rightarrow> bytes option \<Rightarrow> 'w \<Rightarrow>
     (bytes \<times> bool) res \<times> ('o, 'k) gss_client \<times> 'w" where
  "InitSecContext kl c target input w = InitSecContextWithOptions kl c target input [APOptionMutualRequired kl] w"

definition getGssWrapTokenId :: bytes where "getGssWrapTokenId = [0x05, 0x04]"

text \<open>A slice expression with its bounds checked.\<close>

definition go_slice :: "nat \<Rightarrow> nat \<Rightarrow> 'a list \<Rightarrow> 'a list res" where
  "go_slice i j b =
     (if i \<le> j \<and> j \<le> length b then Inr (slice i j b) else Inl (GoPanic ''slice bounds out of range''))"

definition unmarshalWrapToken :: "('o, 'k, 'w) krb_lib \<Rightarrow> bytes \<Rightarrow> bool \<Rightarrow> wrap_token res" where
  "unmarshalWrapToken kl b expectFromAcceptor =
     (if length b < 16 then Inl (ErrMsg ''bytes shorter than header length'')
      else if getGssWrapTokenId \<noteq> slice 0 2 b
      then Inl (ErrMsg (''wrong Token ID. Expected '' @ concat (map hex_byte getGssWrapTokenId) @ '', was '' @
             concat (map hex_byte (slice 0 2 b))))
      else
        let wtflags = b ! 2; isFromAcceptor = (wtflags AND 0x01 = 1) in
        if isFromAcceptor \<and> \<not> expectFromAcceptor
        then Inl (ErrMsg ''unexpected acceptor flag is set: not expecting a token from the acceptor'')
        else if \<not> isFromAcceptor \<and> expectFromAcceptor
        then Inl (ErrMsg (''expected acceptor flag is not set: expecting a token from the acceptor, '' @
               ''not the initiator''))
        else if b ! 3 \<noteq> FillerByte kl
        then Inl (ErrMsg (''unexpected filler byte: expecting 0xFF, was '' @ hex_byte (b ! 3) @ '' ''))
        else
          let checksumL = un_be16 (slice 4 6 b) in
          if int (unat checksumL) > int (length b) - int (HdrLen kl)
          then Inl (ErrMsg (''inconsistent checksum length: '' @ fmt_nat 10 (length b) @
                 '' bytes to parse, checksum length is '' @ fmt_nat 10 (unat checksumL)))
          else
            let payloadStart = HdrLen kl + unat checksumL in
            bind_res (go_slice 16 payloadStart b) (\<lambda>ck.
            bind_res (go_slice payloadStart (length b) b) (\<lambda>payload.
            Inr \<lparr>wtFlags = wtflags, wtEC = checksumL, wtRRC = un_be16 (slice 6 8 b),
                 wtSndSeqNum = un_be64 (slice 8 16 b), wtCheckSum = ck, wtPayload = payload\<rparr>)))"

text \<open>The key that protects a token, by its flag for the acceptor's subkey; the answer to the offered layers.\<close>

definition sasl_key :: "('o, 'k) gss_client \<Rightarrow> wrap_token \<Rightarrow> 'k" where
  "sasl_key c token = (if wtFlags token AND 4 \<noteq> 0 then gsSubkey c else gsEkey c)"

definition sasl_reply :: "int \<Rightarrow> string \<Rightarrow> wrap_token" where
  "sasl_reply bits authzid =
     \<lparr>wtFlags = 4, wtEC = word_of_int (bits div 8), wtRRC = 0, wtSndSeqNum = 1, wtCheckSum = [],
      wtPayload = [0, 0, 0, 0] @ bytes_of authzid\<rparr>"

definition NegotiateSaslAuth ::
  "('o, 'k, 'w) krb_lib \<Rightarrow> ('o, 'k) gss_client \<Rightarrow> bytes \<Rightarrow> string \<Rightarrow> bytes res" where
  "NegotiateSaslAuth kl c input authzid =
     bind_res (unmarshalWrapToken kl input True) (\<lambda>token.
     if wtFlags token AND 1 = 0 then Inl (ErrMsg ''adldap: the wrapped token did not come from the acceptor'')
     else
       case kVerify kl token (sasl_key c token) of
         Some err \<Rightarrow> Inl (ErrWrap ''adldap: verifying the acceptor's token'' err)
       | None \<Rightarrow>
           if length (wtPayload token) \<noteq> 4
           then Inl (ErrMsg (''adldap: the acceptor's final token is '' @ fmt_nat 10 (length (wtPayload token)) @
                  '' bytes, want 4''))
           else
             bind_res (kHMACBitLength kl (sasl_key c token)) (\<lambda>bits.
             bind_res (kSetCheckSum kl (sasl_reply bits authzid) (sasl_key c token)) (\<lambda>reply.
             kMarshalWrap kl reply)))"

section \<open>The bind\<close>

record kerberos_binder =
  kbCCachePath :: string
  kbKeytab :: string
  kbPassword :: string
  kbUsername :: string
  kbRealm :: string
  kbKrb5ConfPath :: string
  kbSPN :: string
  kbHost :: string

definition kerberos_Describe :: "kerberos_binder \<Rightarrow> string" where
  "kerberos_Describe b =
     (if kbKeytab b \<noteq> [] then ''GSSAPI bind as '' @ kbUsername b @ ''@'' @ kbRealm b @ '' from a keytab''
      else if kbPassword b \<noteq> []
      then ''GSSAPI bind as '' @ kbUsername b @ ''@'' @ kbRealm b @ '' from a supplied password''
      else ''GSSAPI bind from the ambient credential cache'')"

definition spn :: "kerberos_binder \<Rightarrow> string" where
  "spn b = (if kbSPN b \<noteq> [] then kbSPN b else ''ldap/'' @ kbHost b)"

definition tokenForCertificate :: "digests \<Rightarrow> x509_certificate option \<Rightarrow> bytes option" where
  "tokenForCertificate dg cert = map_option (channelBindingToken dg) cert"

text \<open>The state of a connection: \<open>None\<close> is \<open>ok = false\<close>.\<close>

definition peerCertificate :: "x509_certificate list option \<Rightarrow> x509_certificate option" where
  "peerCertificate state = (case state of Some (cert # _) \<Rightarrow> Some cert | _ \<Rightarrow> None)"

definition apOptions :: "('o, 'k, 'w) krb_lib \<Rightarrow> int list" where
  "apOptions kl = [APOptionMutualRequired kl]"

definition annotateTicketError :: "(ad_error \<Rightarrow> string) \<Rightarrow> go_error option \<Rightarrow> go_error option" where
  "annotateTicketError ad_text err =
     (case err of
        None \<Rightarrow> None
      | Some e \<Rightarrow>
          let msg = error_text ad_text e in
          Some (if Contains msg ''TGT not found in CCache''
                then ErrWrapEnd e ''the credential cache holds no ticket-granting ticket; run kinit again''
                else if Contains msg ''KDC_ERR_PREAUTH_FAILED''
                then ErrRejected (ErrWrapEnd e (''the KDC rejected the credential; the password is wrong, or the '' @
                       ''account is disabled or locked out''))
                else if Contains msg ''KDC_ERR_C_PRINCIPAL_UNKNOWN''
                then ErrRejected (ErrWrapEnd e (''the KDC does not know that principal; check both the username and '' @
                       ''the realm '' @ em_dash @ '' when Kerberos.Realm is unset it is derived from Config.Server's domain '' @
                       ''suffix, uppercased''))
                else if Contains msg ''KDC_ERR_CLIENT_REVOKED''
                then ErrRejected (ErrWrapEnd e ''the account is disabled, locked out or expired'')
                else if Contains msg ''expired'' \<or> Contains msg ''Ticket expired''
                then ErrWrapEnd e (''the Kerberos ticket has expired; run kinit again '' @
                       ''(AD's default ticket lifetime is 10 hours and it is not renewed automatically)'')
                else e))"

text \<open>
  \<open>gssapiBind\<close> is the library's \<open>GSSAPIBindRequestWithAPOptions\<close>: it runs the exchange with the client it
  is given.
\<close>

definition kerberos_Bind ::
  "(ad_error \<Rightarrow> string) \<Rightarrow> 'w ldap_lib \<Rightarrow> ('o, 'k, 'w) krb_lib \<Rightarrow> digests \<Rightarrow> (string \<Rightarrow> string) \<Rightarrow>
     (nat \<Rightarrow> ('o, 'k) gss_client \<Rightarrow> string \<Rightarrow> int list \<Rightarrow> 'w \<Rightarrow> go_error option \<times> 'w) \<Rightarrow>
     kerberos_binder \<Rightarrow> 'w conn \<Rightarrow> 'w \<Rightarrow> go_error option \<times> 'w" where
  "kerberos_Bind ad_text lib kl dg getenv gssapiBind b c w =
     (case cLdap c of
        None \<Rightarrow> (Some (errWrongConn ''KerberosBinder''), w)
      | Some l \<Rightarrow>
          (case peerCertificate (lTLSState lib l w) of
             None \<Rightarrow>
               (Some (ErrMsg (''adldap: no TLS state on this connection; TLS is mandatory in this '' @
                  ''package, and binding without a channel-binding token would be a silent downgrade'')), w)
           | Some cert \<Rightarrow>
               (case newTicketSource kl getenv
                   \<lparr>tsCCachePath = kbCCachePath b, tsKeytab = kbKeytab b, tsPassword = kbPassword b,
                    tsUsername = kbUsername b, tsRealm = kbRealm b, tsKrb5ConfPath = kbKrb5ConfPath b,
                    tsKDC = kbHost b\<rparr> of
                  Inl err \<Rightarrow> (annotateTicketError ad_text (Some err), w)
                | Inr src \<Rightarrow>
                    (let client = newGSSClient kl src (tokenForCertificate dg (Some cert)) in
                     case gssapiBind l client (spn b) (apOptions kl) w of
                       (err, w) \<Rightarrow> (annotateTicketError ad_text (toRawError ad_text err), gss_Close kl client w)))))"

section \<open>The checksum\<close>

text \<open>The context flags as one word.\<close>

definition flag_bits :: "int list \<Rightarrow> u32" where
  "flag_bits fs = foldl (\<lambda>f flag. f OR word_of_int flag) 0 fs"

lemma checksum_flags_no_deleg:
  "ContextFlagDeleg kl \<notin> set fs \<Longrightarrow>
     checksum_flags kl fs b f = Inr (b, foldl (\<lambda>f flag. f OR word_of_int flag) f fs)"
  by (induction fs arbitrary: f) auto

lemma checksum_flags_deleg:
  "ContextFlagDeleg kl \<in> set fs \<Longrightarrow> length b \<in> {24, 28} \<Longrightarrow>
     checksum_flags kl fs b f = Inr (b @ replicate (28 - length b) 0, foldl (\<lambda>f flag. f OR word_of_int flag) f fs)"
proof (induction fs arbitrary: b f)
  case (Cons x fs)
  have "checksum_flags kl fs c g = Inr (c, foldl (\<lambda>f flag. f OR word_of_int flag) g fs)" if "length c = 28" for c g
    using Cons.IH [of c g] checksum_flags_no_deleg [of kl fs c g] that by (cases "ContextFlagDeleg kl \<in> set fs") auto
  with Cons show ?case by auto
qed simp

lemma checksum_buffer:
  assumes "length v = 16"
  shows "put_at 4 v (put_at 0 (le32 16) (replicate 24 0)) = le32 16 @ v @ [0, 0, 0, 0]"
  using assms by (simp add: put_at_def le32_def numeral_eq_Suc)

lemma authenticatorChecksum_layout:
  assumes "length v = 16"
  shows "authenticatorChecksum kl fs (Some v) = Inr (le32 16 @ v @ le32 (flag_bits fs) @
    (if ContextFlagDeleg kl \<in> set fs then [0, 0, 0, 0] else []))"
proof -
  let ?b = "le32 16 @ v @ [0, 0, 0, 0]"
  have b: "length ?b = 24" using assms by simp
  have p: "put_at 20 (le32 f) (?b @ c) = le32 16 @ v @ le32 f @ c" for f c
    using assms by (simp add: put_at_def le32_def)
  show ?thesis
  proof (cases "ContextFlagDeleg kl \<in> set fs")
    case True
    from checksum_flags_deleg [OF True, of ?b 0] b have "checksum_flags kl fs ?b 0 = Inr (?b @ [0, 0, 0, 0], flag_bits fs)"
      by (simp add: flag_bits_def numeral_eq_Suc)
    with True show ?thesis
      using assms p [of "flag_bits fs" "[0, 0, 0, 0]"]
      by (simp add: authenticatorChecksum_def channelBindingLen_def checksum_buffer)
  next
    case False
    from checksum_flags_no_deleg [OF False, of ?b 0] have "checksum_flags kl fs ?b 0 = Inr (?b, flag_bits fs)"
      by (simp add: flag_bits_def)
    with False show ?thesis
      using assms p [of "flag_bits fs" "[]"]
      by (simp add: authenticatorChecksum_def channelBindingLen_def checksum_buffer)
  qed
qed


section \<open>The wrap token\<close>

lemma unmarshalWrapToken_ok:
  assumes "HdrLen kl = 16" "unmarshalWrapToken kl b want = Inr t"
  shows "b = slice 0 16 b @ wtCheckSum t @ wtPayload t \<and> length (wtCheckSum t) = unat (wtEC t) \<and>
    16 \<le> length b \<and> wtFlags t = b ! 2 \<and> (wtFlags t AND 1 = 1 \<longleftrightarrow> want) \<and> take 2 b = getGssWrapTokenId"
  using assms
  by (auto simp: unmarshalWrapToken_def Let_def go_slice_def slice_def split: if_split_asm
      simp flip: append_assoc take_add)

lemma checksum_fits: "int n - 16 < uint (x :: 16 word) \<longleftrightarrow> n < 16 + unat x"
proof -
  have "int (unat x) = uint x" by simp
  then show ?thesis by linarith
qed

lemma unmarshalWrapToken_no_panic:
  assumes "HdrLen kl = 16" shows "unmarshalWrapToken kl b want \<noteq> Inl (GoPanic m)"
  using assms by (auto simp: unmarshalWrapToken_def Let_def go_slice_def bind_res_eq_Inl checksum_fits)



section \<open>Sample libraries\<close>

definition sample_ldap :: "nat ldap_lib" where
  "sample_ldap =
     \<lparr>lDialURL = (\<lambda>url t cfg w. (Inr 0, w)), lStartTLS = (\<lambda>l cfg w. (None, w)), lSetTimeout = (\<lambda>l t w. w),
      lTLSState = (\<lambda>l w. Some [\<lparr>certRaw = [1], certSignatureAlgorithm = ''SHA256WithRSA''\<rparr>]),
      lBind = (\<lambda>l u pw w. (None, w)), lNTLMBind = (\<lambda>l d u pw w. (None, w)),
      lSearch = (\<lambda>l req w. (Inr \<lparr>lrEntries = [], lrControls = []\<rparr>, w)),
      lSearchWithPaging = (\<lambda>l req n w. (Inr \<lparr>lrEntries = [], lrControls = []\<rparr>, w)),
      lAdd = (\<lambda>l dn as w. (None, w)), lModify = (\<lambda>l dn ch cs w. (None, w)),
      lModifyDN = (\<lambda>l dn r del sup w. (None, w)), lDel = (\<lambda>l dn w. (None, w)), lClose = (\<lambda>l w. (None, w))\<rparr>"

definition sample_krb :: "(nat, nat, nat) krb_lib" where
  "sample_krb =
     \<lparr>kStat = (\<lambda>_. None), kConfigLoad = (\<lambda>_. Inr 0), kConfigNewFromString = (\<lambda>_. Inr 0),
      kKeytabLoad = (\<lambda>_. Inr 1), kNewWithKeytab = (\<lambda>u r kt cfg. 2), kNewWithPassword = (\<lambda>u r pw cfg. 3),
      kLoadCCache = (\<lambda>_. Inr 4), kNewFromCCache = (\<lambda>cc cfg. Inr 5), kDestroy = (\<lambda>src w. w + 1),
      kServiceTicket = (\<lambda>src spn w. (Inr (6, 7), w)), kNewTokenAPREQ = (\<lambda>src t k fs opts. Inr 8),
      kNewAuthenticator = (\<lambda>src. Inr 9), kNewAPReq = (\<lambda>t k auth ck. Inr 10), kSetFlag = (\<lambda>req flag. req),
      kSetAPReq = (\<lambda>tok req. tok), kMarshalToken = (\<lambda>tok. Inr []), kUnmarshalToken = (\<lambda>b. Inr (TokAPRep 11)),
      kDecryptAPRep = (\<lambda>enc k. Inr []), kAPRepSubkey = (\<lambda>part. Inr 12), kVerify = (\<lambda>tok k. None),
      kHMACBitLength = (\<lambda>k. Inr 96), kSetCheckSum = (\<lambda>tok k. Inr tok), kMarshalWrap = (\<lambda>tok. Inr (wtPayload tok)),
      kZeroKey = 0, ContextFlagDeleg = 1, ContextFlagMutual = 2, ContextFlagInteg = 32, ContextFlagConf = 16,
      APOptionMutualRequired = 2, FillerByte = 0xFF, HdrLen = 16\<rparr>"

definition sample_digests :: digests where
  "sample_digests = \<lparr>digest = (\<lambda>h b. b), md5 = (\<lambda>b. replicate 16 7)\<rparr>"

definition sample_kerberos :: kerberos_binder where
  "sample_kerberos =
     \<lparr>kbCCachePath = [], kbKeytab = ''/etc/krb5.keytab'', kbPassword = [], kbUsername = ''svc'', kbRealm = ''CORP'',
      kbKrb5ConfPath = [], kbSPN = [], kbHost = ''dc01''\<rparr>"


definition sample_token :: bytes where
  "sample_token = [0x05, 0x04, 0x01, 0xFF, 0, 0, 0, 0, 0, 0, 0, 0, 0, 0, 0, 0, 7, 0, 0, 0]"


end
