(* ===== verification/Config.thy ===== *)
theory Config
  imports Search Krb
begin

text \<open>
  The root package, files \<open>config.go\<close> and \<open>client.go\<close>: the configuration, what it takes to be valid, the
  diallers and binders it selects, and the construction of a client.

  A pointer field is an option.  \<open>host_env\<close> is what the program runs on: the LDAP and Kerberos
  libraries, the digests, the environment and the files.
\<close>

section \<open>Configuration\<close>

abbreviation TLSLDAPS :: string where "TLSLDAPS \<equiv> ''ldaps''"
abbreviation TLSStartTLS :: string where "TLSStartTLS \<equiv> ''starttls''"

definition DefaultPort :: "string \<Rightarrow> int" where
  "DefaultPort m = (if m = TLSStartTLS then 389 else 636)"

record simple_auth =
  saUsername :: string
  saPassword :: string

record kerberos_auth =
  kaCCachePath :: string
  kaKeytab :: string
  kaUsername :: string
  kaPassword :: string
  kaRealm :: string
  kaKrb5ConfPath :: string
  kaSPN :: string

record ntlm_auth =
  naDomain :: string
  naUsername :: string
  naPassword :: string

record config =
  cfServer :: string
  cfPort :: int
  cfTLS :: string
  cfCACertificateFile :: string
  cfInsecureSkipVerify :: bool
  cfTLSConfig :: "tls_config option"
  cfSimple :: "simple_auth option"
  cfKerberos :: "kerberos_auth option"
  cfNTLM :: "ntlm_auth option"
  cfMaxConcurrency :: int
  cfTimeout :: int
  cfReplication :: repl_config

definition constraint_err :: "string \<Rightarrow> go_error" where
  "constraint_err msg = ad_err KindConstraint ''New'' (ErrMsg (''adldap: '' @ msg))"

text \<open>How many of the flags are set: the counting loops.\<close>

definition count_set :: "bool list \<Rightarrow> nat" where
  "count_set flags = foldl (\<lambda>n set. if set then n + 1 else n) 0 flags"

definition kerberos_Validate :: "'id adcore \<Rightarrow> kerberos_auth \<Rightarrow> go_error option" where
  "kerberos_Validate a k =
     (if 1 < count_set [kaCCachePath k \<noteq> [], kaKeytab k \<noteq> [], \<not> SecretIsZero a (kaPassword k)]
      then Some (constraint_err (''at most one of Kerberos.CCachePath, Kerberos.Keytab or '' @
             ''Kerberos.Password may be set; with none set the ambient KRB5CCNAME applies. '' @
             ''Choosing between two silently would authenticate as an identity nobody picked''))
      else if \<not> SecretIsZero a (kaPassword k) \<and> kaUsername k = []
      then Some (constraint_err ''Kerberos.Password requires Kerberos.Username'')
      else if kaKeytab k \<noteq> [] \<and> kaUsername k = []
      then Some (constraint_err ''Kerberos.Keytab requires Kerberos.Username'')
      else None)"

definition Validate :: "'id adcore \<Rightarrow> config \<Rightarrow> go_error option" where
  "Validate a c =
     (let n = count_set [cfSimple c \<noteq> None, cfKerberos c \<noteq> None, cfNTLM c \<noteq> None] in
      if cfServer c = []
      then Some (constraint_err (''Config.Server is required; there is no discovery, because '' @
             ''a pinned DC is an invariant''))
      else if cfTLS c \<noteq> TLSLDAPS \<and> cfTLS c \<noteq> TLSStartTLS
      then Some (constraint_err
             (if cfTLS c = []
              then ''Config.TLS is required: '' @ quote ''ldaps'' @ '' or '' @ quote ''starttls'' @
                     ''. Plain LDAP is not offered''
              else ''Config.TLS must be '' @ quote ''ldaps'' @ '' or '' @ quote ''starttls''))
      else if n = 0
      then Some (constraint_err (''exactly one of Simple, Kerberos or NTLM is required; there is no default, '' @
             ''because guessing would authenticate as the wrong identity''))
      else if n \<noteq> 1 then Some (constraint_err ''exactly one of Simple, Kerberos or NTLM may be set'')
      else if (case cfSimple c of Some s \<Rightarrow> saUsername s = [] | None \<Rightarrow> False)
      then Some (constraint_err ''Simple.Username is required'')
      else if (case cfNTLM c of Some s \<Rightarrow> naUsername s = [] | None \<Rightarrow> False)
      then Some (constraint_err ''NTLM.Username is required'')
      else case cfKerberos c of Some k \<Rightarrow> kerberos_Validate a k | None \<Rightarrow> None)"

section \<open>Binders\<close>

record ('o, 'k, 'w) host_env =
  hLdap :: "'w ldap_lib"
  hKrb :: "('o, 'k, 'w) krb_lib"
  hDigests :: digests
  hGetenv :: "string \<Rightarrow> string"
  hFiles :: host_files
  hGSSAPIBind :: "nat \<Rightarrow> ('o, 'k) gss_client \<Rightarrow> string \<Rightarrow> int list \<Rightarrow> 'w \<Rightarrow> go_error option \<times> 'w"
  hAdText :: "ad_error \<Rightarrow> string"

datatype auth_binder = SimpleBinder simple_binder | KerberosBinder kerberos_binder | NTLMBinder ntlm_binder | noBinder

fun Describe :: "auth_binder \<Rightarrow> string" where
  "Describe (SimpleBinder b) = simple_Describe b"
| "Describe (KerberosBinder b) = kerberos_Describe b"
| "Describe (NTLMBinder b) = ntlm_Describe b"
| "Describe noBinder = ''pre-bound connection''"

fun Bind :: "('o, 'k, 'w) host_env \<Rightarrow> auth_binder \<Rightarrow> 'w conn \<Rightarrow> 'w \<Rightarrow> go_error option \<times> 'w" where
  "Bind h (SimpleBinder b) c w = simple_Bind (hAdText h) (hLdap h) b c w"
| "Bind h (KerberosBinder b) c w =
     kerberos_Bind (hAdText h) (hLdap h) (hKrb h) (hDigests h) (hGetenv h) (hGSSAPIBind h) b c w"
| "Bind h (NTLMBinder b) c w = ntlm_Bind (hAdText h) (hLdap h) b c w"
| "Bind h noBinder c w = (None, w)"

definition binderForHost :: "'id adcore \<Rightarrow> config \<Rightarrow> string \<Rightarrow> auth_binder res" where
  "binderForHost a c host =
     (case cfSimple c of
        Some s \<Rightarrow> Inr (SimpleBinder \<lparr>sbUsername = saUsername s, sbPassword = RevealSecret a (saPassword s)\<rparr>)
      | None \<Rightarrow>
     (case cfKerberos c of
        Some k \<Rightarrow>
          Inr (KerberosBinder
            \<lparr>kbCCachePath = kaCCachePath k, kbKeytab = kaKeytab k, kbPassword = RevealSecret a (kaPassword k),
             kbUsername = kaUsername k,
             kbRealm = (if kaRealm k = [] then RealmFromServer (cfServer c) else kaRealm k),
             kbKrb5ConfPath = kaKrb5ConfPath k, kbSPN = kaSPN k, kbHost = host\<rparr>)
      | None \<Rightarrow>
     (case cfNTLM c of
        Some n \<Rightarrow>
          Inr (NTLMBinder \<lparr>nbDomain = naDomain n, nbUsername = naUsername n, nbPassword = RevealSecret a (naPassword n)\<rparr>)
      | None \<Rightarrow> Inl (constraint_err ''no auth block; Validate should have caught this''))))"

definition config_binder :: "'id adcore \<Rightarrow> config \<Rightarrow> auth_binder res" where
  "config_binder a c = binderForHost a c (cfServer c)"

section \<open>Diallers\<close>

definition defaultTimeout :: int where "defaultTimeout = 60 * 1000000000"

definition dial_port :: "config \<Rightarrow> int" where
  "dial_port cfg = (if cfPort cfg = 0 then DefaultPort (cfTLS cfg) else cfPort cfg)"

definition dial_timeout :: "config \<Rightarrow> int" where
  "dial_timeout cfg = (if cfTimeout cfg = 0 then defaultTimeout else cfTimeout cfg)"

definition dial_options_of :: "config \<Rightarrow> string \<Rightarrow> tls_config \<Rightarrow> dial_options" where
  "dial_options_of cfg host tlsCfg =
     \<lparr>doHost = host, doPort = dial_port cfg, doStartTLS = (cfTLS cfg = TLSStartTLS), doTLSConfig = tlsCfg,
      doTimeout = dial_timeout cfg\<rparr>"

definition dialer ::
  "('o, 'k, 'w) host_env \<Rightarrow> 'id adcore \<Rightarrow> config \<Rightarrow> (('w \<Rightarrow> 'w conn res \<times> 'w) \<times> auth_binder) res" where
  "dialer h a cfg =
     (case (case cfTLSConfig cfg of
              Some t \<Rightarrow> Inr t
            | None \<Rightarrow> BuildTLSConfig (hFiles h) (cfServer cfg) (cfCACertificateFile cfg) (cfInsecureSkipVerify cfg)) of
        Inl err \<Rightarrow> Inl (ad_err KindConstraint ''New'' err)
      | Inr tlsCfg \<Rightarrow>
          bind_res (config_binder a cfg) (\<lambda>b.
            Inr (Dial (hAdText h) (hLdap h) (dial_options_of cfg (cfServer cfg) tlsCfg), b)))"

definition otherDialer ::
  "('o, 'k, 'w) host_env \<Rightarrow> 'id adcore \<Rightarrow> config \<Rightarrow> string \<Rightarrow> 'w \<Rightarrow> 'w conn res \<times> 'w" where
  "otherDialer h a cfg host w =
     (case (case cfTLSConfig cfg of
              Some t \<Rightarrow> Inr (t\<lparr>ServerName := host\<rparr>)
            | None \<Rightarrow> BuildTLSConfig (hFiles h) host (cfCACertificateFile cfg) (cfInsecureSkipVerify cfg)) of
        Inl err \<Rightarrow> (Inl err, w)
      | Inr tlsCfg \<Rightarrow>
          (case binderForHost a cfg host of
             Inl err \<Rightarrow> (Inl err, w)
           | Inr b \<Rightarrow>
               (case Dial (hAdText h) (hLdap h) (dial_options_of cfg host tlsCfg) w of
                  (Inl err, w) \<Rightarrow> (Inl err, w)
                | (Inr cn, w) \<Rightarrow>
                    (case Bind h b cn w of
                       (Some err, w) \<Rightarrow> (Inl err, snd (cClose cn w))
                     | (None, w) \<Rightarrow> (Inr cn, w)))))"

section \<open>The client\<close>

text \<open>
  A client is its core and its pool.  What \<open>newClient\<close> does not take from the configuration is the argument
  \<open>base\<close>: the context, the clock, the table of codes and the retry policy \<open>cfg.Retry.WithDefaults()\<close>.
\<close>

definition rootdse_request :: search_request where
  "rootdse_request =
     \<lparr>BaseDN = [], Scope = ScopeBase, Filter = ''(objectClass=*)'',
      Attributes = [''defaultNamingContext'', ''dnsHostName'', ''schemaNamingContext'', ''configurationNamingContext''],
      SizeLimit = 0, Controls = []\<rparr>"

definition read_rootdse :: "'w conn \<Rightarrow> 'w \<Rightarrow> (string \<times> string \<times> string) res \<times> 'w" where
  "read_rootdse cn w =
     (case cSearch cn rootdse_request w of
        (Inl e, w) \<Rightarrow> (Inl e, w)
      | (Inr res, w) \<Rightarrow>
          (case Entries res of
             [] \<Rightarrow> (Inl (ErrMsg ''the rootDSE returned no entry''), w)
           | e # _ \<Rightarrow>
               (Inr (FirstString e ''defaultNamingContext'', FirstString e ''schemaNamingContext'',
                     FirstString e ''configurationNamingContext''), w)))"

definition client_core ::
  "('w, 'id) core \<Rightarrow> config \<Rightarrow> ('w \<Rightarrow> 'w conn res \<times> 'w) \<Rightarrow> ('w conn \<Rightarrow> 'w \<Rightarrow> go_error option \<times> 'w) \<Rightarrow>
     (string \<Rightarrow> 'w \<Rightarrow> 'w conn res \<times> 'w) \<Rightarrow> ('w, 'id) core" where
  "client_core base cfg dial bind other =
     base\<lparr>exec := (exec base)\<lparr>poolOpts := (poolOpts (exec base))\<lparr>oDial := dial, oBind := bind, oClose := cClose\<rparr>\<rparr>,
          dialOther := other, server := cfServer cfg, repl := cfReplication cfg, dnc := [], schemaNC := [],
          configNC := []\<rparr>"

definition newClient ::
  "('w, 'id) core \<Rightarrow> config \<Rightarrow> ('w \<Rightarrow> 'w conn res \<times> 'w) \<Rightarrow> ('w conn \<Rightarrow> 'w \<Rightarrow> go_error option \<times> 'w) \<Rightarrow>
     (string \<Rightarrow> 'w \<Rightarrow> 'w conn res \<times> 'w) \<Rightarrow> 'w \<Rightarrow> (('w, 'id) core res \<times> 'w conn pool \<times> 'w) option" where
  "newClient base cfg dial bind other w =
     (let c = client_core base cfg dial bind other; p = NewPool (cfMaxConcurrency cfg) in
      case run c ''New'' ([], [], []) read_rootdse p w of
        None \<Rightarrow> None
      | Some (Inl err, p, w) \<Rightarrow>
          (case Close_pool (poolOpts (exec c)) p w of (_, p, w) \<Rightarrow> Some (Inl err, p, w))
      | Some (Inr (d, s, k), p, w) \<Rightarrow>
          if d = []
          then (case Close_pool (poolOpts (exec c)) p w of
              (_, p, w) \<Rightarrow> Some (Inl (ad_err KindTransport ''New''
                (ErrMsg ''adldap: the rootDSE returned no defaultNamingContext'')), p, w))
          else Some (Inr (c\<lparr>dnc := d, schemaNC := s, configNC := k\<rparr>), p, w))"

definition New ::
  "('o, 'k, 'w) host_env \<Rightarrow> ('w, 'id) core \<Rightarrow> config \<Rightarrow> 'w \<Rightarrow>
     (('w, 'id) core res \<times> 'w conn pool \<times> 'w) option" where
  "New h base cfg w =
     (case Validate (ad base) cfg of
        Some err \<Rightarrow> Some (Inl err, NewPool 0, w)
      | None \<Rightarrow>
          (case dialer h (ad base) cfg of
             Inl err \<Rightarrow> Some (Inl err, NewPool 0, w)
           | Inr (dial, b) \<Rightarrow> newClient base cfg dial (Bind h b) (otherDialer h (ad base) cfg) w))"

definition NewWithConn ::
  "('o, 'k, 'w) host_env \<Rightarrow> ('w, 'id) core \<Rightarrow> config \<Rightarrow> ('w \<Rightarrow> 'w conn res \<times> 'w) \<Rightarrow> 'w \<Rightarrow>
     (('w, 'id) core res \<times> 'w conn pool \<times> 'w) option" where
  "NewWithConn h base cfg dial w =
     (case Validate (ad base) cfg of
        Some err \<Rightarrow> Some (Inl err, NewPool 0, w)
      | None \<Rightarrow> newClient base cfg dial (Bind h noBinder) (\<lambda>_. dial) w)"

definition Server :: "('w, 'id) core \<Rightarrow> string" where "Server c = server c"

definition DefaultNamingContext :: "('w, 'id) core \<Rightarrow> string" where "DefaultNamingContext c = dnc c"

definition Close_client :: "('w, 'id) core \<Rightarrow> 'w conn pool \<Rightarrow> 'w \<Rightarrow> go_error option \<times> 'w conn pool \<times> 'w" where
  "Close_client c p w = Close_pool (poolOpts (exec c)) p w"

section \<open>What a configuration selects\<close>

lemma count_set_simps [simp]: "count_set (b # bs) = (if b then 1 else 0) + count_set bs" "count_set [] = 0"
proof -
  have "foldl (\<lambda>n set. if set then n + 1 else n) k bs = k + count_set bs" for k :: nat and bs
    unfolding count_set_def
  proof (induction bs arbitrary: k)
    case (Cons b bs)
    show ?case using Cons.IH [of "k + 1"] Cons.IH [of k] Cons.IH [of 1] Cons.IH [of 0]
      by (cases b) (simp_all)
  qed simp
  from this [of "if b then 1 else 0" bs] show "count_set (b # bs) = (if b then 1 else 0) + count_set bs"
    by (cases b) (simp_all add: count_set_def)
  show "count_set [] = 0" by (simp add: count_set_def)
qed

text \<open>The credentials a valid configuration may name.\<close>

definition kerberos_sources :: "'id adcore \<Rightarrow> kerberos_auth \<Rightarrow> bool" where
  "kerberos_sources a k \<longleftrightarrow>
     (kaCCachePath k = [] \<or> kaKeytab k = []) \<and> (kaCCachePath k = [] \<or> SecretIsZero a (kaPassword k)) \<and>
     (kaKeytab k = [] \<or> SecretIsZero a (kaPassword k)) \<and>
     (kaUsername k = [] \<longrightarrow> kaKeytab k = [] \<and> SecretIsZero a (kaPassword k))"

lemma if_Some_eq:
  "((if b then Some x else r) = None) = (\<not> b \<and> r = None)"
  "((if b then Some x else r) = Some y) = (b \<and> x = y \<or> \<not> b \<and> r = Some y)"
  by auto

lemma kerberos_Validate_None: "kerberos_Validate a k = None \<longleftrightarrow> kerberos_sources a k"
  unfolding kerberos_Validate_def if_Some_eq kerberos_sources_def by auto

definition one_auth :: "'id adcore \<Rightarrow> config \<Rightarrow> bool" where
  "one_auth a c \<longleftrightarrow>
     (case (cfSimple c, cfKerberos c, cfNTLM c) of
        (Some s, None, None) \<Rightarrow> saUsername s \<noteq> []
      | (None, Some k, None) \<Rightarrow> kerberos_sources a k
      | (None, None, Some n) \<Rightarrow> naUsername n \<noteq> []
      | _ \<Rightarrow> False)"

lemma Validate_None:
  "Validate a c = None \<longleftrightarrow> cfServer c \<noteq> [] \<and> cfTLS c \<in> {TLSLDAPS, TLSStartTLS} \<and> one_auth a c"
  unfolding Validate_def Let_def if_Some_eq one_auth_def
  by (cases "cfSimple c"; cases "cfKerberos c"; cases "cfNTLM c") (auto simp: kerberos_Validate_None)

lemma Validate_kind: "Validate a c = Some e \<Longrightarrow> has_kind KindConstraint e"
proof -
  have k: "has_kind KindConstraint (constraint_err m)" for m
    by (simp add: constraint_err_def ad_err_def has_kind_def)
  assume "Validate a c = Some e"
  then show ?thesis
    unfolding Validate_def kerberos_Validate_def Let_def if_Some_eq option.case_eq_if
    by (auto simp only: k if_Some_eq option.distinct split: if_split_asm)
qed

text \<open>
  C27. \<open>Validate\<close> accepts a configuration exactly if it names a server, one of the two protected modes, and
  one complete way to authenticate; and then the configured way is the one that every connection
  binds with.  A refusal is a \<open>KindConstraint\<close> error.
\<close>

theorem Validate_spec:
  "case Validate a c of
     None \<Rightarrow> cfServer c \<noteq> [] \<and> cfTLS c \<in> {TLSLDAPS, TLSStartTLS} \<and> one_auth a c \<and>
       (\<exists>b. binderForHost a c host = Inr b \<and>
          (case b of SimpleBinder s \<Rightarrow> cfSimple c \<noteq> None | KerberosBinder k \<Rightarrow> cfKerberos c \<noteq> None \<and> kbHost k = host
           | NTLMBinder n \<Rightarrow> cfNTLM c \<noteq> None | noBinder \<Rightarrow> False))
   | Some e \<Rightarrow> has_kind KindConstraint e \<and>
       \<not> (cfServer c \<noteq> [] \<and> cfTLS c \<in> {TLSLDAPS, TLSStartTLS} \<and> one_auth a c)"
proof (cases "Validate a c")
  case None
  then have v: "cfServer c \<noteq> [] \<and> cfTLS c \<in> {TLSLDAPS, TLSStartTLS} \<and> one_auth a c" by (simp add: Validate_None)
  then show ?thesis
    using None by (auto simp: one_auth_def binderForHost_def split: option.splits)
next
  case (Some e)
  then show ?thesis using Validate_None [of a c] Validate_kind [OF Some] by simp
qed

section \<open>Construction\<close>

lemma read_rootdse_L:
  assumes "\<And>req w. L (snd (cSearch cn req w)) = L w" "read_rootdse cn w = (r, w')"
  shows "L w' = L w"
  using assms(1) [of rootdse_request w] assms(2)
  by (cases "cSearch cn rootdse_request w") (auto simp: read_rootdse_def split: sum.split_asm list.split_asm)

lemma client_core_simps [simp]:
  "server (client_core base cfg dial bind other) = cfServer cfg"
  "oDial (poolOpts (exec (client_core base cfg dial bind other))) = dial"
  "oBind (poolOpts (exec (client_core base cfg dial bind other))) = bind"
  "oClose (poolOpts (exec (client_core base cfg dial bind other))) = cClose"
  "dialOther (client_core base cfg dial bind other) = other"
  "ad (client_core base cfg dial bind other) = ad base"
  by (simp_all add: client_core_def)

text \<open>
  C26. Building a client always returns.  If it fails, every connection it opened has been closed; if it
  succeeds, the connections it opened are the idle ones of its pool, the configured server is pinned
  and the naming context is known.
\<close>

theorem newClient_no_leak:
  fixes w :: 'w
  assumes "ledger L G (exec (client_core base cfg dial bind other))"
    and "\<And>cn req w. G cn \<Longrightarrow> L (snd (cSearch cn req w)) = L w"
  shows "\<exists>r p' w'. newClient base cfg dial bind other w = Some (r, p', w') \<and> sem p' = 0 \<and>
    (case r of
       Inl e \<Rightarrow> L w' = L w \<and> idle p' = []
     | Inr c \<Rightarrow> L w' = L w + int (length (idle p')) \<and> server c = cfServer cfg \<and> dnc c \<noteq> [])"
proof -
  let ?c = "client_core base cfg dial bind other" and ?p = "NewPool (cfMaxConcurrency cfg) :: 'w conn pool"
  have p: "sem ?p = 0" "sem ?p < Size ?p" "idle ?p = []" by (simp_all add: NewPool_def)
  obtain r p1 w1 where eq: "withConn_loop (exec ?c) ''New'' ([], [], []) read_rootdse None 1
      (nat (maxAttempts (exec ?c))) ?p w = Some (r, p1, w1)"
    using withConn_loop_returns [OF p(2), of "exec ?c" "''New''" "([], [], [])" read_rootdse None 1
      "nat (maxAttempts (exec ?c))" w] by auto
  have fn: "L w' = L w" if "G cn" "read_rootdse cn w = (r, w')" for cn w r w'
    using read_rootdse_L [of L cn] assms(2) that by blast
  have "list_all G (idle p1) \<and> balance L p1 w1 = balance L ?p w"
    using withConn_loop_ledger [OF assms(1) _ eq] fn p by auto
  with p have b: "list_all G (idle p1)" "L w1 = L w + int (length (idle p1))" by auto
  from withConn_loop_slots [OF eq] p have s: "sem p1 = 0" by simp
  obtain e p2 w2 where cl: "Close_pool (poolOpts (exec ?c)) p1 w1 = (e, p2, w2)"
    by (cases "Close_pool (poolOpts (exec ?c)) p1 w1") auto
  from ledger_Close [OF assms(1) b(1) cl] b(2) s have k: "L w2 = L w" "idle p2 = []" "sem p2 = 0" by auto
  show ?thesis
    using b s k eq cl by (cases r) (auto simp: newClient_def Let_def run_def withConn_def)
qed

text \<open>A connection that counts itself, whose rootDSE names the naming context \<open>d\<close>.\<close>

definition counted_conn :: "string \<Rightarrow> int conn" where
  "counted_conn d =
     \<lparr>cSearch = (\<lambda>req w. (Inr \<lparr>Entries = [\<lparr>DN = [], Attrs = [(''defaultNamingContext'', [bytes_of d])]\<rparr>],
                            RespControls = []\<rparr>, w)),
      cAdd = (\<lambda>dn as w. (None, w)), cModify = (\<lambda>dn ms cs w. (None, w)),
      cModifyDN = (\<lambda>dn r del sup w. (None, w)), cDelete = (\<lambda>dn w. (None, w)),
      cClose = (\<lambda>w. (None, w - 1)), cLdap = None\<rparr>"

definition sample_config :: config where
  "sample_config =
     \<lparr>cfServer = ''dc01.corp'', cfPort = 0, cfTLS = TLSLDAPS, cfCACertificateFile = [],
      cfInsecureSkipVerify = False, cfTLSConfig = None, cfSimple = Some \<lparr>saUsername = ''u'', saPassword = ''p''\<rparr>,
      cfKerberos = None, cfNTLM = None, cfMaxConcurrency = 0, cfTimeout = 0,
      cfReplication = \<lparr>rWait = False, rTargets = [], rForceSync = False, rTimeout = 0, rPollInterval = 0\<rparr>\<rparr>"


theorem newClient_no_leak_witness:
  "\<exists>r p'. newClient (client_of (counted_conn [])) sample_config (\<lambda>w. (Inr (counted_conn []), w + 1))
       (\<lambda>c w. (None, w)) (\<lambda>h w. (Inl ErrCanceled, w)) 0 = Some (r, p', 0) \<and> idle p' = [] \<and> isl r"
proof -
  let ?new = "newClient (client_of (counted_conn [])) sample_config (\<lambda>w. (Inr (counted_conn []), w + 1))
       (\<lambda>c w. (None, w)) (\<lambda>h w. (Inl ErrCanceled, w)) 0"
  have led: "ledger id (\<lambda>c. c = counted_conn []) (exec (client_core (client_of (counted_conn [])) sample_config
      (\<lambda>w. (Inr (counted_conn []), w + 1)) (\<lambda>c w. (None, w)) (\<lambda>h w. (Inl ErrCanceled, w))))"
    by (simp add: ledger_def client_core_def client_of_def counted_conn_def)
  have srch: "id (snd (cSearch cn req w)) = id w" if "cn = counted_conn []" for cn req w
    using that by (simp add: counted_conn_def)
  note n = newClient_no_leak [OF led srch, where w = 0]
  have "\<exists>e p w. ?new = Some (Inl e, p, w)"
    by (simp add: newClient_def Let_def run_def withConn_def client_core_def client_of_def Acquire_def
        acquire_slot_def NewPool_def sample_config_def read_rootdse_def counted_conn_def FirstString_def
        First_def Release_def Close_pool_def str_of_def bytes_of_def)
  with n show ?thesis by fastforce
qed

end
