(* ===== verification/Protection.thy ===== *)
theory Protection
  imports Ou Memory
begin

text \<open>
  Deletion protection, from the handler to the stored descriptor: \<open>setProtection\<close> of \<open>ou.go\<close> over any
  store that answers a read with the descriptor it holds and a write with the one it is given, and
  over the in-memory directory.
\<close>

section \<open>The contract of a descriptor store\<close>

text \<open>
  \<open>sd_of w dn\<close> is the descriptor of the object \<open>dn\<close>, if there is one that can be read; \<open>same\<close> says
  that two DNs name one object.
\<close>

locale descriptor_store =
  fixes cn :: "'w conn"
    and sd_of :: "'w \<Rightarrow> string \<Rightarrow> bytes option"
    and same :: "string \<Rightarrow> string \<Rightarrow> bool"
  assumes read_law: "sd_of w dn = Some b \<Longrightarrow> read_sd dn cn w = (Inr b, w)"
    and write_law: "sd_of w dn = Some b \<Longrightarrow>
      \<exists>w'. cModify cn dn [\<lparr>mOp = ModReplace, mType = ''nTSecurityDescriptor'', mVals = [v]\<rparr>] [sdDACL] w =
          (None, w') \<and> sd_of w' dn = Some v \<and> (\<forall>dn'. \<not> same dn dn' \<longrightarrow> sd_of w' dn' = sd_of w dn')"
begin

lemma run_write:
  assumes "quiet c cn" "open_pool cn p" "sd_of w dn = Some b"
  shows "\<exists>p' w'. run c op () (\<lambda>cn w. effect (cModify cn dn
        [\<lparr>mOp = ModReplace, mType = ''nTSecurityDescriptor'', mVals = [v]\<rparr>] [sdDACL] w)) p w = Some (Inr (), p', w') \<and>
    open_pool cn p' \<and> sd_of w' dn = Some v \<and> (\<forall>dn'. \<not> same dn dn' \<longrightarrow> sd_of w' dn' = sd_of w dn')"
proof -
  let ?fn = "\<lambda>cn w. effect (cModify cn dn [\<lparr>mOp = ModReplace, mType = ''nTSecurityDescriptor'', mVals = [v]\<rparr>] [sdDACL] w)"
  from write_law [OF assms(3), of v] obtain w' where w': "?fn cn w = (Inr (), w')" "sd_of w' dn = Some v"
    "\<forall>dn'. \<not> same dn dn' \<longrightarrow> sd_of w' dn' = sd_of w dn'"
    by (auto simp: effect_def)
  from run_quiet [where fn = ?fn and op = op and d = "()", OF assms(1,2) w'(1)] w'(2,3) show ?thesis by auto
qed

lemma set_protection:
  assumes q: "quiet c cn" "open_pool cn p"
    and sd: "sd_of w dn = Some b" "b \<noteq> []"
    and dacl: "parse b = Inr d" "aces (dacl d) = Inr l" "acl_size l + 20 < 65536"
  shows "\<exists>p' w' b'. setProtection c op dn want p w = Some (Inr (), p', w') \<and> open_pool cn p' \<and>
    sd_of w' dn = Some b' \<and> IsProtected b' = Inr want \<and> (IsProtected b = Inr want \<longrightarrow> w' = w) \<and>
    (\<forall>dn'. \<not> same dn dn' \<longrightarrow> sd_of w' dn' = sd_of w dn')"
proof -
  obtain out ok where s: "SetProtected b want = Inr (out, ok)" "IsProtected out = Inr want"
    "ok \<longleftrightarrow> IsProtected b \<noteq> Inr want" "\<not> ok \<longrightarrow> out = b"
    using set_protected_reaches [OF dacl] by blast
  from run_quiet [where fn = "read_sd dn" and op = op and d = "[]", OF q read_law [OF sd(1)]]
  obtain p1 where p1: "open_pool cn p1" "run c op [] (read_sd dn) p w = Some (Inr b, p1, w)" by auto
  show ?thesis
  proof (cases ok)
    case False
    with s p1 sd show ?thesis by (simp add: setProtection_def prog_simps)
  next
    case True
    from run_write [OF q(1) p1(1) sd(1), of op out] s p1 sd True show ?thesis
      by (auto simp: setProtection_def prog_simps)
  qed
qed

end

section \<open>The in-memory directory\<close>

text \<open>The descriptor of an entry that a search with the descriptor-flags control shows.\<close>

definition mem_sd_of :: "mem_server \<Rightarrow> string \<Rightarrow> bytes option" where
  "mem_sd_of m dn =
     (if mem_ok m \<and> dn \<noteq> [] then
        (case entry_of m dn of
           Some (k, attrs) \<Rightarrow>
             (if isTombstone attrs \<or> lookupFold attrs ''objectClass'' \<in> {None, Some []} then None
              else case lookupFold attrs ''nTSecurityDescriptor'' of Some [b] \<Rightarrow> Some b | _ \<Rightarrow> None)
         | None \<Rightarrow> None)
      else None)"

lemma project_single:
  assumes "attrs_ok attrs" "lookupFold attrs ''nTSecurityDescriptor'' = Some v"
  shows "\<exists>k. EqualFold k ''nTSecurityDescriptor'' \<and> project attrs [''nTSecurityDescriptor''] = [(k, v)]"
proof -
  obtain k where k: "(k, v) \<in> set attrs" "EqualFold k ''nTSecurityDescriptor''"
    using lookupFold_SomeD [OF assms(2)] by blast
  obtain xs ys where s: "attrs = xs @ (k, v) # ys" using k(1) by (meson split_list)
  have "\<not> EqualFold ''nTSecurityDescriptor'' (fst x)" if "x \<in> set xs \<or> x \<in> set ys" for x
    using assms(1) that k(2) by (auto simp: attrs_ok_def s EqualFold_def image_iff)
  moreover have "baseAttr ''nTSecurityDescriptor'' = ''nTSecurityDescriptor''"
    by (simp add: baseAttr_def HasPrefix_def)
  ultimately show ?thesis
    using k(2) by (intro exI [of _ k]) (auto simp: project_def s filter_empty_conv EqualFold_def)
qed

lemma mem_sd_ofD:
  assumes "mem_sd_of m dn = Some b"
  obtains k attrs vs where "mem_ok m" "dn \<noteq> []" "entry_of m dn = Some (k, attrs)" "attrs_ok attrs"
    "\<not> isTombstone attrs" "lookupFold attrs ''objectClass'' = Some vs" "vs \<noteq> []"
    "lookupFold attrs ''nTSecurityDescriptor'' = Some [b]"
proof -
  from assms obtain k attrs where e: "mem_ok m" "dn \<noteq> []" "entry_of m dn = Some (k, attrs)"
    by (auto simp: mem_sd_of_def split: if_split_asm option.split_asm)
  then have "attrs_ok attrs" using entry_of_Some [OF e(3)] by (auto simp: mem_ok_def attrs_ok_def)
  moreover from assms e obtain vs where "\<not> isTombstone attrs" "lookupFold attrs ''objectClass'' = Some vs" "vs \<noteq> []"
    "lookupFold attrs ''nTSecurityDescriptor'' = Some [b]"
    by (auto simp: mem_sd_of_def split: if_split_asm option.split_asm list.split_asm)
  ultimately show thesis using that e by blast
qed

lemma rangePages_single: "rangePages [(k, [b])] ws limit = Inr [(k, [b])]"
proof -
  have "range_pages_loop [(k, [b])] n ws out = Inr out" if "0 < n" for n out
    using that by (induction ws) (auto simp: Let_def)
  then show ?thesis by (simp add: rangePages_def)
qed

lemma mem_read_sd:
  assumes "mem_sd_of m dn = Some b"
  shows "read_sd dn (memConn a) m = (Inr b, m)"
proof -
  from assms obtain k attrs vs where e: "mem_ok m" "dn \<noteq> []" "entry_of m dn = Some (k, attrs)" "attrs_ok attrs"
    "\<not> isTombstone attrs" "lookupFold attrs ''objectClass'' = Some vs" "vs \<noteq> []"
    "lookupFold attrs ''nTSecurityDescriptor'' = Some [b]"
    by (rule mem_sd_ofD)
  let ?req = "sd_request dn"
  have r: "BaseDN ?req = dn" "Scope ?req = ScopeBase" "Filter ?req = ''(objectClass=*)''"
    "Attributes ?req = [''nTSecurityDescriptor'']" "SizeLimit ?req = 1"
    by (simp_all add: sd_request_def)
  obtain k' where k': "EqualFold k' ''nTSecurityDescriptor''" "project attrs [''nTSecurityDescriptor''] = [(k', [b])]"
    using project_single [OF e(4,8)] by blast
  have "equalFoldDN k dn" using entry_of_Some [OF e(3)] by simp
  then have "mem_hits ?req (rangeLimit m) (entries m) = Inr [\<lparr>DN = k, Attrs = [(k', [b])]\<rparr>]"
    using mem_hits_base [of m ?req k attrs "rangeLimit m"] e
    by (simp add: r matchFilter_present k'(2) rangePages_single)
  then have "mem_Search ?req m = (Inr \<lparr>Entries = [\<lparr>DN = k, Attrs = [(k', [b])]\<rparr>], RespControls = []\<rparr>, m)"
    using e(2) by (simp add: mem_Search_def r)
  with First_single [OF k'(1)] show ?thesis by (simp add: read_sd_def)
qed

lemma isTombstone_cong:
  "lookupFold a ''isDeleted'' = lookupFold b ''isDeleted'' \<Longrightarrow> isTombstone a = isTombstone b"
  by (simp add: isTombstone_def)

lemma fold_names:
  "\<not> EqualFold ''objectClass'' ''nTSecurityDescriptor''" "\<not> EqualFold ''isDeleted'' ''nTSecurityDescriptor''"
  by (simp_all add: EqualFold_def ToLower_def)

lemma mem_write_sd:
  assumes "mem_sd_of m dn = Some b"
  shows "\<exists>m'. mem_Modify dn [\<lparr>mOp = ModReplace, mType = ''nTSecurityDescriptor'', mVals = [v]\<rparr>] cs m = (None, m') \<and>
    mem_sd_of m' dn = Some v \<and> (\<forall>dn'. \<not> equalFoldDN dn dn' \<longrightarrow> mem_sd_of m' dn' = mem_sd_of m dn')"
proof -
  from assms obtain k attrs vs where e: "mem_ok m" "dn \<noteq> []" "entry_of m dn = Some (k, attrs)" "attrs_ok attrs"
    "\<not> isTombstone attrs" "lookupFold attrs ''objectClass'' = Some vs" "vs \<noteq> []"
    "lookupFold attrs ''nTSecurityDescriptor'' = Some [b]"
    by (rule mem_sd_ofD)
  let ?mod = "\<lparr>mOp = ModReplace, mType = ''nTSecurityDescriptor'', mVals = [v]\<rparr>"
  let ?attrs = "apply_mod ?mod attrs"
  let ?m = "m\<lparr>entries := map_put k ?attrs (entries m)\<rparr>"
  from entry_of_Some [OF e(3)] have k: "(k, attrs) \<in> set (entries m)" "equalFoldDN k dn" by simp_all
  note rep = apply_replace [OF e(4), of "[v]" ?attrs "''nTSecurityDescriptor''", OF _ refl, simplified]
  note put = mem_ok_put [OF e(1) k(1) rep(1) refl]
  have mod: "mem_Modify dn [?mod] cs m = (None, ?m)" using mem_Modify_entry [OF e(1,3)] by simp
  have "isTombstone ?attrs = isTombstone attrs"
    by (rule isTombstone_cong) (simp add: rep(2) fold_names)
  then have "mem_sd_of ?m dn = Some v"
    using e put k(2) by (simp add: mem_sd_of_def rep(2) fold_names)
  moreover have "mem_sd_of ?m dn' = mem_sd_of m dn'" if "\<not> equalFoldDN dn dn'" for dn'
  proof -
    have "\<not> equalFoldDN k dn'" using that k(2) by (simp add: equalFoldDN_def EqualFold_def)
    with put e(1) show ?thesis by (simp add: mem_sd_of_def)
  qed
  ultimately show ?thesis using mod by blast
qed

interpretation mem_sd: descriptor_store "memConn a" mem_sd_of equalFoldDN
  by unfold_locales (simp_all add: mem_read_sd mem_write_sd)


section \<open>Properties\<close>

text \<open>
  C10. \<open>setProtection\<close> on the in-memory directory: for an object whose descriptor parses and has room for
  one more entry, the call succeeds, the stored descriptor afterwards reads as protected exactly when
  that was asked for, an object already in that state is not written, and no other object's
  descriptor changes.
\<close>

theorem setProtection_stored:
  assumes "quiet c (memConn a)" "open_pool (memConn a) p"
    and "mem_sd_of m dn = Some b" "b \<noteq> []"
    and "parse b = Inr d" "aces (dacl d) = Inr l" "acl_size l + 20 < 65536"
  shows "\<exists>p' m' b'. setProtection c op dn want p m = Some (Inr (), p', m') \<and>
    mem_sd_of m' dn = Some b' \<and> IsProtected b' = Inr want \<and> (IsProtected b = Inr want \<longrightarrow> m' = m) \<and>
    (\<forall>dn'. \<not> equalFoldDN dn dn' \<longrightarrow> mem_sd_of m' dn' = mem_sd_of m dn')"
  using mem_sd.set_protection [OF assms, of op want] by blast

definition one_ou :: mem_server where
  "one_ou =
     \<lparr>entries = [(''OU=a,DC=corp'', [(''objectClass'', [bytes_of ''organizationalUnit'']),
                    (''nTSecurityDescriptor'', [serialize fresh])])],
      seq = 1, rangeLimit = 0\<rparr>"

lemma mem_sd_of_one_ou: "mem_sd_of one_ou ''OU=a,DC=corp'' = Some (serialize fresh)"
proof -
  have "mem_ok one_ou" using fold_names(1) by (simp add: mem_ok_def one_ou_def EqualFold_def)
  moreover have "equalFoldDN d d" for d by (simp add: equalFoldDN_def)
  moreover have "\<not> EqualFold ''objectClass'' ''isDeleted''" "\<not> EqualFold ''nTSecurityDescriptor'' ''isDeleted''"
    by (simp_all add: EqualFold_def ToLower_def)
  ultimately show ?thesis
    using fold_names by (simp add: mem_sd_of_def one_ou_def entry_of_def isTombstone_def lookupFold_def)
qed

theorem setProtection_stored_witness:
  "\<exists>p' m' b'. setProtection (client_of (memConn sample_ad)) ''OU.Create'' ''OU=a,DC=corp'' True (NewPool 1) one_ou =
     Some (Inr (), p', m') \<and> mem_sd_of m' ''OU=a,DC=corp'' = Some b' \<and> IsProtected b' = Inr True"
proof -
  have q: "quiet (client_of (memConn sample_ad)) (memConn sample_ad)" by (rule quiet_client_of) simp
  have "parse [] \<noteq> Inr fresh" by (simp add: parse_def)
  then have "acl_size [] + 20 < 65536" "serialize fresh \<noteq> []" using parse_fresh(1) by (auto simp: acl_size_def)
  with setProtection_stored [OF q open_pool_NewPool mem_sd_of_one_ou _ parse_fresh]
  show ?thesis by blast
qed

end
