(* ===== verification/Harness.thy ===== *)
theory Harness
  imports Wire Consistency Config Protection
begin

text \<open>
  Package \<open>internal/adtest\<close>: the clients of the harness.  \<open>MemServer.Client\<close> of \<open>memory.go\<close> builds a client over the
  in-memory directory, and \<open>Server.Config\<close> of \<open>server.go\<close> is the configuration that reaches the wire
  server; \<open>StartWire\<close> is \<open>New\<close> with it.
\<close>

definition mem_config :: config where
  "mem_config =
     \<lparr>cfServer = ''mem.corp.local'', cfPort = 0, cfTLS = TLSLDAPS, cfCACertificateFile = [],
      cfInsecureSkipVerify = False, cfTLSConfig = None, cfSimple = None,
      cfKerberos = Some \<lparr>kaCCachePath = [], kaKeytab = [], kaUsername = [], kaPassword = [], kaRealm = [],
                         kaKrb5ConfPath = [], kaSPN = []\<rparr>,
      cfNTLM = None, cfMaxConcurrency = 0, cfTimeout = 0,
      cfReplication = \<lparr>rWait = False, rTargets = [], rForceSync = False, rTimeout = 0, rPollInterval = 0\<rparr>\<rparr>"

definition mem_Client ::
  "('o, 'k, mem_server) host_env \<Rightarrow> (mem_server, 'id) core \<Rightarrow> mem_server \<Rightarrow>
     ((mem_server, 'id) core res \<times> mem_server conn pool \<times> mem_server) option" where
  "mem_Client h base m = NewWithConn h base mem_config (\<lambda>w. (Inr (memConn (ad base)), w)) m"

definition wire_Config :: "string \<Rightarrow> int \<Rightarrow> x509_certificate list \<Rightarrow> config" where
  "wire_Config host port pool =
     \<lparr>cfServer = host, cfPort = port, cfTLS = TLSLDAPS, cfCACertificateFile = [], cfInsecureSkipVerify = False,
      cfTLSConfig = Some \<lparr>ServerName = host, MinVersion = VersionTLS12, InsecureSkipVerify = False, RootCAs = Some pool\<rparr>,
      cfSimple = Some \<lparr>saUsername = bindDN, saPassword = bindPassword\<rparr>, cfKerberos = None, cfNTLM = None,
      cfMaxConcurrency = 0, cfTimeout = 10 * 1000000000,
      cfReplication = \<lparr>rWait = False, rTargets = [], rForceSync = False, rTimeout = 0, rPollInterval = 0\<rparr>\<rparr>"

definition StartWire ::
  "('o, 'k, 'w) host_env \<Rightarrow> ('w, 'id) core \<Rightarrow> string \<Rightarrow> int \<Rightarrow> x509_certificate list \<Rightarrow> 'w \<Rightarrow>
     (('w, 'id) core res \<times> 'w conn pool \<times> 'w) option" where
  "StartWire h base host port pool w = New h base (wire_Config host port pool) w"

section \<open>The client over the in-memory directory\<close>

lemma mem_rootdse:
  "read_rootdse (memConn a) m =
     (Inr (DNC, ''CN=Schema,CN=Configuration,'' @ DNC, ''CN=Configuration,'' @ DNC), m)"
proof -
  have s: "mem_Search rootdse_request m = (Inr \<lparr>Entries = [root_dse], RespControls = []\<rparr>, m)"
    by (simp add: mem_Search_def rootdse_request_def)
  have "FirstString root_dse ''defaultNamingContext'' = DNC"
    "FirstString root_dse ''schemaNamingContext'' = ''CN=Schema,CN=Configuration,'' @ DNC"
    "FirstString root_dse ''configurationNamingContext'' = ''CN=Configuration,'' @ DNC"
    by (simp_all add: FirstString_def First_def root_dse_def)
  with s show ?thesis by (simp add: read_rootdse_def)
qed

lemma mem_config_valid: "SecretIsZero a [] \<Longrightarrow> Validate a mem_config = None"
  by (simp add: Validate_None one_auth_def kerberos_sources_def mem_config_def)

lemma wire_Config_valid: "host \<noteq> [] \<Longrightarrow> Validate a (wire_Config host port pool) = None"
  by (simp add: Validate_None one_auth_def wire_Config_def bindDN_def)

lemma mem_client_core_quiet:
  assumes "\<And>w. oCtx (poolOpts (exec base)) w = None" "1 \<le> maxAttempts (exec base)"
  shows "quiet (client_core base mem_config (\<lambda>w. (Inr (memConn (ad base)), w)) (Bind h noBinder) other) (memConn (ad base))"
  using assms by (simp add: quiet_def client_core_def)

lemma quiet_pinned [simp]: "quiet (c\<lparr>dnc := d, schemaNC := s, configNC := k\<rparr>) cn = quiet c cn"
  by (simp add: quiet_def)

lemma mem_Client_core:
  assumes "\<And>w. oCtx (poolOpts (exec base)) w = None" "1 \<le> maxAttempts (exec base)" "SecretIsZero (ad base) []"
  shows "\<exists>c p. mem_Client h base m = Some (Inr c, p, m) \<and> server c = ''mem.corp.local'' \<and> dnc c = DNC \<and>
    schemaNC c = ''CN=Schema,CN=Configuration,'' @ DNC \<and> configNC c = ''CN=Configuration,'' @ DNC \<and>
    ad c = ad base \<and> quiet c (memConn (ad base)) \<and> open_pool (memConn (ad base)) p"
proof -
  let ?dial = "\<lambda>w :: mem_server. (Inr (memConn (ad base)), w)"
  let ?c = "client_core base mem_config ?dial (Bind h noBinder) (\<lambda>_. ?dial)"
  note q = mem_client_core_quiet [OF assms(1,2), of h "\<lambda>_. ?dial"]
  from run_quiet [of ?c _ "NewPool (cfMaxConcurrency mem_config)" read_rootdse,
      OF q open_pool_NewPool mem_rootdse [of "ad base" m], of "''New''" "([], [], [])"]
  obtain p where p: "open_pool (memConn (ad base)) p" "run ?c ''New'' ([], [], []) read_rootdse
      (NewPool (cfMaxConcurrency mem_config)) m =
      Some (Inr (DNC, ''CN=Schema,CN=Configuration,'' @ DNC, ''CN=Configuration,'' @ DNC), p, m)"
    by auto
  have "DNC \<noteq> []" by (simp add: DNC_def)
  with p(2) have "mem_Client h base m = Some (Inr (?c\<lparr>dnc := DNC, schemaNC := ''CN=Schema,CN=Configuration,'' @ DNC,
      configNC := ''CN=Configuration,'' @ DNC\<rparr>), p, m)"
    by (simp add: mem_Client_def NewWithConn_def mem_config_valid assms(3) newClient_def Let_def)
  moreover have "cfServer mem_config = ''mem.corp.local''" by (simp add: mem_config_def)
  ultimately show ?thesis using p(1) q by auto
qed



end
