(* ===== verification/Startup.thy ===== *)
theory Startup
  imports Harness
begin

text \<open>
  Package \<open>internal/adtest\<close>: how the wire server comes up (\<open>Start\<close> and \<open>waitForPort\<close> of \<open>server.go\<close>), the
  certificate it serves (\<open>cert.go\<close>), and the snapshots of the test directories.

  The packages gldap, net, time and crypto are the functions of the record \<open>start_env\<close>.  \<open>t.Fatalf\<close> ends the test: it is the
  error of the function that calls it.
\<close>

section \<open>The certificate\<close>

text \<open>The fields of \<open>x509.Certificate\<close> the template sets; the usages are their constants in Go.\<close>

record cert_template =
  ctSerialNumber :: int
  ctCommonName :: string
  ctDNSNames :: "string list"
  ctIPAddresses :: "string list"
  ctNotBefore :: int
  ctNotAfter :: int
  ctKeyUsage :: nat
  ctExtKeyUsage :: "nat list"
  ctIsCA :: bool
  ctBasicConstraintsValid :: bool

record 'k tls_certificate =
  tcCertificate :: "bytes list"
  tcPrivateKey :: 'k
  tcLeaf :: x509_certificate

text \<open>The five operations that have a handler.\<close>

datatype wire_route = BindRoute | SearchRoute | AddRoute | ModifyRoute | DeleteRoute

record ('k, 'w) start_env =
  GenerateKey :: "'w \<Rightarrow> 'k res \<times> 'w"
  CreateCertificate :: "cert_template \<Rightarrow> cert_template \<Rightarrow> 'k \<Rightarrow> 'w \<Rightarrow> bytes res \<times> 'w"
  ParseCertificate :: "bytes \<Rightarrow> x509_certificate res"
  gldap_NewServer :: "'w \<Rightarrow> nat res \<times> 'w"
  gldap_NewMux :: "'w \<Rightarrow> nat res \<times> 'w"
  mux_register :: "nat \<Rightarrow> string \<Rightarrow> wire_route option \<Rightarrow> 'w \<Rightarrow> go_error option \<times> 'w"
  server_Router :: "nat \<Rightarrow> nat \<Rightarrow> 'w \<Rightarrow> go_error option \<times> 'w"
  server_Run :: "nat \<Rightarrow> string \<Rightarrow> 'k tls_certificate \<Rightarrow> nat \<Rightarrow> 'w \<Rightarrow> 'w"
  net_Listen :: "string \<Rightarrow> string \<Rightarrow> 'w \<Rightarrow> (nat \<times> int) res \<times> 'w"
  listener_Close :: "nat \<Rightarrow> 'w \<Rightarrow> go_error option \<times> 'w"
  net_DialTimeout :: "string \<Rightarrow> string \<Rightarrow> int \<Rightarrow> 'w \<Rightarrow> nat res \<times> 'w"
  conn_Close :: "nat \<Rightarrow> 'w \<Rightarrow> 'w"
  time_Now :: "'w \<Rightarrow> int \<times> 'w"
  time_Sleep :: "int \<Rightarrow> 'w \<Rightarrow> 'w"

definition nanoseconds :: "int \<Rightarrow> int" where "nanoseconds s = s * 1000000000"
definition milliseconds :: "int \<Rightarrow> int" where "milliseconds ms = ms * 1000000"

definition cert_tmpl :: "string \<Rightarrow> int \<Rightarrow> int \<Rightarrow> cert_template" where
  "cert_tmpl host now1 now2 =
     \<lparr>ctSerialNumber = 1, ctCommonName = host, ctDNSNames = [host], ctIPAddresses = [''127.0.0.1''],
      ctNotBefore = now1 - nanoseconds 3600, ctNotAfter = now2 + nanoseconds (24 * 3600),
      ctKeyUsage = 1 + 32, ctExtKeyUsage = [1], ctIsCA = True, ctBasicConstraintsValid = True\<rparr>"

definition selfSignedCert ::
  "('k, 'w) start_env \<Rightarrow> string \<Rightarrow> 'w \<Rightarrow> ('k tls_certificate \<times> x509_certificate list) res \<times> 'w" where
  "selfSignedCert env host w =
     (case GenerateKey env w of
        (Inl err, w) \<Rightarrow> (Inl (ErrWrap ''generate key'' err), w)
      | (Inr key, w) \<Rightarrow>
          (case time_Now env w of (now1, w) \<Rightarrow>
           case time_Now env w of (now2, w) \<Rightarrow>
             let tmpl = cert_tmpl host now1 now2 in
             case CreateCertificate env tmpl tmpl key w of
               (Inl err, w) \<Rightarrow> (Inl (ErrWrap ''create certificate'' err), w)
             | (Inr der, w) \<Rightarrow>
                 (case ParseCertificate env der of
                    Inl err \<Rightarrow> (Inl (ErrWrap ''parse certificate'' err), w)
                  | Inr leaf \<Rightarrow>
                      (Inr (\<lparr>tcCertificate = [der], tcPrivateKey = key, tcLeaf = leaf\<rparr>, [leaf]), w))))"

section \<open>Waiting for the port\<close>

fun wait_loop :: "nat \<Rightarrow> ('k, 'w) start_env \<Rightarrow> string \<Rightarrow> int \<Rightarrow> 'w \<Rightarrow> (unit res \<times> 'w) option" where
  "wait_loop 0 env addr deadline w = None"
| "wait_loop (Suc fuel) env addr deadline w =
     (case time_Now env w of (now, w) \<Rightarrow>
        if now < deadline then
          (case net_DialTimeout env ''tcp'' addr (milliseconds 200) w of
             (Inr c, w) \<Rightarrow> Some (Inr (), conn_Close env c w)
           | (Inl _, w) \<Rightarrow> wait_loop fuel env addr deadline (time_Sleep env (milliseconds 10) w))
        else Some (Inl (ErrMsg (''the harness never started listening on '' @ addr)), w))"

definition waitForPort :: "nat \<Rightarrow> ('k, 'w) start_env \<Rightarrow> int \<Rightarrow> 'w \<Rightarrow> (unit res \<times> 'w) option" where
  "waitForPort fuel env port w =
     (let addr = JoinHostPort ''127.0.0.1'' (FormatInt port) in
      case time_Now env w of (now, w) \<Rightarrow> wait_loop fuel env addr (now + nanoseconds 5) w)"

section \<open>Bringing the server up\<close>

definition route_of :: "string \<Rightarrow> wire_route option" where
  "route_of name =
     (if name = ''bind'' then Some BindRoute
      else if name = ''search'' then Some SearchRoute
      else if name = ''add'' then Some AddRoute
      else if name = ''modify'' then Some ModifyRoute
      else if name = ''delete'' then Some DeleteRoute
      else None)"

definition operations :: "string list" where
  "operations = [''bind'', ''search'', ''add'', ''modify'', ''delete'']"

text \<open>The loop over the table of operations; \<open>names\<close> are its keys in the order in which \<open>range\<close> visits them.\<close>

fun register_loop :: "('k, 'w) start_env \<Rightarrow> nat \<Rightarrow> string list \<Rightarrow> 'w \<Rightarrow> go_error option \<times> 'w" where
  "register_loop env mux [] w = (None, w)"
| "register_loop env mux (name # names) w =
     (case mux_register env mux name (route_of name) w of
        (Some err, w) \<Rightarrow> (Some (ErrWrap (''mux.'' @ name) err), w)
      | (None, w) \<Rightarrow> register_loop env mux names w)"

record running =
  rnServer :: nat
  rnHost :: string
  rnPort :: int
  rnPool :: "x509_certificate list"
  rnState :: wire_server

definition Start_server ::
  "nat \<Rightarrow> ('k, 'w) start_env \<Rightarrow> string list \<Rightarrow> 'w \<Rightarrow> (running res \<times> 'w) option" where
  "Start_server fuel env names w =
     (case selfSignedCert env ''localhost'' w of
        (Inl err, w) \<Rightarrow> Some (Inl err, w)
      | (Inr (cert, pool), w) \<Rightarrow>
     (case gldap_NewServer env w of
        (Inl err, w) \<Rightarrow> Some (Inl (ErrWrap ''gldap.NewServer'' err), w)
      | (Inr s, w) \<Rightarrow>
     (case gldap_NewMux env w of
        (Inl err, w) \<Rightarrow> Some (Inl (ErrWrap ''gldap.NewMux'' err), w)
      | (Inr mux, w) \<Rightarrow>
     (case register_loop env mux names w of
        (Some err, w) \<Rightarrow> Some (Inl err, w)
      | (None, w) \<Rightarrow>
     (case server_Router env s mux w of
        (Some err, w) \<Rightarrow> Some (Inl (ErrWrap ''s.Router'' err), w)
      | (None, w) \<Rightarrow>
     (case net_Listen env ''tcp'' ''127.0.0.1:0'' w of
        (Inl err, w) \<Rightarrow> Some (Inl (ErrWrap ''listen'' err), w)
      | (Inr (ln, port), w) \<Rightarrow>
     (case listener_Close env ln w of
        (Some err, w) \<Rightarrow> Some (Inl (ErrWrap ''close probe listener'' err), w)
      | (None, w) \<Rightarrow>
          let w = server_Run env s (JoinHostPort ''127.0.0.1'' (FormatInt port)) cert VersionTLS12 w in
          case waitForPort fuel env port w of
            None \<Rightarrow> None
          | Some (Inl err, w) \<Rightarrow> Some (Inl err, w)
          | Some (Inr _, w) \<Rightarrow>
              Some (Inr \<lparr>rnServer = s, rnHost = ''localhost'', rnPort = port, rnPool = pool, rnState = Start\<rparr>, w))))))))"

text \<open>A password no bind is accepted with.\<close>

definition WrongPassword :: string where "WrongPassword = ''not-the-password''"

lemma WrongPassword_rejected: "handleBind (Some (user, WrongPassword)) = ResultInvalidCredentials"
  by (simp add: handleBind_def WrongPassword_def bindPassword_def)

section \<open>Snapshots\<close>

definition copy_attrs :: "attr_map \<Rightarrow> attr_map" where
  "copy_attrs attrs = fold (\<lambda>(k, v). map_put k v) attrs []"

definition snapshot :: "(string \<times> attr_map) list \<Rightarrow> (string \<times> attr_map) list" where
  "snapshot es = fold (\<lambda>(dn, attrs). map_put dn (copy_attrs attrs)) es []"

definition mem_Entries :: "mem_server \<Rightarrow> (string \<times> attr_map) list" where
  "mem_Entries m = snapshot (entries m)"

definition wire_Entries :: "wire_server \<Rightarrow> (string \<times> attr_map) list" where
  "wire_Entries s = snapshot (sEntries s)"

section \<open>What the start gives\<close>

lemma fold_put_id:
  assumes "distinct (map fst es @ map fst acc)"
  shows "fold (\<lambda>(k, v). map_put k (f v)) es acc = acc @ map (\<lambda>(k, v). (k, f v)) es"
  using assms
proof (induction es arbitrary: acc)
  case (Cons e es)
  obtain k v where e: "e = (k, v)" by (cases e)
  have "map_put k (f v) acc = acc @ [(k, f v)]"
    using Cons.prems by (force simp: e map_put_def filter_id_conv)
  with Cons.IH [of "acc @ [(k, f v)]"] Cons.prems show ?case by (simp add: e)
qed simp

text \<open>A snapshot shows exactly what the directory holds.\<close>

lemma mem_Entries_eq:
  assumes "mem_ok m"
  shows "mem_Entries m = entries m"
proof -
  have d: "distinct (map fst (entries m))" using assms by (auto simp: mem_ok_def distinct_map inj_on_def)
  have "copy_attrs attrs = attrs" if "distinct (map fst attrs)" for attrs
    using fold_put_id [of attrs "[]" "\<lambda>v. v"] that by (simp add: copy_attrs_def)
  moreover have "distinct (map fst (snd e))" if "e \<in> set (entries m)" for e
  proof -
    have "attrs_ok (snd e)" using assms that by (cases e) (auto simp: mem_ok_def attrs_ok_def)
    then show ?thesis by (auto simp: attrs_ok_def distinct_map inj_on_def)
  qed
  ultimately have "map (\<lambda>(k, v). (k, copy_attrs v)) (entries m) = entries m" by (intro map_idI) auto
  with fold_put_id [of "entries m" "[]" copy_attrs] d show ?thesis by (simp add: mem_Entries_def snapshot_def)
qed

text \<open>
  A clock that runs: \<open>time.Now\<close> reads it, a pause lets at least its duration pass, dialling does not
  turn it back.
\<close>

definition clock_runs :: "('k, 'w) start_env \<Rightarrow> ('w \<Rightarrow> int) \<Rightarrow> bool" where
  "clock_runs env clk \<longleftrightarrow>
     (\<forall>w. fst (time_Now env w) = clk w \<and> clk w \<le> clk (snd (time_Now env w))) \<and>
     (\<forall>net addr d w. clk w \<le> clk (snd (net_DialTimeout env net addr d w))) \<and>
     (\<forall>d w. clk w + d \<le> clk (time_Sleep env d w))"

lemma wait_loop_returns:
  assumes "clock_runs env clk" "deadline \<le> clk w + int fuel * milliseconds 10"
  shows "\<exists>r w'. wait_loop (Suc fuel) env addr deadline w = Some (r, w')"
  using assms(2)
proof (induction fuel arbitrary: w)
  case 0
  obtain now w1 where n: "time_Now env w = (now, w1)" by (cases "time_Now env w")
  then have "now = clk w" using assms(1) unfolding clock_runs_def by (metis fst_conv)
  with 0 n show ?case by simp
next
  case (Suc fuel)
  obtain now w1 where n: "time_Now env w = (now, w1)" by (cases "time_Now env w")
  obtain r w2 where d: "net_DialTimeout env ''tcp'' addr (milliseconds 200) w1 = (r, w2)" by (cases "net_DialTimeout env ''tcp'' addr (milliseconds 200) w1")
  have "clk w \<le> clk w1" "clk w1 \<le> clk w2" using assms(1) n d unfolding clock_runs_def by (metis snd_conv)+
  moreover have "clk w2 + milliseconds 10 \<le> clk (time_Sleep env (milliseconds 10) w2)"
    using assms(1) unfolding clock_runs_def by blast
  ultimately have "deadline \<le> clk (time_Sleep env (milliseconds 10) w2) + int fuel * milliseconds 10"
    using Suc.prems by (simp add: milliseconds_def)
  from Suc.IH [OF this] n d show ?case by (cases r) auto
qed

text \<open>Five seconds are five hundred pauses: the wait for the port returns.\<close>

lemma waitForPort_returns:
  assumes "clock_runs env clk"
  shows "\<exists>r w'. waitForPort 501 env port w = Some (r, w')"
proof -
  obtain now w1 where n: "time_Now env w = (now, w1)" by (cases "time_Now env w")
  then have "now \<le> clk w1" using assms unfolding clock_runs_def by (metis fst_conv snd_conv)
  then have "now + nanoseconds 5 \<le> clk w1 + int 500 * milliseconds 10" by (simp add: nanoseconds_def milliseconds_def)
  from wait_loop_returns [OF assms this] n show ?thesis by (simp add: waitForPort_def Let_def)
qed

lemma wait_loop_ok:
  "wait_loop fuel env addr deadline w = Some (Inr (), w') \<Longrightarrow>
     \<exists>w1 c w2. net_DialTimeout env ''tcp'' addr (milliseconds 200) w1 = (Inr c, w2) \<and> w' = conn_Close env c w2"
proof (induction fuel arbitrary: w)
  case (Suc fuel)
  then show ?case by (auto split: prod.split_asm sum.split_asm if_split_asm)
qed simp

lemma register_loop_ok:
  "register_loop env mux names w = (None, w') \<Longrightarrow> name \<in> set names \<Longrightarrow>
     \<exists>w1 w2. mux_register env mux name (route_of name) w1 = (None, w2)"
  by (induction names arbitrary: w) (auto split: prod.split_asm option.split_asm)

text \<open>
  A server that came up was given every handler under its operation, accepted a connection on its port, and
  is trusted by the pool it hands to clients: the certificate it serves is the one there.
\<close>

lemma Start_server_ok:
  assumes "Start_server fuel env names w = Some (Inr srv, w')" "set names = set operations"
  shows "rnState srv = Start \<and> rnHost srv = ''localhost'' \<and>
    (\<exists>cert w0 w1. selfSignedCert env ''localhost'' w = (Inr (cert, rnPool srv), w0) \<and> rnPool srv = [tcLeaf cert] \<and>
      ParseCertificate env (hd (tcCertificate cert)) = Inr (tcLeaf cert)) \<and>
    (\<exists>mux. \<forall>name \<in> set operations. \<exists>w1 w2. mux_register env mux name (route_of name) w1 = (None, w2)) \<and>
    (\<exists>w1 c w2. net_DialTimeout env ''tcp'' (JoinHostPort ''127.0.0.1'' (FormatInt (rnPort srv))) (milliseconds 200) w1 = (Inr c, w2))"
proof -
  from assms(1) obtain cert pool w0 where c: "selfSignedCert env ''localhost'' w = (Inr (cert, pool), w0)"
    by (auto simp: Start_server_def split: prod.split_asm sum.split_asm)
  have leaf: "pool = [tcLeaf cert]" "ParseCertificate env (hd (tcCertificate cert)) = Inr (tcLeaf cert)"
    using c by (auto simp: selfSignedCert_def Let_def split: prod.split_asm sum.split_asm)
  from assms(1) c obtain s mux w1 w2 w3 port w4 where
    r: "register_loop env mux names w1 = (None, w2)" and p: "waitForPort fuel env port w3 = Some (Inr (), w4)"
    and srv: "srv = \<lparr>rnServer = s, rnHost = ''localhost'', rnPort = port, rnPool = pool, rnState = Start\<rparr>"
    by (auto simp: Start_server_def Let_def split: prod.split_asm sum.split_asm option.split_asm)
  from p obtain d w5 where "wait_loop fuel env (JoinHostPort ''127.0.0.1'' (FormatInt port)) d w5 = Some (Inr (), w4)"
    by (auto simp: waitForPort_def Let_def split: prod.split_asm)
  from wait_loop_ok [OF this] register_loop_ok [OF r] assms(2) c leaf srv show ?thesis by auto
qed

end
