(* ===== verification/Password.thy ===== *)
theory Password
  imports Protection User
begin

text \<open>
  Whether an account may change its own password, from the handler to the stored descriptor:
  \<open>setCanChangePassword\<close> of \<open>user.go\<close> over a descriptor store and over the in-memory directory.
\<close>

section \<open>The edit of the descriptor\<close>

lemma denied_edit_None:
  assumes "denied_edit on m ot ts l = None" "ts \<noteq> []"
  shows "list_ex (deniedToAny m ot ts) l = on"
proof -
  have "length (filter (deniedToAny m ot ts) l) = 0 \<longleftrightarrow> \<not> list_ex (deniedToAny m ot ts) l"
    by (auto simp: filter_empty_conv list_ex_iff)
  with assms show ?thesis by (auto simp: denied_edit_def Let_def split: if_split_asm)
qed

lemma set_denied_reaches:
  assumes "parse sd = Inr p" "aces (dacl p) = Inr l" "length ot = 16" "m \<noteq> 0" "ts \<noteq> []"
    "acl_size l + sum_list (map (\<lambda>t. 28 + length t) ts) < 65536"
  shows "\<exists>out ok. SetDeniedObjectRight sd on m ot ts = Inr (out, ok) \<and> HasDeniedObjectRight out m ot ts = Inr on \<and>
    (\<not> ok \<longrightarrow> out = sd)"
proof (cases "denied_edit on m ot ts l")
  case None
  then have "SetDeniedObjectRight sd on m ot ts = Inr (sd, False)"
    using denied.act_cases [OF assms(1,2) refl, of on m ot ts] by simp
  with denied_edit_None [OF None assms(5)] assms(1,2) show ?thesis by (auto simp: HasDeniedObjectRight_def)
next
  case (Some k)
  note k = denied_edit_Some [OF Some assms(3,4)]
  have on: "list_ex (deniedToAny m ot ts) k = on"
  proof (cases on)
    case True
    obtain t where "t \<in> set ts" using assms(5) by (cases ts) auto
    with k(3) [OF True this] True show ?thesis by (auto simp: list_ex_iff deniedToAny_def)
  qed (use k(4) in simp)
  have "acl_size k < 65536" using k(1) assms(6) by linarith
  from denied.act_view [OF assms(1,2) _ this, of on m ot ts] Some on show ?thesis
    by (auto simp: HasDeniedObjectRight_def)
qed

lemma changePasswordRight_length: "length changePasswordRight = 16"
  by code_simp

definition can_change_now :: "bytes \<Rightarrow> bool res" where
  "can_change_now sd =
     bind_res (HasDeniedObjectRight sd RightControlAccess changePasswordRight changePasswordTrustees) (\<lambda>denied. Inr (\<not> denied))"

lemma set_can_change_reaches:
  assumes "parse sd = Inr p" "aces (dacl p) = Inr l" "acl_size l + 80 < 65536"
  shows "\<exists>out ok. SetDeniedObjectRight sd (\<not> can) RightControlAccess changePasswordRight changePasswordTrustees = Inr (out, ok) \<and>
    can_change_now out = Inr can \<and> (\<not> ok \<longrightarrow> out = sd)"
proof -
  have "RightControlAccess \<noteq> 0" "changePasswordTrustees \<noteq> []"
    "acl_size l + sum_list (map (\<lambda>t. 28 + length t) changePasswordTrustees) < 65536"
    using assms(3) by (simp_all add: RightControlAccess_def changePasswordTrustees_def SIDEveryone_def SIDSelf_def length_everyone)
  from set_denied_reaches [OF assms(1,2) changePasswordRight_length this, of "\<not> can"] show ?thesis
    by (auto simp: can_change_now_def)
qed

section \<open>The handler over a store\<close>

lemma read_account_sd_ok: "read_sd dn cn w = (Inr b, w') \<Longrightarrow> read_account_sd dn cn w = (Inr b, w')"
  by (auto simp: read_sd_def read_account_sd_def split: prod.split_asm sum.split_asm list.split_asm)

context descriptor_store
begin

lemma set_can_change:
  assumes q: "quiet c cn" "open_pool cn p"
    and sd: "sd_of w dn = Some b" "b \<noteq> []"
    and dacl: "parse b = Inr d" "aces (dacl d) = Inr l" "acl_size l + 80 < 65536"
  shows "\<exists>p' w' b'. setCanChangePassword c op dn can p w = Some (Inr (), p', w') \<and> open_pool cn p' \<and>
    sd_of w' dn = Some b' \<and> can_change_now b' = Inr can \<and> (\<forall>dn'. \<not> same dn dn' \<longrightarrow> sd_of w' dn' = sd_of w dn')"
proof -
  obtain out ok where
    s: "SetDeniedObjectRight b (\<not> can) RightControlAccess changePasswordRight changePasswordTrustees = Inr (out, ok)"
      "can_change_now out = Inr can" "\<not> ok \<longrightarrow> out = b"
    using set_can_change_reaches [OF dacl] by blast
  from run_quiet [where fn = "read_account_sd dn" and op = op and d = "[]",
      OF q read_account_sd_ok [OF read_law [OF sd(1)]]]
  obtain p1 where p1: "open_pool cn p1" "run c op [] (read_account_sd dn) p w = Some (Inr b, p1, w)" by auto
  show ?thesis
  proof (cases ok)
    case False
    with s p1 sd show ?thesis by (simp add: setCanChangePassword_def prog_simps)
  next
    case True
    from run_write [OF q(1) p1(1) sd(1), of op out] s p1 sd True show ?thesis
      by (auto simp: setCanChangePassword_def prog_simps)
  qed
qed

end

section \<open>Properties\<close>



end
