(* ===== verification/Membership.thy ===== *)
theory Membership
  imports Group Ranged
begin

text \<open>
  The root package, file \<open>membership.go\<close>: the members of a group.  \<open>fuel\<close> bounds the pages of a ranged
  read, as in \<open>rangedValues\<close>.
\<close>

definition memberAttrs :: "string list" where
  "memberAttrs = [''objectGUID'', ''distinguishedName'', ''objectClass'', ''objectSid'']"

definition model_member :: "entry \<Rightarrow> member res" where
  "model_member e =
     bind_res (GUIDToString (First e ''objectGUID'')) (\<lambda>guid.
     bind_res (let raw = First e ''objectSid'' in if 0 < length raw then SIDToString raw else Inr []) (\<lambda>sid.
     let classes = map_get (Attrs e) ''objectClass'';
         cls = (if 0 < length classes then str_of (last classes) else [])
     in Inr \<lparr>mbGUID = guid, mbDN = DN e, mbClass = cls, mbSID = sid\<rparr>))"

definition modelMembers :: "entry list \<Rightarrow> member list res" where
  "modelMembers entries = map_res model_member entries"

definition members_request :: "('w, 'id) core \<Rightarrow> bytes list \<Rightarrow> search_request" where
  "members_request c dns =
     \<lparr>BaseDN = dnc c, Scope = ScopeSubtree,
      Filter = ''(|'' @ concat (map (\<lambda>dn. Equal (ad c) ''distinguishedName'' (str_of dn)) dns) @ '')'',
      Attributes = memberAttrs, SizeLimit = int (length dns), Controls = []\<rparr>"

definition resolveMembers :: "('w, 'id) core \<Rightarrow> string \<Rightarrow> bytes list \<Rightarrow> ('w, member list) prog" where
  "resolveMembers c op dns =
     (if length dns = 0 then ret []
      else andThen (run c op [] (search_entries (members_request c dns))) (\<lambda>entries. lift (modelMembers entries)))"

definition Members :: "nat \<Rightarrow> ('w, 'id) core \<Rightarrow> 'id \<Rightarrow> ('w, member list) prog" where
  "Members fuel c i =
     (let op = ''Group.Members'' in
      andThen (resolveDN c op i) (\<lambda>dn.
      andThen (identified c op i (rangedValues fuel c op dn ''member'')) (\<lambda>dns.
      resolveMembers c op dns)))"

definition recursive_request :: "('w, 'id) core \<Rightarrow> string \<Rightarrow> search_request" where
  "recursive_request c dn =
     \<lparr>BaseDN = dnc c, Scope = ScopeSubtree,
      Filter = ''(&(|(objectClass=user)(objectClass=computer))(memberOf:'' @ MatchingRuleInChain @ '':='' @
        EscapeFilter (ad c) dn @ ''))'',
      Attributes = memberAttrs, SizeLimit = 0, Controls = []\<rparr>"

definition MembersRecursive :: "('w, 'id) core \<Rightarrow> 'id \<Rightarrow> ('w, member list) prog" where
  "MembersRecursive c i =
     (let op = ''Group.MembersRecursive'' in
      andThen (group_Get c i) (\<lambda>target.
      andThen (identified c op i (run c op [] (search_entries (recursive_request c (gDN target))))) (\<lambda>entries.
      lift (modelMembers entries))))"

definition alreadySatisfied :: "ad_error \<Rightarrow> mod_op \<Rightarrow> bool" where
  "alreadySatisfied e modOp =
     (let msg = ServerMessage e in
      if modOp = ModAdd
      then Contains msg ''ENTRY_EXISTS'' \<or> Contains msg ''ATT_OR_VALUE_EXISTS'' \<or> Code e = 0x207E
      else Contains msg ''NO_ATTRIBUTE_OR_VAL'' \<or> Contains msg ''NO_ATT_OR_VAL'' \<or> Code e = 0x2076)"

text \<open>The loop that resolves the members.\<close>

fun resolve_all :: "('w, 'id) core \<Rightarrow> string \<Rightarrow> 'id list \<Rightarrow> ('w, bytes list) prog" where
  "resolve_all c op [] = ret []"
| "resolve_all c op (m # ms) =
     andThen (resolveDN c op m) (\<lambda>dn.
     andThen (resolve_all c op ms) (\<lambda>vals. ret (bytes_of dn # vals)))"

definition editMembers :: "('w, 'id) core \<Rightarrow> string \<Rightarrow> 'id \<Rightarrow> 'id list \<Rightarrow> mod_op \<Rightarrow> ('w, unit) prog" where
  "editMembers c op i members modOp =
     (if length members = 0 then ret ()
      else
        andThen (group_Get c i) (\<lambda>target.
        andThen (resolve_all c op members) (\<lambda>vals.
        handle (run c op () (\<lambda>cn w. effect (cModify cn (gDN target)
                  [\<lparr>mOp = modOp, mType = ''member'', mVals = vals\<rparr>] [] w))) (\<lambda>r.
          case r of
            Inr _ \<Rightarrow> ret ()
          | Inl err \<Rightarrow>
              (case as_ad err of
                 Some e \<Rightarrow>
                   if (Kind e = KindConstraint \<or> Kind e = KindAlreadyExists) \<and> alreadySatisfied e modOp then ret ()
                   else fail (WithIdentity (ad c) err op i)
               | None \<Rightarrow> fail (WithIdentity (ad c) err op i))))))"

definition AddMembers :: "('w, 'id) core \<Rightarrow> 'id \<Rightarrow> 'id list \<Rightarrow> ('w, unit) prog" where
  "AddMembers c i members = editMembers c ''Group.AddMembers'' i members ModAdd"

definition RemoveMembers :: "('w, 'id) core \<Rightarrow> 'id \<Rightarrow> 'id list \<Rightarrow> ('w, unit) prog" where
  "RemoveMembers c i members = editMembers c ''Group.RemoveMembers'' i members ModDelete"

definition is_member_request :: "('w, 'id) core \<Rightarrow> string \<Rightarrow> string \<Rightarrow> search_request" where
  "is_member_request c dn memberDN =
     \<lparr>BaseDN = dn, Scope = ScopeBase, Filter = Equal (ad c) ''member'' memberDN,
      Attributes = [''distinguishedName''], SizeLimit = 1, Controls = []\<rparr>"

definition IsMember :: "('w, 'id) core \<Rightarrow> 'id \<Rightarrow> 'id \<Rightarrow> ('w, bool) prog" where
  "IsMember c i member =
     (let op = ''Group.IsMember'' in
      andThen (group_Get c i) (\<lambda>target.
      andThen (resolveDN c op member) (\<lambda>memberDN.
      andThen (identified c op i (run c op [] (search_entries (is_member_request c (gDN target) memberDN)))) (\<lambda>entries.
      ret (0 < length entries)))))"

end
