(* ===== verification/Rights.thy ===== *)
theory Rights
  imports Secdesc
begin

text \<open>
  Package \<open>internal/secdesc\<close>, file \<open>rights.go\<close>: the names of \<open>ActiveDirectoryRights\<close> and the
  access mask they stand for.  \<open>RightsMask\<close> folds names into a mask; \<open>RightsNames\<close> renders a mask
  the way .NET's flag formatting does, greedily from the largest value down.
\<close>

definition rightCreateChild :: u32 where "rightCreateChild = 0x00000001"
definition rightDeleteChild :: u32 where "rightDeleteChild = 0x00000002"
definition rightListChildren :: u32 where "rightListChildren = 0x00000004"
definition rightSelf :: u32 where "rightSelf = 0x00000008"
definition rightReadProperty :: u32 where "rightReadProperty = 0x00000010"
definition rightWriteProperty :: u32 where "rightWriteProperty = 0x00000020"
definition rightListObject :: u32 where "rightListObject = 0x00000080"
definition rightReadControl :: u32 where "rightReadControl = 0x00020000"
definition rightWriteDacl :: u32 where "rightWriteDacl = 0x00040000"
definition rightWriteOwner :: u32 where "rightWriteOwner = 0x00080000"
definition rightGenericAll :: u32 where "rightGenericAll = 0x000F01FF"
definition rightGenericExecute :: u32 where "rightGenericExecute = 0x00020004"
definition rightGenericWrite :: u32 where "rightGenericWrite = 0x00020028"
definition rightGenericRead :: u32 where "rightGenericRead = 0x00020094"
definition rightSynchronize :: u32 where "rightSynchronize = 0x00100000"
definition rightAccessSystemSecurity :: u32 where "rightAccessSystemSecurity = 0x01000000"

lemmas right_defs = rightCreateChild_def rightDeleteChild_def rightListChildren_def rightSelf_def
  rightReadProperty_def rightWriteProperty_def rightListObject_def rightReadControl_def
  rightWriteDacl_def rightWriteOwner_def rightGenericAll_def rightGenericExecute_def
  rightGenericWrite_def rightGenericRead_def rightSynchronize_def rightAccessSystemSecurity_def
  rightDelete_def rightDeleteTree_def RightControlAccess_def

definition rightsTable :: "(u32 \<times> string) list" where
  "rightsTable =
     [(rightCreateChild, ''CreateChild''),
      (rightDeleteChild, ''DeleteChild''),
      (rightListChildren, ''ListChildren''),
      (rightSelf, ''Self''),
      (rightReadProperty, ''ReadProperty''),
      (rightWriteProperty, ''WriteProperty''),
      (rightDeleteTree, ''DeleteTree''),
      (rightListObject, ''ListObject''),
      (RightControlAccess, ''ExtendedRight''),
      (rightDelete, ''Delete''),
      (rightReadControl, ''ReadControl''),
      (rightGenericExecute, ''GenericExecute''),
      (rightGenericWrite, ''GenericWrite''),
      (rightGenericRead, ''GenericRead''),
      (rightWriteDacl, ''WriteDacl''),
      (rightWriteOwner, ''WriteOwner''),
      (rightGenericAll, ''GenericAll''),
      (rightSynchronize, ''Synchronize''),
      (rightAccessSystemSecurity, ''AccessSystemSecurity'')]"

text \<open>The inner loop of \<open>RightsMask\<close>: the first table row whose name matches, case aside.\<close>

definition lookup_right :: "string \<Rightarrow> u32 option" where
  "lookup_right n =
     map_option fst (find (\<lambda>r. ToLower (snd r) = ToLower (TrimSpace n)) rightsTable)"

fun rights_fold :: "u32 \<Rightarrow> string list \<Rightarrow> u32 res" where
  "rights_fold m [] = Inr m"
| "rights_fold m (n # ns) =
     (case lookup_right n of
        None \<Rightarrow> Inl (ErrMsg (''secdesc: unknown access right '' @ quote n))
      | Some b \<Rightarrow> rights_fold (m OR b) ns)"

definition RightsMask :: "string list \<Rightarrow> u32 res" where
  "RightsMask names = rights_fold 0 names"

text \<open>
  The descending loop of \<open>RightsNames\<close>, over the table in reverse: a row is taken when all its
  bits remain, and its bits are cleared.  The names taken come out in table order.
\<close>

fun take_rights :: "u32 \<Rightarrow> (u32 \<times> string) list \<Rightarrow> (u32 \<times> string) list" where
  "take_rights remaining [] = []"
| "take_rights remaining (r # rs) =
     (if fst r \<noteq> 0 \<and> remaining AND fst r = fst r
      then r # take_rights (remaining AND NOT (fst r)) rs
      else take_rights remaining rs)"

definition RightsNames :: "u32 \<Rightarrow> string list" where
  "RightsNames m = map snd (rev (take_rights m (rev rightsTable)))"

section \<open>The table\<close>

definition knownRights :: u32 where
  "knownRights = foldr (\<lambda>r m. fst r OR m) rightsTable 0"

lemma knownRights_eq: "knownRights = 0x011F01FF"
  by (simp add: knownRights_def rightsTable_def right_defs)

lemma lower_names:
  "map (\<lambda>r. ToLower (snd r)) rightsTable =
     [''createchild'', ''deletechild'', ''listchildren'', ''self'', ''readproperty'',
      ''writeproperty'', ''deletetree'', ''listobject'', ''extendedright'', ''delete'',
      ''readcontrol'', ''genericexecute'', ''genericwrite'', ''genericread'', ''writedacl'',
      ''writeowner'', ''genericall'', ''synchronize'', ''accesssystemsecurity'']"
  by (simp add: rightsTable_def ToLower_def lower_char_def is_upper_def char_of_eq_iff take_bit_eq_mod)

lemma distinct_names: "distinct (map (\<lambda>r. ToLower (snd r)) rightsTable)"
  by (simp add: lower_names)

lemma trimmed_names: "r \<in> set rightsTable \<Longrightarrow> TrimSpace (snd r) = snd r"
  by (rule TrimSpace_id) (auto simp: rightsTable_def is_space_def)

lemma lookup_right_table: "r \<in> set rightsTable \<Longrightarrow> lookup_right (snd r) = Some (fst r)"
  using find_map_distinct [OF distinct_names] by (simp add: lookup_right_def trimmed_names)

lemma rights_fold_table:
  "set rs \<subseteq> set rightsTable \<Longrightarrow>
     rights_fold m (map snd rs) = Inr (m OR foldr (\<lambda>r m. fst r OR m) rs 0)"
  by (induction rs arbitrary: m) (auto simp: lookup_right_table or.assoc)

lemma take_rights_subset: "set (take_rights m rs) \<subseteq> set rs"
  by (induction m rs rule: take_rights.induct) auto

text \<open>The rows taken are disjoint parts of the mask; what remains holds no whole row.\<close>

fun left_over :: "u32 \<Rightarrow> (u32 \<times> string) list \<Rightarrow> u32" where
  "left_over m [] = m"
| "left_over m (r # rs) =
     (if fst r \<noteq> 0 \<and> m AND fst r = fst r then left_over (m AND NOT (fst r)) rs else left_over m rs)"

lemma or_and_not: "m AND v = v \<Longrightarrow> v OR (m AND NOT v) = (m :: u32)"
  by (rule bit_word_eqI) (auto simp: bit_simps dest!: arg_cong [where f = "\<lambda>w. bit w _"])

lemma take_rights_split:
  "foldr (\<lambda>r m. fst r OR m) (take_rights m rs) 0 OR left_over m rs = m"
proof (induction m rs rule: take_rights.induct)
  case (2 m r rs)
  then show ?case by (simp add: or.assoc or_and_not)
qed simp

text \<open>Every bit some row covers has a row of its own, so nothing the table knows is left over.\<close>

lemma left_over_bit: "bit (left_over m rs) i \<Longrightarrow> bit m i"
  by (induction m rs rule: left_over.induct) (auto simp: bit_simps split: if_splits)

lemma left_over_row:
  "(push_bit i 1, n) \<in> set rs \<Longrightarrow> i < 32 \<Longrightarrow> \<not> bit (left_over m rs) i"
proof (induction m rs rule: left_over.induct)
  case (2 m r rs)
  show ?case
  proof (cases "r = (push_bit i 1, n)")
    case True
    have "m AND push_bit i 1 = push_bit i 1" if "bit m i"
      using that by (auto intro!: bit_word_eqI simp: bit_simps)
    moreover have "push_bit i (1 :: u32) \<noteq> 0"
      using \<open>i < 32\<close> by (auto simp: bit_eq_iff bit_simps)
    ultimately show ?thesis
      using True \<open>i < 32\<close> by (auto simp: bit_simps dest: left_over_bit)
  next
    case False
    with 2 show ?thesis by auto
  qed
qed simp

definition single_bits :: "(nat \<times> string) list" where
  "single_bits =
     [(0, ''CreateChild''), (1, ''DeleteChild''), (2, ''ListChildren''), (3, ''Self''),
      (4, ''ReadProperty''), (5, ''WriteProperty''), (6, ''DeleteTree''), (7, ''ListObject''),
      (8, ''ExtendedRight''), (16, ''Delete''), (17, ''ReadControl''), (18, ''WriteDacl''),
      (19, ''WriteOwner''), (20, ''Synchronize''), (24, ''AccessSystemSecurity'')]"

lemma single_bits_rows:
  "(i, n) \<in> set single_bits \<Longrightarrow> i < 32 \<and> (push_bit i 1, n) \<in> set rightsTable"
proof -
  have "list_all (\<lambda>p. fst p < 32 \<and> (push_bit (fst p) 1, snd p) \<in> set rightsTable) single_bits"
    by (simp add: single_bits_def rightsTable_def right_defs push_bit_eq_mult)
  then show "(i, n) \<in> set single_bits \<Longrightarrow> i < 32 \<and> (push_bit i 1, n) \<in> set rightsTable"
    by (auto simp: list_all_iff)
qed

lemma knownRights_bits: "knownRights = foldr (\<lambda>p m. push_bit (fst p) 1 OR m) single_bits 0"
  by (simp add: knownRights_eq single_bits_def push_bit_eq_mult)

lemma bit_foldr_or:
  "bit (foldr (\<lambda>x m. f x OR m) xs (0 :: u32)) i \<longleftrightarrow> (\<exists>x \<in> set xs. bit (f x) i)"
  by (induction xs) (auto simp: bit_simps)

lemma bit_knownRights: "bit knownRights i \<longleftrightarrow> i \<in> fst ` set single_bits"
  unfolding knownRights_bits bit_foldr_or by (force simp: bit_simps dest: single_bits_rows)

lemma left_over_known: "left_over m (rev rightsTable) AND knownRights = 0"
proof (rule bit_word_eqI)
  fix i
  show "bit (left_over m (rev rightsTable) AND knownRights) i = bit (0 :: u32) i"
    using left_over_row [of i _ "rev rightsTable" m]
    by (fastforce simp: bit_simps bit_knownRights dest: single_bits_rows)
qed

lemma taken_known:
  assumes "set rs \<subseteq> set rightsTable"
  shows "foldr (\<lambda>r m. fst r OR m) rs 0 AND knownRights = foldr (\<lambda>r m. fst r OR m) rs 0"
proof (rule bit_word_eqI)
  fix i
  show "bit (foldr (\<lambda>r m. fst r OR m) rs 0 AND knownRights) i =
        bit (foldr (\<lambda>r m. fst r OR m) rs 0) i"
    using assms unfolding bit_and_iff knownRights_def bit_foldr_or by blast
qed

lemma take_rights_known:
  "foldr (\<lambda>r m. fst r OR m) (take_rights m (rev rightsTable)) 0 = m AND knownRights"
proof -
  let ?t = "foldr (\<lambda>r m. fst r OR m) (take_rights m (rev rightsTable)) 0"
  have "m AND knownRights = (?t OR left_over m (rev rightsTable)) AND knownRights"
    by (simp add: take_rights_split)
  also have "\<dots> = ?t"
    using taken_known [of "take_rights m (rev rightsTable)"] take_rights_subset [of m "rev rightsTable"]
    by (simp add: bit.conj_disj_distrib2 left_over_known)
  finally show ?thesis ..
qed

lemma foldr_or_rev:
  "foldr (\<lambda>r m. fst r OR m) (rev rs) (0 :: u32) = foldr (\<lambda>r m. fst r OR m) rs 0"
  by (rule bit_word_eqI) (simp add: bit_foldr_or)

section \<open>Properties\<close>

text \<open>
  Rendering a mask as right names and folding the names back gives exactly the bits of the
  mask that \<open>ActiveDirectoryRights\<close> names; no named bit is lost or invented by the greedy choice of
  composite names.
\<close>

theorem RightsMask_RightsNames: "RightsMask (RightsNames m) = Inr (m AND 0x011F01FF)"
  using rights_fold_table [of "rev (take_rights m (rev rightsTable))" 0]
    take_rights_subset [of m "rev rightsTable"]
  by (simp add: RightsMask_def RightsNames_def foldr_or_rev take_rights_known knownRights_eq)

lemma rights_fold_eq:
  "rights_fold m names =
     (case find (\<lambda>n. lookup_right n = None) names of
        Some n \<Rightarrow> Inl (ErrMsg (''secdesc: unknown access right '' @ quote n))
      | None \<Rightarrow> Inr (m OR foldr (\<lambda>n m. the (lookup_right n) OR m) names 0))"
  by (induction m names rule: rights_fold.induct) (auto simp: or.assoc split: option.splits)

text \<open>
  \<open>RightsMask\<close> fails, with no mask, exactly when some name is not a right of the table (case and
  surrounding blanks aside), and the error names the first such name; otherwise the mask is the
  union of the rights named.
\<close>

theorem RightsMask_spec:
  "RightsMask names =
     (case find (\<lambda>n. \<not> list_ex (\<lambda>r. EqualFold (snd r) (TrimSpace n)) rightsTable) names of
        Some n \<Rightarrow> Inl (ErrMsg (''secdesc: unknown access right '' @ quote n))
      | None \<Rightarrow> Inr (foldr (\<lambda>n m. the (lookup_right n) OR m) names 0))"
proof -
  have "lookup_right n = None \<longleftrightarrow> \<not> list_ex (\<lambda>r. EqualFold (snd r) (TrimSpace n)) rightsTable" for n
    by (auto simp: lookup_right_def EqualFold_def find_None_iff list_ex_iff)
  then show ?thesis by (simp add: RightsMask_def rights_fold_eq split: option.split)
qed

end
