(* ===== verification/Acl.thy ===== *)
theory Acl
  imports Ou Rights
begin

text \<open>
  The root package, file \<open>acl.go\<close>: the access-control entries of an object.  The Go sets of keys are lists
  of which only the elements matter.
\<close>

definition aclAttrs :: "string list" where
  "aclAttrs = [''objectGUID'', ''distinguishedName'', ''nTSecurityDescriptor'']"

definition zeroGUID :: string where "zeroGUID = ''00000000-0000-0000-0000-000000000000''"

definition guidOrEmpty :: "bytes \<Rightarrow> string" where
  "guidOrEmpty raw =
     (if length raw \<noteq> 16 then []
      else case GUIDToString raw of Inl _ \<Rightarrow> [] | Inr s \<Rightarrow> if s = zeroGUID then [] else s)"

definition readDescriptor :: "('w, 'id) core \<Rightarrow> string \<Rightarrow> 'id \<Rightarrow> ('w, entry \<times> bytes) prog" where
  "readDescriptor c op i =
     andThen (getOne c op i ''*'' aclAttrs [sdDACL]) (\<lambda>e.
       let sd = First e ''nTSecurityDescriptor'' in
       if length sd = 0
       then fail (ErrAd (AdError KindDenied op (IdentityString (ad c) i) (DN e) 0 [] False (Some (ErrMsg
              (''nTSecurityDescriptor read back empty; the account this client '' @
               ''binds as cannot read the object's security descriptor'')))))
       else ret (e, sd))"

text \<open>A decoded entry in the form of the contract, if its trustee formats.\<close>

definition ace_of :: "DecodedACE \<Rightarrow> ace option" where
  "ace_of d =
     (case SIDToString (TrusteeSID d) of
        Inl _ \<Rightarrow> None
      | Inr sid \<Rightarrow>
          Some \<lparr>aceTrustee = sid, aceType = (if Deny d then ACEDeny else ACEAllow), aceRights = RightsNames (Mask d),
                aceObjectType = guidOrEmpty (ObjectType d),
                aceInheritedObjectType = guidOrEmpty (InheritedObjectType d),
                aceInheritance = InheritanceOf (Flags d), aceInherited = Inherited d\<rparr>)"

definition acl_Get :: "('w, 'id) core \<Rightarrow> 'id \<Rightarrow> ('w, ace list) prog" where
  "acl_Get c i =
     (let op = ''ACL.Get'' in
      andThen (readDescriptor c op i) (\<lambda>(_, sd).
      case DecodeACEs sd of
        Inl err \<Rightarrow> fail (ErrAd (AdError KindConstraint op (IdentityString (ad c) i) [] 0 [] False (Some err)))
      | Inr decoded \<Rightarrow> ret (List.map_filter ace_of decoded)))"

definition acl_decode :: "string \<Rightarrow> ace \<Rightarrow> DecodedACE res" where
  "acl_decode op x =
     (case SIDFromString (aceTrustee x) of
        Inl err \<Rightarrow> Inl (ad_err KindConstraint op
                    (ErrWrap (''trustee '' @ quote (aceTrustee x) @ '' is not a SID'') err))
      | Inr sid \<Rightarrow>
     (case RightsMask (aceRights x) of
        Inl err \<Rightarrow> Inl (ad_err KindConstraint op err)
      | Inr msk \<Rightarrow>
     (case (if aceObjectType x \<noteq> [] then GUIDToBytes (aceObjectType x) else Inr []) of
        Inl err \<Rightarrow> Inl (ad_err KindConstraint op
                    (ErrWrap (''object type '' @ quote (aceObjectType x) @ '' is not a GUID'') err))
      | Inr ot \<Rightarrow>
     (case (if aceInheritedObjectType x \<noteq> [] then GUIDToBytes (aceInheritedObjectType x) else Inr []) of
        Inl err \<Rightarrow> Inl (ad_err KindConstraint op
                    (ErrWrap (''inherited object type '' @ quote (aceInheritedObjectType x) @ '' is not a GUID'') err))
      | Inr iot \<Rightarrow>
          Inr \<lparr>TrusteeSID = sid, Deny = (aceType x = ACEDeny), Mask = msk, ObjectType = ot,
               InheritedObjectType = iot, Flags = FlagsFor (aceInheritance x), Inherited = False\<rparr>))))"

definition acl_write :: "('w, 'id) core \<Rightarrow> string \<Rightarrow> string \<Rightarrow> bytes \<Rightarrow> ('w, unit) prog" where
  "acl_write c op dn sd =
     run c op () (\<lambda>cn w. effect (cModify cn dn
       [\<lparr>mOp = ModReplace, mType = ''nTSecurityDescriptor'', mVals = [sd]\<rparr>] [sdDACL] w))"

definition keyOf :: "'id adcore \<Rightarrow> DecodedACE \<Rightarrow> string option" where
  "keyOf a d =
     (case SIDToString (TrusteeSID d) of
        Inl _ \<Rightarrow> None
      | Inr sid \<Rightarrow>
          Some (CanonicalACEKey a
            \<lparr>aceTrustee = sid, aceType = (if Deny d then ACEDeny else ACEAllow), aceRights = RightsNames (Mask d),
             aceObjectType = guidOrEmpty (ObjectType d),
             aceInheritedObjectType = guidOrEmpty (InheritedObjectType d),
             aceInheritance = InheritanceOf (Flags d), aceInherited = False\<rparr>))"

definition explicit_keys :: "'id adcore \<Rightarrow> ace list \<Rightarrow> string list" where
  "explicit_keys a existing = map (CanonicalACEKey a) (filter (\<lambda>x. \<not> aceInherited x) existing)"

text \<open>The new entries of a grant: those whose key is not there, decoded.\<close>

definition grant_new :: "'id adcore \<Rightarrow> string \<Rightarrow> string list \<Rightarrow> ace list \<Rightarrow> DecodedACE list res" where
  "grant_new a op have_keys l =
     map_res (acl_decode op) (filter (\<lambda>x. CanonicalACEKey a x \<notin> set have_keys) l)"

text \<open>The end that grant and revoke share.\<close>

definition write_back ::
  "('w, 'id) core \<Rightarrow> string \<Rightarrow> 'id \<Rightarrow> string \<Rightarrow> (bytes \<times> bool) res \<Rightarrow> ('w, unit) prog" where
  "write_back c op i dn edited =
     (case edited of
        Inl err \<Rightarrow> fail (ErrAd (AdError KindConstraint op (IdentityString (ad c) i) [] 0 [] False (Some err)))
      | Inr (updated, changed) \<Rightarrow>
          if \<not> changed then ret () else identified c op i (acl_write c op dn updated))"

definition Grant :: "('w, 'id) core \<Rightarrow> 'id \<Rightarrow> ace list \<Rightarrow> ('w, unit) prog" where
  "Grant c i l =
     (let op = ''ACL.Grant'' in
      if length l = 0 then ret ()
      else
        andThen (readDescriptor c op i) (\<lambda>(e, sd).
        andThen (acl_Get c (ByDN (ad c) (DN e))) (\<lambda>existing.
        case grant_new (ad c) op (explicit_keys (ad c) existing) l of
          Inl err \<Rightarrow> fail (WithIdentity (ad c) err op i)
        | Inr add \<Rightarrow> write_back c op i (DN e) (AddACEs sd add))))"

definition revoke_match :: "'id adcore \<Rightarrow> ace list \<Rightarrow> DecodedACE \<Rightarrow> bool" where
  "revoke_match a l d =
     (case keyOf a d of None \<Rightarrow> False | Some key \<Rightarrow> key \<in> CanonicalACEKey a ` set l)"

definition Revoke :: "('w, 'id) core \<Rightarrow> 'id \<Rightarrow> ace list \<Rightarrow> ('w, unit) prog" where
  "Revoke c i l =
     (let op = ''ACL.Revoke'' in
      if length l = 0 then ret ()
      else
        andThen (readDescriptor c op i) (\<lambda>(e, sd).
        case map_res (acl_decode op) l of
          Inl err \<Rightarrow> fail (WithIdentity (ad c) err op i)
        | Inr _ \<Rightarrow> write_back c op i (DN e) (RemoveACEs sd (revoke_match (ad c) l))))"

section \<open>What the descriptor says\<close>

text \<open>The entries \<open>acl_Get\<close> returns for a descriptor.\<close>

definition acl_list :: "bytes \<Rightarrow> ace list res" where
  "acl_list sd = bind_res (DecodeACEs sd) (\<lambda>ds. Inr (List.map_filter ace_of ds))"

lemma GUIDToBytes_length: "GUIDToBytes s = Inr b \<Longrightarrow> length b = 16"
proof -
  have h: "hex_pairs n h = Inr f \<Longrightarrow> length f = n" for n h f
    by (induction n h arbitrary: f rule: hex_pairs.induct) auto
  assume "GUIDToBytes s = Inr b"
  then show ?thesis
    by (auto simp: GUIDToBytes_def Let_def put_at_def slice_def dest!: h split: if_split_asm sum.split_asm)
qed

lemma acl_decode_ok:
  assumes "acl_decode op x = Inr d"
  shows "decoded_ok d" "normal d = d" "\<not> Inherited d" "\<exists>sid. SIDToString (TrusteeSID d) = Inr sid"
proof -
  from assms obtain sid msk ot iot where d: "SIDFromString (aceTrustee x) = Inr sid"
    "(if aceObjectType x \<noteq> [] then GUIDToBytes (aceObjectType x) else Inr []) = Inr ot"
    "(if aceInheritedObjectType x \<noteq> [] then GUIDToBytes (aceInheritedObjectType x) else Inr []) = Inr iot"
    "d = \<lparr>TrusteeSID = sid, Deny = (aceType x = ACEDeny), Mask = msk, ObjectType = ot,
          InheritedObjectType = iot, Flags = FlagsFor (aceInheritance x), Inherited = False\<rparr>"
    unfolding acl_decode_def by (auto split: sum.split_asm)
  note sid = SIDFromString_wf [OF d(1)]
  show "decoded_ok d"
    using d sid by (auto simp: decoded_ok_def sid_ok_iff dest: GUIDToBytes_length split: if_split_asm)
  show "normal d = d"
    using d(4) by (cases "aceInheritance x")
      (simp_all add: normal_def AceFlagContainerInherit_def AceFlagInheritOnly_def AceFlagNoPropagate_def AceFlagInherited_def)
  show "\<not> Inherited d" using d(4) by simp
  show "\<exists>s. SIDToString (TrusteeSID d) = Inr s"
    using sid d(4) by (auto simp: SIDToString_def Let_def)
qed

lemma acl_decode_readable:
  assumes "acl_decode op x = Inr d"
  obtains y where "ace_of d = Some y" "\<not> aceInherited y"
  using acl_decode_ok(3,4) [OF assms] that by (auto simp: ace_of_def)

text \<open>
  What \<open>adcore\<close> promises of its canonical key, at one entry: it does not change when the entry is written and
  read back, which changes the order and the case of the rights and of the GUIDs only.
\<close>

definition key_stable :: "'id adcore \<Rightarrow> string \<Rightarrow> ace \<Rightarrow> bool" where
  "key_stable a op x \<longleftrightarrow>
     (\<forall>d y. acl_decode op x = Inr d \<longrightarrow> ace_of d = Some y \<longrightarrow> CanonicalACEKey a y = CanonicalACEKey a x)"

lemma map_res_set: "map_res f xs = Inr ys \<Longrightarrow> x \<in> set xs \<Longrightarrow> \<exists>y \<in> set ys. f x = Inr y"
  by (induction xs arbitrary: ys) auto

lemma map_res_set': "map_res f xs = Inr ys \<Longrightarrow> y \<in> set ys \<Longrightarrow> \<exists>x \<in> set xs. f x = Inr y"
  by (induction xs arbitrary: ys) auto

lemma map_filter_append: "List.map_filter f (xs @ ys) = List.map_filter f xs @ List.map_filter f ys"
  by (simp add: List.map_filter_def)

lemma acl_list_of:
  "parse sd = Inr p \<Longrightarrow> aces (dacl p) = Inr l \<Longrightarrow> decode_list l = Inr ds \<Longrightarrow>
     acl_list sd = Inr (List.map_filter ace_of ds)"
  by (simp add: acl_list_def DecodeACEs_eq)

lemma explicit_keys_member:
  "y \<in> set ys \<Longrightarrow> \<not> aceInherited y \<Longrightarrow> CanonicalACEKey a y \<in> set (explicit_keys a ys)"
  by (auto simp: explicit_keys_def)

lemma grant_reaches:
  assumes sd: "parse sd = Inr p" "aces (dacl p) = Inr l" "decode_list l = Inr ds" "acl_list sd = Inr existing"
    and new: "grant_new a op (explicit_keys a existing) wanted = Inr new"
    and room: "acl_size (l @ map EncodeACE new) < 65536"
    and key: "list_all (key_stable a op) wanted"
  shows "\<exists>out. AddACEs sd new = Inr (out, new \<noteq> []) \<and>
    acl_list out = Inr (existing @ List.map_filter ace_of new) \<and>
    (\<forall>x \<in> set wanted. CanonicalACEKey a x \<in> set (explicit_keys a (existing @ List.map_filter ace_of new))) \<and>
    grant_new a op (explicit_keys a (existing @ List.map_filter ace_of new)) wanted = Inr []"
proof -
  have dec: "\<exists>x \<in> set wanted. acl_decode op x = Inr d" if "d \<in> set new" for d
    using map_res_set' [OF new [unfolded grant_new_def] that] by auto
  have nrm: "map normal new = new" by (rule map_idI) (use dec acl_decode_ok(2) in blast)
  have ok: "list_all decoded_ok new" using dec acl_decode_ok(1) by (auto simp: list_all_iff)
  have ex: "existing = List.map_filter ace_of ds" using acl_list_of [OF sd(1-3)] sd(4) by simp
  have out: "\<exists>out. AddACEs sd new = Inr (out, new \<noteq> []) \<and> acl_list out = Inr (existing @ List.map_filter ace_of new)"
  proof (cases "new = []")
    case True
    then show ?thesis using sd(4) by (simp add: AddACEs_def)
  next
    case False
    from AddACEs_DecodeACEs [OF sd(1-3) False ok room] nrm False show ?thesis
      by (auto simp: acl_list_def ex map_filter_append)
  qed
  have keys: "CanonicalACEKey a x \<in> set (explicit_keys a (existing @ List.map_filter ace_of new))"
    if x: "x \<in> set wanted" for x
  proof (cases "CanonicalACEKey a x \<in> set (explicit_keys a existing)")
    case False
    with x map_res_set [OF new [unfolded grant_new_def]] obtain d where d: "d \<in> set new" "acl_decode op x = Inr d"
      by fastforce
    obtain y where y: "ace_of d = Some y" "\<not> aceInherited y" by (rule acl_decode_readable [OF d(2)])
    have "CanonicalACEKey a y = CanonicalACEKey a x"
      using key x d(2) y(1) by (auto simp: list_all_iff key_stable_def)
    moreover have "y \<in> set (List.map_filter ace_of new)"
      using d(1) y(1) by (force simp: List.map_filter_def)
    ultimately show ?thesis
      using explicit_keys_member [of y "existing @ List.map_filter ace_of new" a] y(2) by simp
  qed (auto simp: explicit_keys_def)
  have "grant_new a op (explicit_keys a (existing @ List.map_filter ace_of new)) wanted = Inr []"
    using keys by (simp add: grant_new_def filter_False)
  with out keys show ?thesis by blast
qed

lemma revoke_match_key:
  assumes "ace_of d = Some y" "\<not> Inherited d"
  shows "revoke_match a l d \<longleftrightarrow> CanonicalACEKey a y \<in> CanonicalACEKey a ` set l"
  using assms by (auto simp: ace_of_def revoke_match_def keyOf_def split: sum.split_asm)

lemma filter_map_filter:
  "(\<And>d y. d \<in> set ds \<Longrightarrow> f d = Some y \<Longrightarrow> P d = Q y) \<Longrightarrow>
     List.map_filter f (filter P ds) = filter Q (List.map_filter f ds)"
  by (induction ds) (auto simp: List.map_filter_simps split: option.split)

lemma revoke_reaches:
  assumes sd: "parse sd = Inr p" "aces (dacl p) = Inr l" "decode_list l = Inr ds" "acl_list sd = Inr existing"
    and room: "acl_size l < 65536"
  shows "\<exists>out changed. RemoveACEs sd (revoke_match a gone) = Inr (out, changed) \<and>
    acl_list out = Inr (filter (\<lambda>y. aceInherited y \<or> CanonicalACEKey a y \<notin> CanonicalACEKey a ` set gone) existing) \<and>
    (\<exists>p'. parse out = Inr p' \<and> aces (dacl p') = Inr (filter (stays (revoke_match a gone)) l)) \<and>
    RemoveACEs out (revoke_match a gone) = Inr (out, False)"
proof -
  have ex: "existing = List.map_filter ace_of ds" using acl_list_of [OF sd(1-3)] sd(4) by simp
  have "List.map_filter ace_of (filter (\<lambda>d. \<not> removable (revoke_match a gone) d) ds) =
      filter (\<lambda>y. aceInherited y \<or> CanonicalACEKey a y \<notin> CanonicalACEKey a ` set gone) existing"
    unfolding ex
  proof (rule filter_map_filter)
    fix d y assume d: "ace_of d = Some y"
    then have i: "aceInherited y = Inherited d" by (auto simp: ace_of_def split: sum.split_asm)
    show "(\<not> removable (revoke_match a gone) d) = (aceInherited y \<or> CanonicalACEKey a y \<notin> CanonicalACEKey a ` set gone)"
      using revoke_match_key [OF d, of a gone] i by (cases "Inherited d") (auto simp: removable_def)
  qed
  with RemoveACEs_DecodeACEs [OF sd(1-3) room, of "revoke_match a gone"] show ?thesis
    by (auto simp: acl_list_def)
qed


lemma Grant_reads:
  assumes "wanted \<noteq> []"
    and "readDescriptor c ''ACL.Grant'' i p w = Some (Inr (e, sd), p1, w1)"
    and "acl_Get c (ByDN (ad c) (DN e)) p1 w1 = Some (Inr existing, p2, w2)"
    and "grant_new (ad c) ''ACL.Grant'' (explicit_keys (ad c) existing) wanted = Inr new"
    and "AddACEs sd new = Inr (out, changed)"
  shows "Grant c i wanted p w =
    (if changed then identified c ''ACL.Grant'' i (acl_write c ''ACL.Grant'' (DN e) out) p2 w2
     else Some (Inr (), p2, w2))"
  using assms by (simp add: Grant_def Let_def andThen_def handle_def write_back_def ret_def)




section \<open>Witnesses\<close>

definition sample_sid :: bytes where
  "sample_sid = [1, 1, 0, 0, 0, 0, 0, 1, 0, 0, 0, 0]"

definition sample_ace :: ace where
  "sample_ace = \<lparr>aceTrustee = (case SIDToString sample_sid of Inr s \<Rightarrow> s | Inl _ \<Rightarrow> []), aceType = ACEAllow,
     aceRights = [''ReadProperty''], aceObjectType = [], aceInheritedObjectType = [],
     aceInheritance = InheritanceThis, aceInherited = False\<rparr>"

definition sample_object :: "bytes \<Rightarrow> entry" where
  "sample_object sd = \<lparr>DN = ''CN=a,DC=corp'', Attrs = [(''nTSecurityDescriptor'', [sd])]\<rparr>"

definition sample_decoded :: DecodedACE where
  "sample_decoded = \<lparr>TrusteeSID = sample_sid, Deny = False, Mask = 0x10, ObjectType = [],
     InheritedObjectType = [], Flags = 0, Inherited = False\<rparr>"

lemma sample_trustee:
  "SIDToString sample_sid = Inr (aceTrustee sample_ace)" "SIDFromString (aceTrustee sample_ace) = Inr sample_sid"
proof -
  obtain s where "SIDToString sample_sid = Inr s" by (simp add: SIDToString_def sample_sid_def)
  then show "SIDToString sample_sid = Inr (aceTrustee sample_ace)" by (simp add: sample_ace_def)
  then show "SIDFromString (aceTrustee sample_ace) = Inr sample_sid"
    by (rule SID_print_parse) (simp add: sample_sid_def)
qed

lemma sample_decode: "acl_decode op sample_ace = Inr sample_decoded"
proof -
  have "RightsMask [''ReadProperty''] = Inr 0x10"
    by (simp add: RightsMask_def lookup_right_def rightsTable_def right_defs is_space_def TrimSpace_def
        ToLower_def lower_char_def is_upper_def)
  with sample_trustee(2) show ?thesis by (simp add: acl_decode_def sample_ace_def sample_decoded_def)
qed

lemma sample_ace_of: "\<exists>y. ace_of sample_decoded = Some y \<and> aceTrustee y = aceTrustee sample_ace"
  using sample_trustee(1) by (simp add: ace_of_def sample_decoded_def)

lemma sample_read:
  fixes sd defines "cn \<equiv> fixed_conn [sample_object sd]"
  assumes "sd \<noteq> []" "open_pool cn p"
  shows "\<exists>p1. open_pool cn p1 \<and>
    readDescriptor (client_of cn) op (''dn'', ''CN=a,DC=corp'') p () = Some (Inr (sample_object sd, sd), p1, ())"
proof -
  let ?c = "client_of cn" and ?i = "(''dn'', ''CN=a,DC=corp'')"
  obtain f where f: "identityFilter (ad ?c) ?i = Inr f" by (simp add: identityFilter_def sample_ad_def)
  let ?req = "one_request ?c f ''*'' aclAttrs [sdDACL]"
  have q: "quiet ?c cn" by (rule quiet_client_of) (simp add: cn_def fixed_conn_def)
  have "search_entries ?req cn () = (Inr [sample_object sd], ())"
    by (simp add: search_entries_def cn_def fixed_conn_def)
  from run_quiet [where d = "[]" and fn = "search_entries ?req" and op = op, OF q assms(3) this] obtain p1 where p1: "open_pool cn p1"
    "run ?c op [] (search_entries ?req) p () = Some (Inr [sample_object sd], p1, ())" by auto
  moreover have "First (sample_object sd) ''nTSecurityDescriptor'' = sd" by (simp add: First_def sample_object_def)
  ultimately show ?thesis
    using assms(2) f by (simp add: readDescriptor_def getOne_def andThen_def handle_def ret_def)
qed

lemma acl_Get_read:
  assumes "readDescriptor c ''ACL.Get'' i p w = Some (Inr (e, sd), p1, w1)" "acl_list sd = Inr l"
  shows "acl_Get c i p w = Some (Inr l, p1, w1)"
  using assms by (auto simp: acl_Get_def acl_list_def Let_def andThen_def handle_def ret_def)

abbreviation sample_client :: "(unit, string \<times> string) core" where
  "sample_client \<equiv> client_of (fixed_conn [sample_object (serialize fresh)])"




end
