(* ===== verification/Schema.thy ===== *)
theory Schema
  imports Search
begin

text \<open>The root package, file \<open>schema.go\<close>: names of attributes, classes and extended rights to GUIDs.\<close>

definition is_hex_char :: "char \<Rightarrow> bool" where
  "is_hex_char c \<longleftrightarrow>
     (let n = of_char c :: nat in 48 \<le> n \<and> n \<le> 57 \<or> 97 \<le> n \<and> n \<le> 102 \<or> 65 \<le> n \<and> n \<le> 70)"

text \<open>The loop ranges over code points; a name of 36 bytes with one outside ASCII has none that passes.\<close>

definition isGUIDString :: "string \<Rightarrow> bool" where
  "isGUIDString s \<longleftrightarrow> length s = 36 \<and>
     list_all (\<lambda>k. if k \<in> {8, 13, 18, 23} then s ! k = CHR ''-'' else is_hex_char (s ! k)) [0..<36]"

text \<open>Base, filter, attribute and whether its value is a binary GUID.\<close>

definition resolve_plan :: "('w, 'id) core \<Rightarrow> string \<Rightarrow> schema_ref \<Rightarrow> (string \<times> string \<times> string \<times> bool) res" where
  "resolve_plan c op ref =
     (case refKind ref of
        RefAttribute \<Rightarrow> Inr (schemaNC c,
          ''(&(objectClass=attributeSchema)'' @ Equal (ad c) ''lDAPDisplayName'' (refName ref) @ '')'', ''schemaIDGUID'', True)
      | RefClass \<Rightarrow> Inr (schemaNC c,
          ''(&(objectClass=classSchema)'' @ Equal (ad c) ''lDAPDisplayName'' (refName ref) @ '')'', ''schemaIDGUID'', True)
      | RefExtendedRight \<Rightarrow> Inr (''CN=Extended-Rights,'' @ configNC c,
          ''(&(objectClass=controlAccessRight)'' @ Equal (ad c) ''displayName'' (refName ref) @ '')'', ''rightsGuid'', False)
      | RefOther k \<Rightarrow> Inl (ad_err KindConstraint op (ErrMsg (''unknown schema reference kind '' @ quote k))))"

definition schema_request :: "string \<Rightarrow> string \<Rightarrow> string \<Rightarrow> search_request" where
  "schema_request base flt attr =
     \<lparr>BaseDN = base, Scope = ScopeSubtree, Filter = flt, Attributes = [attr], SizeLimit = 2, Controls = []\<rparr>"

text \<open>What the entries found say.\<close>

definition schema_answer ::
  "('w, 'id) core \<Rightarrow> string \<Rightarrow> schema_ref \<Rightarrow> string \<Rightarrow> bool \<Rightarrow> entry list \<Rightarrow> string res" where
  "schema_answer c op ref attr binaryGUID entries =
     (case entries of
        [] \<Rightarrow> Inl (ad_err KindNotFound op (ErrMsg (''no '' @ RefKindString (ad c) (refKind ref) @ '' named '' @
                 quote (refName ref) @ '' exists in the schema'')))
      | [e] \<Rightarrow>
          let raw = First e attr in
          if length raw = 0
          then Inl (ad_err KindConstraint op (ErrMsg (quote (refName ref) @ '' has no '' @ attr)))
          else if \<not> binaryGUID then Inr (str_of raw)
          else (case GUIDToString raw of
              Inl err \<Rightarrow> Inl (ad_err KindConstraint op
                (ErrWrap (attr @ '' of '' @ quote (refName ref) @ '' is not a GUID'') err))
            | Inr guid \<Rightarrow> Inr guid)
      | _ \<Rightarrow> Inl (ad_err KindConstraint op (ErrMsg (quote (refName ref) @ '' matches '' @
               fmt_nat 10 (length entries) @ '' schema objects''))))"

definition resolveOne :: "('w, 'id) core \<Rightarrow> string \<Rightarrow> schema_ref \<Rightarrow> ('w, string) prog" where
  "resolveOne c op ref =
     (case resolve_plan c op ref of
        Inl err \<Rightarrow> fail err
      | Inr (base, flt, attr, binaryGUID) \<Rightarrow>
          andThen (run c op [] (search_entries (schema_request base flt attr))) (\<lambda>entries.
            lift (schema_answer c op ref attr binaryGUID entries)))"

text \<open>The loop of \<open>Resolve\<close>, with the map it fills.\<close>

fun resolve_loop ::
  "('w, 'id) core \<Rightarrow> string \<Rightarrow> schema_ref list \<Rightarrow> (schema_ref \<times> string) list \<Rightarrow> ('w, (schema_ref \<times> string) list) prog" where
  "resolve_loop c op [] out = ret out"
| "resolve_loop c op (ref # refs) out =
     (if map_of out ref \<noteq> None then resolve_loop c op refs out
      else if isGUIDString (refName ref) then resolve_loop c op refs (map_put ref (refName ref) out)
      else andThen (resolveOne c op ref) (\<lambda>guid. resolve_loop c op refs (map_put ref guid out)))"

definition Resolve :: "('w, 'id) core \<Rightarrow> schema_ref list \<Rightarrow> ('w, (schema_ref \<times> string) list) prog" where
  "Resolve c refs = resolve_loop c ''Schema.Resolve'' refs []"

section \<open>Properties\<close>

lemma resolve_loop_keeps:
  "resolve_loop c op refs out p w = Some (Inr res, p', w') \<Longrightarrow> map_of out ref = Some g \<Longrightarrow> map_of res ref = Some g"
proof (induction c op refs out arbitrary: p w rule: resolve_loop.induct)
  case (2 c op r refs out)
  show ?case
  proof (cases "map_of out r \<noteq> None \<or> isGUIDString (refName r)")
    case True
    with 2 show ?thesis by (cases "ref = r") (auto split: if_split_asm)
  next
    case False
    with 2 show ?thesis by (cases "ref = r") (auto dest!: andThen_okD split: if_split_asm)
  qed
qed (simp add: ret_def)

lemma resolve_loop_complete:
  "resolve_loop c op refs out p w = Some (Inr res, p', w') \<Longrightarrow> ref \<in> set refs \<Longrightarrow> map_of out ref = None \<Longrightarrow>
     \<exists>g. map_of res ref = Some g \<and>
       (if isGUIDString (refName ref) then g = refName ref
        else \<exists>p1 w1 p2 w2. resolveOne c op ref p1 w1 = Some (Inr g, p2, w2))"
proof (induction c op refs out arbitrary: p w rule: resolve_loop.induct)
  case (2 c op r refs out)
  consider "map_of out r \<noteq> None" | "map_of out r = None" "isGUIDString (refName r)"
    | "map_of out r = None" "\<not> isGUIDString (refName r)" by blast
  then show ?case
  proof cases
    case 1
    with 2 show ?thesis by (cases "ref = r") auto
  next
    case a: 2
    with "2.prems" have n: "resolve_loop c op refs (map_put r (refName r) out) p w = Some (Inr res, p', w')" by simp
    show ?thesis
    proof (cases "ref = r")
      case True
      with resolve_loop_keeps [OF n, of r "refName r"] a show ?thesis by simp
    next
      case False
      with 2 a n show ?thesis by simp
    qed
  next
    case a: 3
    with "2.prems" obtain g p1 w1 where n: "resolveOne c op r p w = Some (Inr g, p1, w1)"
      "resolve_loop c op refs (map_put r g out) p1 w1 = Some (Inr res, p', w')" by (auto dest!: andThen_okD)
    show ?thesis
    proof (cases "ref = r")
      case True
      with resolve_loop_keeps [OF n(2), of r g] a n(1) show ?thesis by auto
    next
      case False
      with 2 a n show ?thesis by simp
    qed
  qed
qed simp

lemma resolve_loop_domain:
  "resolve_loop c op refs out p w = Some (Inr res, p', w') \<Longrightarrow> dom (map_of res) = dom (map_of out) \<union> set refs"
proof (induction c op refs out arbitrary: p w rule: resolve_loop.induct)
  case (2 c op r refs out)
  have "dom (map_of (map_put r g out)) = insert r (dom (map_of out))" for g by auto
  note d = this
  show ?case
  proof (cases "map_of out r \<noteq> None \<or> isGUIDString (refName r)")
    case True
    with 2 show ?thesis by (cases "map_of out r") (simp_all del: map_of_map_put add: d domIff insert_absorb)
  next
    case False
    with "2.prems" obtain g p1 w1 where "resolve_loop c op refs (map_put r g out) p1 w1 = Some (Inr res, p', w')"
      by (auto dest!: andThen_okD)
    with "2.IH"(3) False show ?thesis by (simp del: map_of_map_put add: d)
  qed
qed (simp add: ret_def)

text \<open>The GUID that some search for a reference found, in the one object that matched.\<close>

definition schema_found :: "('w, 'id) core \<Rightarrow> string \<Rightarrow> schema_ref \<Rightarrow> string \<Rightarrow> bool" where
  "schema_found c op ref g \<longleftrightarrow>
     (\<exists>base flt attr binary e p w p' w'. resolve_plan c op ref = Inr (base, flt, attr, binary) \<and>
        run c op [] (search_entries (schema_request base flt attr)) p w = Some (Inr [e], p', w') \<and>
        First e attr \<noteq> [] \<and> (if binary then GUIDToString (First e attr) = Inr g else g = str_of (First e attr)))"

lemma resolveOne_found:
  assumes "resolveOne c op ref p w = Some (Inr g, p', w')"
  shows "schema_found c op ref g"
proof -
  obtain base flt attr binary where plan: "resolve_plan c op ref = Inr (base, flt, attr, binary)"
    using assms by (cases "resolve_plan c op ref") (auto simp: resolveOne_def fail_def)
  with assms obtain es p1 w1 where r: "run c op [] (search_entries (schema_request base flt attr)) p w = Some (Inr es, p1, w1)"
    "schema_answer c op ref attr binary es = Inr g"
    by (auto simp: resolveOne_def lift_def fail_def ret_def split: sum.split_asm dest!: andThen_okD)
  from r(2) obtain e where e: "es = [e]"
    by (cases es rule: remdups_adj.cases) (auto simp: schema_answer_def)
  with r(2) have "First e attr \<noteq> []" "if binary then GUIDToString (First e attr) = Inr g else g = str_of (First e attr)"
    by (auto simp: schema_answer_def Let_def split: if_split_asm sum.split_asm)
  with r(1) plan e show ?thesis unfolding schema_found_def by blast
qed


definition sample_right :: entry where
  "sample_right = \<lparr>DN = ''CN=r'', Attrs = [(''rightsGuid'', [bytes_of ''g''])]\<rparr>"


end
