(* ===== verification/Spec2Isabelle.thy ===== *)
theory Spec2Isabelle
  imports Moves Startup Password Membership Acl Schema
begin

text \<open>
  A verification development of go-adldap, a Go module that manages Active Directory over LDAP.

  \<^bold>\<open>The program.\<close>  A caller configures a client (\<open>config.go\<close>) and gets one from \<open>New\<close> (\<open>client.go\<close>), which dials
  the configured domain controller, binds, reads the rootDSE and pins that controller.  The client hands
  out one handler per kind of object (\<open>ou.go\<close>, \<open>group.go\<close>, \<open>membership.go\<close>, \<open>user.go\<close>, \<open>computer.go\<close>, \<open>gmsa.go\<close>,
  \<open>acl.go\<close>, \<open>schema.go\<close>).  Every handler runs its LDAP operations through \<open>withConn\<close> (\<open>exec.go\<close>): it leases a
  connection from a bounded pool (\<open>internal/conn/pool.go\<close>), classifies a failure (\<open>internal/ldaperr\<close>), retries
  what may be retried and throws a broken connection away.  Connections implement one interface
  (\<open>internal/conn/conn.go\<close>); its implementation over the network adapts the library go-ldap (\<open>goldap.go\<close>, \<open>dial.go\<close>,
  \<open>bind*.go\<close>), with a Kerberos bind of its own (\<open>gssclient.go\<close> and its neighbours), and its implementation
  for tests is a directory in memory (\<open>internal/adtest\<close>), which also has a server that speaks the wire protocol.
  Attribute values are encoded and decoded in \<open>internal/attrs\<close>, security descriptors in \<open>internal/secdesc\<close>.

  \<^bold>\<open>How it is modelled.\<close>  Go data are records and datatypes, byte slices lists of 8-bit words, fixed-width integers words
  or integers with the wrap-around written out, Go maps association lists whose order is the order of
  iteration, pointers to optional values options.  A fallible function returns \<open>go_error + 'a\<close>; a panic is the
  error \<open>GoPanic\<close>, so that its absence can be proved.  Effects are functions of the state of the world \<open>'w\<close>:
  a connection is the record \<open>conn\<close> of its operations, and a handler is a program (\<open>prog\<close>) that takes the pool and
  the world and returns a result with both, or \<open>None\<close> where it would wait forever for a slot.  Code outside
  the repository is a parameter: go-adcore is the record \<open>adcore\<close>, go-ldap \<open>ldap_lib\<close>, the Kerberos library \<open>krb_lib\<close>,
  the digests \<open>digests\<close>, the host's files \<open>host_files\<close>; hypotheses on them are in the statements that need them, and
  witnesses instantiate them.  Contexts, clock and sleep are functions of the world.

  \<^bold>\<open>The theories.\<close>
  \<^item> \<open>GoBase\<close>: the prelude; results, errors and their chains, words and bytes, the parts of the Go standard library the
    sources use (strings, \<open>strconv\<close>), with their lemmas and the collection \<open>go_defs\<close>.
  \<^item> \<open>Secdesc\<close>, \<open>Ace\<close>, \<open>Rights\<close>, \<open>Principals_SD\<close>: \<open>internal/secdesc\<close>.  The locale \<open>dacl_edit\<close> states what every edit of a DACL
    keeps and is interpreted on the edits of the code.
  \<^item> \<open>Attrs\<close>: \<open>internal/attrs\<close>.  \<open>Ldaperr\<close>: \<open>internal/ldaperr\<close>.
  \<^item> \<open>Conn\<close>, \<open>Pool\<close>: the types of the connection interface and the pool, the latter as functions and as a step
    relation over all interleavings of goroutines, with its invariant.  The contract a lease keeps is a locale, interpreted on the
    pool.
  \<^item> \<open>Goldap\<close>, \<open>Krb\<close>: the adapter of go-ldap, dialling, the simple and NTLM binds; credentials, channel binding, the GSSAPI
    client and the Kerberos bind.
  \<^item> \<open>Adcore\<close>: the types and functions of go-adcore the sources use.  \<open>Exec\<close>: \<open>withConn\<close>.  \<open>Core\<close>: the state of a client, programs
    and the steps handlers share.  \<open>Search\<close>, \<open>Ranged\<close>, \<open>Replication\<close>, \<open>Tombstone\<close>: the files of those names.
  \<^item> \<open>Ou\<close>, \<open>Group\<close>, \<open>Membership\<close>, \<open>Principals\<close>, \<open>User\<close>, \<open>Computer\<close>, \<open>Gmsa\<close>, \<open>Acl\<close>, \<open>Schema\<close>: the handlers.
  \<^item> \<open>Config\<close>: \<open>config.go\<close> and \<open>client.go\<close>.
  \<^item> \<open>Matcher\<close>, \<open>Memory\<close>, \<open>Wire\<close>, \<open>Harness\<close>: \<open>internal/adtest\<close>: names and filters, the in-memory directory, the handlers of the wire
    server, and the clients over both.  \<open>Startup\<close>: how the wire server comes up (\<open>server.go\<close>, \<open>cert.go\<close>), with gldap, net, time and crypto as
    the record \<open>start_env\<close>.  \<open>Consistency\<close>: the in-memory directory as a transition system.
  \<^item> \<open>Protection\<close>: an abstract store of descriptors as the locale \<open>descriptor_store\<close>, what \<open>setProtection\<close> does to it, and its
    interpretation on the in-memory directory.  \<open>Password\<close>: the same for \<open>setCanChangePassword\<close>.
  \<^item> \<open>Updates\<close>, \<open>Lookup\<close>, \<open>Lifecycle\<close>, \<open>Creation\<close>, \<open>Moves\<close>: whole operations over the in-memory directory.  \<open>Updates\<close>: what the modifications
    of users and groups make of an object's attributes.  \<open>Lookup\<close>: what the text of a filter selects, and that \<open>getOne\<close> finds what
    an identity names.  \<open>Lifecycle\<close>: the locale \<open>directory_object\<close> states what reading an object of a class promises, the locale
    \<open>reading_handler\<close> gives it by a sublocale, with interpretations on the handlers of groups, users and units; updates and deletes follow
    from it.  \<open>Creation\<close> and \<open>Moves\<close>: the creation of a group, and its rename or move.

  \<^bold>\<open>What is shown.\<close>  Of the pool: never more than \<open>Size\<close> connections, none shared, none leaked, no waiting caller stuck.  Of \<open>withConn\<close>: slots are given
  back, attempts are bounded, broken connections are closed.  Of descriptors and attribute values: round trips, no panics on any
  bytes, edits that change what was asked for and nothing else.  Of the handlers: identities are unique or refused, results are complete
  or an error, grants and revokes are exact and idempotent, updates read back as asked, deletes are confirmed, passwords arrive as
  given.  Of the client: exactly the valid configurations are accepted, a failed construction leaks no connection, a Kerberos bind is bound to
  its channel.  Of the harness: names stay unique, paging is complete, its server comes up or says why not, and a client over it works
  through all layers: groups are created, updated, renamed and moved, users updated, and both deleted, with exactly the effect asked for.  Those
  theorems assume of go-adcore that its filters have the form of RFC 4515 and that its identities and DN helpers give back what
  they were given, of the identity that it names one object, and of GUIDs that they have no byte the harness takes for a wildcard.

  \<^bold>\<open>Fuel.\<close>  \<open>rangedValues\<close> and the replication wait take fuel, where the code loops; the theorems on them state how much is enough (one
  more than the values; the rounds until the deadline of a running clock), so that the loops are shown to return.  \<open>page_walk\<close> takes one
  step more than there are matches.  \<open>waitForPort\<close> takes fuel; 501 rounds are enough for its five seconds.  \<open>withConn\<close> counts its attempts down.

  \<^bold>\<open>Not modelled.\<close>  The keyed mutex and the logger, which have no effect within one handler; the contents of errors' texts where go-adcore
  prints them; Unicode case mapping beyond ASCII; what gldap, go-ldap, the Kerberos library and the standard library's network and
  cryptography do behind their functions; \<open>Directory\<close>, which only puts the handlers into a struct.  \<open>ModifyDN\<close> of the in-memory directory is
  modelled but not part of the transition system of \<open>Consistency\<close>, because it renames the objects below by their text.
\<close>

section \<open>Properties that span components\<close>

text \<open>
  C22. A delete reports success only on evidence: whichever of the five kinds of object, a \<open>Delete\<close> that
  returns no error ended with a read that found no such object, either at once or, after the delete
  was sent, by the GUID of the object that was read first.
\<close>

theorem Delete_confirmed:
  "(group_Delete c i p w = Some (Inr (), p', w') \<longrightarrow> confirmed c (group_Get c) gGUID i p w p' w') \<and>
   (user_Delete c i p w = Some (Inr (), p', w') \<longrightarrow> confirmed c (user_Get c) uGUID i p w p' w') \<and>
   (computer_Delete c i p w = Some (Inr (), p', w') \<longrightarrow> confirmed c (computer_Get c) cGUID i p w p' w') \<and>
   (gmsa_Delete c i p w = Some (Inr (), p', w') \<longrightarrow> confirmed c (gmsa_Get c) saGUID i p w p' w') \<and>
   (ou_Delete c i unprotect p w = Some (Inr (), p', w') \<longrightarrow> confirmed c (ou_Get c) ouGUID i p w p' w')"
  unfolding group_Delete_def user_Delete_def computer_Delete_def gmsa_Delete_def
  by (intro conjI impI delete_object_confirmed ou_Delete_confirmed)


theorem Delete_confirmed_witness:
  "\<exists>p' w'. group_Delete (client_of (fixed_conn [])) (''dn'', ''CN=a,DC=corp'') (NewPool 1) () = Some (Inr (), p', w') \<and>
     confirmed (client_of (fixed_conn [])) (group_Get (client_of (fixed_conn []))) gGUID (''dn'', ''CN=a,DC=corp'')
       (NewPool 1) () p' w'"
proof -
  let ?c = "client_of (fixed_conn [])" and ?i = "(''dn'', ''CN=a,DC=corp'')"
  obtain f where f: "identityFilter (ad ?c) ?i = Inr f" by (simp add: identityFilter_def sample_ad_def)
  have nf: "IsErrNotFound sample_ad = has_kind KindNotFound" "has_kind KindNotFound (ErrAd (AdError KindNotFound op t d n s b e))"
    for op t d n s b e by (simp_all add: sample_ad_def has_kind_def)
  have "\<exists>e p' w'. getOne ?c ''Group.Get'' ?i ''group'' groupAttrs [] (NewPool 1) () = Some (Inl e, p', w') \<and> isNotFound ?c e"
    using f by (simp add: getOne_def prog_simps run_client_of search_entries_def fixed_conn_def isNotFound_def notFound_def nf)
  then obtain p' w' where "group_Delete ?c ?i (NewPool 1) () = Some (Inr (), p', w')"
    by (auto simp: group_Delete_def delete_object_def group_Get_def prog_simps)
  with Delete_confirmed [where c = ?c and i = ?i and p = "NewPool 1" and w = "()"] show ?thesis by blast
qed

end
